(* ===== verification/PyText.thy ===== *)
theory PyText
  imports Prelude
begin

text \<open>
  The text patterns of the SDK (\<^verbatim>\<open>packages/driver-sdk/.../models.py\<close>) and of
  \<^verbatim>\<open>packages/core/.../ids.py\<close>: identifiers, preset aliases, effort tokens and dispatcher
  routes. A pattern is used in two ways that differ: pydantic's \<^verbatim>\<open>Field(pattern=...)\<close> runs it
  in a regex engine where \<^verbatim>\<open>$\<close> is the end of the text, whereas Python's \<^verbatim>\<open>re.match\<close> lets
  \<^verbatim>\<open>$\<close> match before one trailing newline as well. Both readings are modelled, as
  \<open>..._full\<close> and as \<open>re_match\<close> of it.
\<close>

section \<open>Characters\<close>

definition code_of :: "char \<Rightarrow> nat" where
  "code_of c = of_char c"

definition ascii_lower :: "char \<Rightarrow> bool" where
  "ascii_lower c \<longleftrightarrow> 97 \<le> code_of c \<and> code_of c \<le> 122"

definition ascii_digit :: "char \<Rightarrow> bool" where
  "ascii_digit c \<longleftrightarrow> 48 \<le> code_of c \<and> code_of c \<le> 57"

definition ascii_alnum :: "char \<Rightarrow> bool" where
  "ascii_alnum c \<longleftrightarrow> ascii_lower c \<or> ascii_digit c \<or> (65 \<le> code_of c \<and> code_of c \<le> 90)"

definition newline :: char where
  "newline = CHR 0x0A"

lemmas char_class_defs = ascii_alnum_def ascii_lower_def ascii_digit_def code_of_def

text \<open>A first character of one class and at most \<open>n\<close> further ones of another.\<close>

fun token_full :: "(char \<Rightarrow> bool) \<Rightarrow> (char \<Rightarrow> bool) \<Rightarrow> nat \<Rightarrow> string \<Rightarrow> bool" where
  "token_full hd_ok tl_ok n [] = False"
| "token_full hd_ok tl_ok n (c # cs) = (hd_ok c \<and> length cs \<le> n \<and> list_all tl_ok cs)"

lemma token_full_chars:
  "token_full h t n s \<Longrightarrow> c \<in> set s \<Longrightarrow> h c \<or> t c"
  by (cases s) (auto simp: list_all_iff)

lemma token_full_length: "token_full h t n s \<Longrightarrow> 1 \<le> length s \<and> length s \<le> Suc n"
  by (cases s) auto

text \<open>Python's \<^verbatim>\<open>re.match\<close> of \<^verbatim>\<open>^...$\<close>: the whole text, or all of it but a final newline.\<close>

definition re_match :: "(string \<Rightarrow> bool) \<Rightarrow> string \<Rightarrow> bool" where
  "re_match P s \<longleftrightarrow> P s \<or> (s \<noteq> [] \<and> last s = newline \<and> P (butlast s))"

lemma re_matchI: "P s \<Longrightarrow> re_match P s"
  by (simp add: re_match_def)

lemma re_match_no_newline: "re_match P s \<Longrightarrow> newline \<notin> set s \<Longrightarrow> P s"
  by (auto simp: re_match_def dest: last_in_set)

section \<open>Identifiers\<close>

definition id_char :: "char \<Rightarrow> bool" where
  "id_char c \<longleftrightarrow> ascii_alnum c \<or> c \<in> {CHR ''.'', CHR ''_'', CHR '':'', CHR ''-''}"

text \<open>\<^verbatim>\<open>ID_PATTERN\<close>, anchored at both ends.\<close>

definition id_full :: "string \<Rightarrow> bool" where
  "id_full = token_full ascii_alnum id_char 127"

lemma id_char_plain: "id_char c \<Longrightarrow> c \<noteq> newline \<and> c \<noteq> CHR ''/''"
  by (auto simp: id_char_def char_class_defs newline_def)

lemma alnum_id_char: "ascii_alnum c \<Longrightarrow> id_char c"
  by (simp add: id_char_def)

lemma id_full_chars: "id_full s \<Longrightarrow> c \<in> set s \<Longrightarrow> id_char c"
  by (auto simp: id_full_def dest: token_full_chars intro: alnum_id_char)

lemma id_full_no_newline: "id_full s \<Longrightarrow> newline \<notin> set s"
  by (auto dest: id_full_chars id_char_plain)

lemma id_full_no_slash: "id_full s \<Longrightarrow> CHR ''/'' \<notin> set s"
  by (auto dest: id_full_chars id_char_plain)

lemma id_full_nonempty: "id_full s \<Longrightarrow> s \<noteq> []"
  by (cases s) (auto simp: id_full_def)

section \<open>Effort tokens and routes\<close>

definition effort_full :: "string \<Rightarrow> bool" where
  "effort_full = token_full ascii_lower (\<lambda>c. ascii_lower c \<or> ascii_digit c \<or> c = CHR ''_'') 31"

text \<open>\<^verbatim>\<open>validate_effort\<close>: \<^verbatim>\<open>re.match\<close>, so a trailing newline passes.\<close>

definition validate_effort :: "string \<Rightarrow> bool" where
  "validate_effort v = re_match effort_full v"

fun split_on :: "char \<Rightarrow> string \<Rightarrow> string list" where
  "split_on d [] = [[]]"
| "split_on d (c # cs) =
     (if c = d then [] # split_on d cs
      else (case split_on d cs of [] \<Rightarrow> [[c]] | w # ws \<Rightarrow> (c # w) # ws))"

lemma split_on_ne [simp]: "split_on d s \<noteq> []"
  by (cases s) (auto split: list.splits)

lemma split_on_nosep: "d \<notin> set s \<Longrightarrow> split_on d s = [s]"
  by (induction s) auto

lemma split_on_append_sep: "split_on d (s @ d # t) = split_on d s @ split_on d t"
  by (induction s) (auto split: list.splits)

text \<open>\<^verbatim>\<open>"/".join(...)\<close>, the inverse of the split.\<close>

fun join_with :: "char \<Rightarrow> string list \<Rightarrow> string" where
  "join_with d [] = []"
| "join_with d [w] = w"
| "join_with d (w # ws) = w @ d # join_with d ws"

lemma join_with_ConsC: "join_with d ((c # w) # ws) = c # join_with d (w # ws)"
  by (cases ws) auto

lemma join_split: "join_with d (split_on d s) = s"
proof (induction s)
  case Nil
  then show ?case by simp
next
  case (Cons c s)
  obtain w ws where ws: "split_on d s = w # ws"
    using split_on_ne [of d s] by (cases "split_on d s") auto
  with Cons show ?case
    by (simp add: join_with_ConsC)
qed

definition route_segment :: "string \<Rightarrow> bool" where
  "route_segment =
     token_full ascii_alnum (\<lambda>c. ascii_alnum c \<or> c = CHR ''_'' \<or> c = CHR ''-'') 62"

text \<open>\<^verbatim>\<open>ROUTE_PATTERN\<close>: three dot-separated segments.\<close>

definition route_full :: "string \<Rightarrow> bool" where
  "route_full s \<longleftrightarrow>
     length (split_on (CHR ''.'') s) = 3 \<and> list_all route_segment (split_on (CHR ''.'') s)"

section \<open>Aliases\<close>

definition max_alias_segments :: nat where "max_alias_segments = 4"

definition max_alias_length :: nat where "max_alias_length = 259"

datatype alias_error =
    AliasEmpty | AliasTooLong | AliasControl | AliasSegments | AliasTraversal
  | AliasBadSegment string

definition control_char :: "char \<Rightarrow> bool" where
  "control_char c \<longleftrightarrow> code_of c < 32 \<or> code_of c = 127"

text \<open>\<^verbatim>\<open>ALIAS_SEGMENT\<close> ends in \<^verbatim>\<open>\Z\<close>, so \<^verbatim>\<open>match\<close> is a match of the whole segment.\<close>

definition alias_segment :: "string \<Rightarrow> bool" where
  "alias_segment = token_full ascii_alnum id_char 63"

definition check_segment :: "string \<Rightarrow> alias_error + unit" where
  "check_segment w =
     (if w \<in> {'''', ''.'', ''..''} then Inl AliasTraversal
      else if alias_segment w then Inr () else Inl (AliasBadSegment w))"

definition validate_alias :: "string \<Rightarrow> alias_error + string" where
  "validate_alias v =
     (if v = '''' then Inl AliasEmpty
      else if length v > max_alias_length then Inl AliasTooLong
      else if list_ex control_char v then Inl AliasControl
      else if length (split_on (CHR ''/'') v) > max_alias_segments then Inl AliasSegments
      else bindE (forE check_segment (split_on (CHR ''/'') v)) (\<lambda>_. Inr v))"

definition alias_ok :: "string \<Rightarrow> bool" where
  "alias_ok v = isOk (validate_alias v)"

lemma check_segment_ok [simp]: "check_segment w = Inr u \<longleftrightarrow> alias_segment w"
proof -
  have "\<not> alias_segment ''''" "\<not> alias_segment ''.''" "\<not> alias_segment ''..''"
    by (simp_all add: alias_segment_def char_class_defs)
  then show ?thesis
    by (auto simp: check_segment_def)
qed

lemma id_char_not_control: "id_char c \<Longrightarrow> \<not> control_char c"
  by (auto simp: id_char_def char_class_defs control_char_def)

lemma alias_segment_chars: "alias_segment w \<Longrightarrow> c \<in> set w \<Longrightarrow> id_char c"
  by (auto simp: alias_segment_def dest: token_full_chars intro: alnum_id_char)

text \<open>What an accepted alias looks like; the control-character test is implied by the rest.\<close>

lemma validate_alias_ok_iff:
  "validate_alias v = Inr r \<longleftrightarrow>
     r = v \<and> length v \<le> max_alias_length \<and>
     length (split_on (CHR ''/'') v) \<le> max_alias_segments \<and>
     list_all alias_segment (split_on (CHR ''/'') v) \<and> \<not> list_ex control_char v"
proof -
  have "\<not> alias_segment ''''"
    by (simp add: alias_segment_def)
  then show ?thesis
    by (auto simp: validate_alias_def list_all_iff)
qed

lemma alias_ok_iff:
  "alias_ok v \<longleftrightarrow>
     length v \<le> max_alias_length \<and>
     length (split_on (CHR ''/'') v) \<le> max_alias_segments \<and>
     list_all alias_segment (split_on (CHR ''/'') v) \<and> \<not> list_ex control_char v"
  by (auto simp: alias_ok_def isOk_iff validate_alias_ok_iff)

section \<open>Prefixes\<close>

definition starts_with :: "string \<Rightarrow> string \<Rightarrow> bool" where
  "starts_with s p \<longleftrightarrow> take (length p) s = p"

definition ends_with_slash :: "string \<Rightarrow> bool" where
  "ends_with_slash s \<longleftrightarrow> s \<noteq> [] \<and> last s = CHR ''/''"

lemma starts_with_append [simp]: "starts_with (p @ s) p"
  by (simp add: starts_with_def)

lemma starts_withD: "starts_with s p \<Longrightarrow> s = p @ drop (length p) s"
  by (metis append_take_drop_id starts_with_def)

lemma starts_with_iff: "starts_with s p \<longleftrightarrow> (\<exists>t. s = p @ t)"
  using starts_withD by auto

lemma starts_with_common:
  assumes "starts_with s p" and "starts_with s q"
  shows "starts_with p q \<or> starts_with q p"
proof -
  from assms have "s = p @ drop (length p) s" and "s = q @ drop (length q) s"
    by (auto dest: starts_withD)
  then have "p @ drop (length p) s = q @ drop (length q) s" by metis
  then show ?thesis
    by (auto simp: append_eq_append_conv2 starts_with_iff)
qed

section \<open>Safe identifiers (ids.py)\<close>

definition safe_id_full :: "string \<Rightarrow> bool" where
  "safe_id_full s \<longleftrightarrow>
     token_full ascii_alnum (\<lambda>c. ascii_alnum c \<or> c = CHR ''_'' \<or> c = CHR ''-'') 63 s
     \<and> 8 \<le> length s"

definition is_safe_id :: "string \<Rightarrow> bool" where
  "is_safe_id v \<longleftrightarrow> v \<noteq> '''' \<and> re_match safe_id_full v"

definition chat_id_for_run :: "string \<Rightarrow> string" where
  "chat_id_for_run r = ''chatcmpl-'' @ r"

end
