(* ===== verification/Sdk.thy ===== *)
theory Sdk
  imports PyText
begin

text \<open>
  The typed schemas of the driver SDK
  (\<^verbatim>\<open>packages/driver-sdk/src/cli_provider_sdk/models.py\<close>): the enumerations, the records the
  API, the Runner and the drivers exchange, the conditions their pydantic validators check, and
  effort resolution. A validator is a boolean function; a payload that fails it is refused.
\<close>

section \<open>Enumerations\<close>

datatype transport_kind = Stdio | Acp | Pty
datatype streaming_mode = StreamNative | StreamBuffered | StreamNone
datatype session_mode = SessionNone | ExplicitResume | Persistent
datatype role_mode = RoleNative | RoleSerialized | RoleUnsupported
datatype structured_mode = StructNative | StructValidated | StructNone
datatype usage_provenance = Reported | Estimated | UsageUnknown
datatype verification_status = Passed | VFailed | NotRun | VUnknown
datatype effort_support = Selectable | ModelVariant | Unsupported | EffortUnknown
datatype completion_status = CCompleted | CFailed | CCancelled | CUnknown
datatype sdk_outcome = OSucceeded | OPartial | OProviderError | OCancelled | OUnknown

datatype event_kind =
    RunStarted | MessageDelta | ToolStarted | ToolCompleted | PermissionRequired
  | ArtifactCreated | UsageUpdated | RunCompleted | RunFailed | RunCancelled

fun is_terminal_kind :: "event_kind \<Rightarrow> bool" where
  "is_terminal_kind RunCompleted = True"
| "is_terminal_kind RunFailed = True"
| "is_terminal_kind RunCancelled = True"
| "is_terminal_kind _ = False"

fun terminal_kind_for :: "completion_status \<Rightarrow> event_kind option" where
  "terminal_kind_for CCompleted = Some RunCompleted"
| "terminal_kind_for CFailed = Some RunFailed"
| "terminal_kind_for CCancelled = Some RunCancelled"
| "terminal_kind_for CUnknown = None"

definition sdk_version :: string where
  "sdk_version = ''1.0''"

section \<open>Manifest, probe and model descriptors\<close>

record driver_manifest =
  mf_driver_id :: string
  mf_name :: string
  mf_version :: string
  mf_sdk_version :: string
  mf_protocol_family :: string
  mf_transports :: "transport_kind list"
  mf_synthetic :: bool

definition manifest_valid :: "driver_manifest \<Rightarrow> bool" where
  "manifest_valid m \<longleftrightarrow>
     id_full (mf_driver_id m) \<and> mf_name m \<noteq> '''' \<and> mf_version m \<noteq> '''' \<and>
     mf_sdk_version m \<noteq> '''' \<and> mf_protocol_family m \<noteq> '''' \<and> mf_transports m \<noteq> []"

record capabilities =
  cap_streaming :: streaming_mode
  cap_sessions :: session_mode
  cap_roles :: role_mode
  cap_structured_output :: structured_mode
  cap_external_tool_calls :: bool
  cap_internal_tools :: bool
  cap_vision :: bool
  cap_workspace_write :: bool
  cap_web_search :: bool
  cap_usage :: usage_provenance

record verification =
  vf_status :: verification_status
  vf_source :: string
  vf_reason :: "string option"

definition verification_valid :: "verification \<Rightarrow> bool" where
  "verification_valid v \<longleftrightarrow> vf_source v \<noteq> ''''"

record probe_report =
  pr_ok :: bool
  pr_driver_id :: string
  pr_driver_version :: string
  pr_cli_version :: "string option"
  pr_capabilities :: capabilities
  pr_notes :: "string list"

definition probe_valid :: "probe_report \<Rightarrow> bool" where
  "probe_valid p \<longleftrightarrow> id_full (pr_driver_id p) \<and> pr_driver_version p \<noteq> ''''"

text \<open>\<^verbatim>\<open>effort_variants\<close> is a dict; its items in insertion order, with distinct keys.\<close>

record model_descriptor =
  md_model_id :: string
  md_display_name :: string
  md_verification :: verification
  md_effort :: effort_support
  md_effort_options :: "string list"
  md_effort_variants :: "(string \<times> string) list"
  md_cost_tier :: "string option"
  md_family :: "string option"
  md_aliases :: "string list"
  md_executable :: bool

text \<open>\<^verbatim>\<open>_variant_ids\<close> uses \<^verbatim>\<open>re.match\<close>, not a pydantic pattern.\<close>

definition variant_ids_ok :: "(string \<times> string) list \<Rightarrow> bool" where
  "variant_ids_ok vs \<longleftrightarrow> list_all (\<lambda>(level, target). re_match id_full target) vs"

definition effort_shape :: "model_descriptor \<Rightarrow> bool" where
  "effort_shape d =
     (case md_effort d of
        Selectable \<Rightarrow> md_effort_options d \<noteq> [] \<and> md_effort_variants d = []
      | ModelVariant \<Rightarrow> md_effort_variants d \<noteq> [] \<and> md_effort_options d = []
      | _ \<Rightarrow> md_effort_options d = [] \<and> md_effort_variants d = [])"

fun opt_length_le :: "string option \<Rightarrow> nat \<Rightarrow> bool" where
  "opt_length_le None n = True"
| "opt_length_le (Some s) n = (length s \<le> n)"

definition descriptor_valid :: "model_descriptor \<Rightarrow> bool" where
  "descriptor_valid d \<longleftrightarrow>
     id_full (md_model_id d) \<and> md_display_name d \<noteq> '''' \<and>
     verification_valid (md_verification d) \<and>
     list_all validate_effort (md_effort_options d) \<and> length (md_effort_options d) \<le> 16 \<and>
     list_all (\<lambda>(level, _). validate_effort level) (md_effort_variants d) \<and>
     distinct (map fst (md_effort_variants d)) \<and> length (md_effort_variants d) \<le> 16 \<and>
     opt_length_le (md_cost_tier d) 64 \<and> opt_length_le (md_family d) 128 \<and>
     length (md_aliases d) \<le> 32 \<and>
     variant_ids_ok (md_effort_variants d) \<and> effort_shape d"

section \<open>Effort resolution\<close>

datatype effort_rejection =
    NoEffortSupport
  | EffortNotSupported
  | NotInOptions string
  | NoVariant string string

text \<open>
  \<^verbatim>\<open>resolve_effort\<close> returns a pair \<^verbatim>\<open>(resolved_model_id, rejection)\<close>. With no effort
  requested the descriptor's own id is the answer and nothing is rejected, even when there is
  no descriptor.
\<close>

fun resolve_effort ::
  "model_descriptor option \<Rightarrow> string option \<Rightarrow> string option \<times> effort_rejection option" where
  "resolve_effort d None = (map_option md_model_id d, None)"
| "resolve_effort None (Some e) = (None, Some NoEffortSupport)"
| "resolve_effort (Some d) (Some e) =
     (case md_effort d of
        EffortUnknown \<Rightarrow> (None, Some NoEffortSupport)
      | Unsupported \<Rightarrow> (None, Some EffortNotSupported)
      | Selectable \<Rightarrow>
          (if e \<notin> set (md_effort_options d) then (None, Some (NotInOptions e))
           else (Some (md_model_id d), None))
      | ModelVariant \<Rightarrow>
          (case map_of (md_effort_variants d) e of
             None \<Rightarrow> (None, Some (NoVariant e (md_model_id d)))
           | Some target \<Rightarrow> (Some target, None)))"

fun_cases resolve_effort_SomeE: "resolve_effort (Some d) (Some e) = r"

text \<open>An effort request is either resolved or rejected, never both and never neither.\<close>

lemma resolve_effort_exclusive:
  "resolve_effort d (Some e) = (r, j) \<Longrightarrow> (r = None) = (j \<noteq> None)"
  by (cases d) (auto split: effort_support.splits if_splits option.splits dest: sym)

lemma resolve_effort_SomeD:
  assumes "resolve_effort (Some d) (Some e) = (Some m, j)"
  shows "j = None \<and>
    ((md_effort d = Selectable \<and> e \<in> set (md_effort_options d) \<and> m = md_model_id d) \<or>
     (md_effort d = ModelVariant \<and> map_of (md_effort_variants d) e = Some m))"
  using assms by (auto split: effort_support.splits if_splits option.splits)

lemma effort_shape_options: "effort_shape d \<Longrightarrow> e \<in> set (md_effort_options d) \<Longrightarrow> md_effort d = Selectable"
  by (auto simp: effort_shape_def split: effort_support.splits)

lemma effort_shape_variants:
  "effort_shape d \<Longrightarrow> p \<in> set (md_effort_variants d) \<Longrightarrow> md_effort d = ModelVariant"
  by (auto simp: effort_shape_def split: effort_support.splits)

text \<open>The levels a descriptor advertises, whichever way it encodes effort.\<close>

definition advertised :: "model_descriptor \<Rightarrow> string list" where
  "advertised d = md_effort_options d @ map fst (md_effort_variants d)"

lemma resolve_effort_iff_advertised:
  assumes "effort_shape d"
  shows "(\<exists>m. resolve_effort (Some d) (Some e) = (Some m, None)) \<longleftrightarrow> e \<in> set (advertised d)"
proof (cases "md_effort d")
  case ModelVariant
  with assms have "md_effort_options d = []"
    by (simp add: effort_shape_def)
  moreover have "e \<in> fst ` set (md_effort_variants d) \<longleftrightarrow> map_of (md_effort_variants d) e \<noteq> None"
    by (simp add: map_of_eq_None_iff)
  ultimately show ?thesis
    using ModelVariant by (auto simp: advertised_def split: option.splits)
qed (use assms in \<open>auto simp: advertised_def effort_shape_def\<close>)

section \<open>Usage and run results\<close>

record usage =
  us_provenance :: usage_provenance
  us_input :: "nat option"
  us_output :: "nat option"

text \<open>Counts are \<^verbatim>\<open>ge=0\<close>; unknown usage carries none.\<close>

definition usage_valid :: "usage \<Rightarrow> bool" where
  "usage_valid u \<longleftrightarrow> (us_provenance u = UsageUnknown \<longrightarrow> us_input u = None \<and> us_output u = None)"

definition unknown_usage :: usage where
  "unknown_usage = \<lparr>us_provenance = UsageUnknown, us_input = None, us_output = None\<rparr>"

record run_result =
  rr_run_id :: string
  rr_status :: completion_status
  rr_outcome :: sdk_outcome
  rr_verification :: verification
  rr_usage :: usage
  rr_terminal_kind :: "event_kind option"
  rr_terminal_sequence :: "nat option"
  rr_events_seen :: nat
  rr_synthetic :: bool
  rr_detail :: "string option"

fun allowed_outcomes :: "completion_status \<Rightarrow> sdk_outcome list" where
  "allowed_outcomes CCompleted = [OSucceeded, OPartial]"
| "allowed_outcomes CFailed = [OProviderError]"
| "allowed_outcomes CCancelled = [OCancelled]"
| "allowed_outcomes CUnknown = [OUnknown]"

definition run_result_consistent :: "run_result \<Rightarrow> bool" where
  "run_result_consistent r \<longleftrightarrow>
     (case rr_terminal_kind r of None \<Rightarrow> True | Some k \<Rightarrow> is_terminal_kind k) \<and>
     rr_outcome r \<in> set (allowed_outcomes (rr_status r)) \<and>
     (case rr_status r of
        CUnknown \<Rightarrow> rr_terminal_kind r = None
      | CCompleted \<Rightarrow> rr_terminal_kind r = Some RunCompleted
      | CFailed \<Rightarrow> rr_terminal_kind r = Some RunFailed
      | CCancelled \<Rightarrow> rr_terminal_kind r \<in> {None, Some RunCancelled})"

definition run_result_valid :: "run_result \<Rightarrow> bool" where
  "run_result_valid r \<longleftrightarrow>
     id_full (rr_run_id r) \<and> verification_valid (rr_verification r) \<and> usage_valid (rr_usage r) \<and>
     (case rr_terminal_sequence r of None \<Rightarrow> True | Some n \<Rightarrow> 1 \<le> n) \<and>
     run_result_consistent r"

lemma usage_valid_unknown [simp]: "usage_valid unknown_usage"
  by (simp add: usage_valid_def unknown_usage_def)

section \<open>Run events\<close>

text \<open>The payloads of the discriminated union \<^verbatim>\<open>RunEvent\<close>, one constructor per kind.\<close>

datatype event_payload =
    PRunStarted string "string option" "string option" "string option"
      \<comment> \<open>preset, model alias, reasoning effort, resolved model\<close>
  | PMessageDelta string
  | PToolStarted string string
  | PToolCompleted string bool "string option"
      \<comment> \<open>call id, completed (or failed), detail\<close>
  | PPermissionRequired string string
  | PArtifactCreated string string
  | PUsageUpdated usage
  | PRunCompleted bool usage "string option"
      \<comment> \<open>succeeded (or partial), usage, message\<close>
  | PRunFailed string string
  | PRunCancelled string

fun payload_kind :: "event_payload \<Rightarrow> event_kind" where
  "payload_kind (PRunStarted _ _ _ _) = RunStarted"
| "payload_kind (PMessageDelta _) = MessageDelta"
| "payload_kind (PToolStarted _ _) = ToolStarted"
| "payload_kind (PToolCompleted _ _ _) = ToolCompleted"
| "payload_kind (PPermissionRequired _ _) = PermissionRequired"
| "payload_kind (PArtifactCreated _ _) = ArtifactCreated"
| "payload_kind (PUsageUpdated _) = UsageUpdated"
| "payload_kind (PRunCompleted _ _ _) = RunCompleted"
| "payload_kind (PRunFailed _ _) = RunFailed"
| "payload_kind (PRunCancelled _) = RunCancelled"

fun opt_all :: "('a \<Rightarrow> bool) \<Rightarrow> 'a option \<Rightarrow> bool" where
  "opt_all P None = True"
| "opt_all P (Some x) = P x"

fun payload_valid :: "event_payload \<Rightarrow> bool" where
  "payload_valid (PRunStarted p m e r) =
     (alias_ok p \<and> opt_all alias_ok m \<and> opt_all validate_effort e \<and> opt_all id_full r)"
| "payload_valid (PMessageDelta t) = (t \<noteq> '''')"
| "payload_valid (PToolStarted i n) = (i \<noteq> '''' \<and> n \<noteq> '''')"
| "payload_valid (PToolCompleted i _ _) = (i \<noteq> '''')"
| "payload_valid (PPermissionRequired i a) = (i \<noteq> '''' \<and> a \<noteq> '''')"
| "payload_valid (PArtifactCreated i k) = (i \<noteq> '''' \<and> k \<noteq> '''')"
| "payload_valid (PUsageUpdated u) = usage_valid u"
| "payload_valid (PRunCompleted _ u _) = usage_valid u"
| "payload_valid (PRunFailed c m) = (c \<noteq> '''' \<and> m \<noteq> '''')"
| "payload_valid (PRunCancelled r) = (r \<noteq> '''')"

text \<open>Timestamps are timezone-aware instants here, so \<^verbatim>\<open>_aware\<close> holds by typing.\<close>

record run_event =
  ev_run_id :: string
  ev_sequence :: nat
  ev_timestamp :: nat
  ev_synthetic :: bool
  ev_payload :: event_payload

definition ev_kind :: "run_event \<Rightarrow> event_kind" where
  "ev_kind e = payload_kind (ev_payload e)"

definition event_valid :: "run_event \<Rightarrow> bool" where
  "event_valid e \<longleftrightarrow> id_full (ev_run_id e) \<and> 1 \<le> ev_sequence e \<and> payload_valid (ev_payload e)"

section \<open>Requests\<close>

record execution_context =
  ex_task_revision :: string
  ex_base_revision :: string
  ex_route :: string
  ex_policy_version :: string

definition execution_valid :: "execution_context \<Rightarrow> bool" where
  "execution_valid x \<longleftrightarrow>
     id_full (ex_task_revision x) \<and> id_full (ex_base_revision x) \<and>
     route_full (ex_route x) \<and> id_full (ex_policy_version x)"

datatype role = System | User | Assistant

fun role_text :: "role \<Rightarrow> string" where
  "role_text System = ''system''"
| "role_text User = ''user''"
| "role_text Assistant = ''assistant''"

record message =
  msg_role :: role
  msg_content :: string

text \<open>
  \<^verbatim>\<open>NormalizedRequest\<close>, which \<^verbatim>\<open>RunParams\<close> of the Runner protocol mirrors; the workspace
  reference is its id (no client of this repository sends a revision).
\<close>

record run_request =
  rq_run_id :: string
  rq_task_id :: string
  rq_attempt_id :: string
  rq_preset :: string
  rq_workspace_id :: string
  rq_model_alias :: "string option"
  rq_messages :: "message list"
  rq_deadline :: "rat option"
  rq_execution :: "execution_context option"
  rq_reasoning_effort :: "string option"
  rq_resolved_model :: "string option"

definition request_common_valid :: "run_request \<Rightarrow> bool" where
  "request_common_valid q \<longleftrightarrow>
     id_full (rq_run_id q) \<and> id_full (rq_task_id q) \<and> id_full (rq_attempt_id q) \<and>
     alias_ok (rq_preset q) \<and> id_full (rq_workspace_id q) \<and>
     opt_all alias_ok (rq_model_alias q) \<and> rq_messages q \<noteq> [] \<and>
     opt_all (\<lambda>d. 0 < d) (rq_deadline q) \<and> opt_all execution_valid (rq_execution q)"

definition normalized_valid :: "run_request \<Rightarrow> bool" where
  "normalized_valid q \<longleftrightarrow>
     request_common_valid q \<and> opt_all validate_effort (rq_reasoning_effort q) \<and>
     opt_all id_full (rq_resolved_model q)"

end
