(* ===== verification/OpConfig.thy ===== *)
theory OpConfig
  imports Sdk
begin

text \<open>
  The strict operator configuration (\<^verbatim>\<open>packages/core/src/cli_provider_core/config.py\<close>): one
  record per pydantic model, one boolean function per model for the bounds of its fields and its
  own validators, and \<open>cross_references\<close> for the checks between sections, in the order the code
  makes them. \<open>operator_config_ok\<close> is what \<^verbatim>\<open>OperatorConfig.model_validate\<close> accepts.
\<close>

section \<open>Sections of the configuration\<close>

record limits =
  lim_body_bytes :: nat
  lim_events_per_run :: nat
  lim_events_returned :: nat
  lim_output_bytes :: nat
  lim_artifact_bytes :: nat
  lim_headers_bytes :: nat

definition limits_ok :: "limits \<Rightarrow> bool" where
  "limits_ok l \<longleftrightarrow>
     0 < lim_body_bytes l \<and> 0 < lim_events_per_run l \<and> 0 < lim_events_returned l \<and>
     0 < lim_output_bytes l \<and> 0 < lim_artifact_bytes l \<and> 0 < lim_headers_bytes l"

record concurrency =
  cc_per_runner :: nat
  cc_per_principal :: nat
  cc_queue_timeout :: rat
  cc_queued_per_runner :: nat
  cc_queued_per_principal :: nat

definition concurrency_ok :: "concurrency \<Rightarrow> bool" where
  "concurrency_ok c \<longleftrightarrow>
     1 \<le> cc_per_runner c \<and> 1 \<le> cc_per_principal c \<and> 0 < cc_queue_timeout c \<and>
     1 \<le> cc_queued_per_runner c \<and> 1 \<le> cc_queued_per_principal c"

record api_settings =
  api_host :: string
  api_port :: nat
  api_default_run_deadline :: rat
  api_max_run_deadline :: rat
  api_cancel_deadline :: rat
  api_keepalive :: rat
  api_body_timeout :: rat
  api_catalog_refresh :: rat
  api_limits :: limits
  api_concurrency :: concurrency

definition api_settings_ok :: "api_settings \<Rightarrow> bool" where
  "api_settings_ok a \<longleftrightarrow>
     api_port a \<le> 65535 \<and> 0 < api_default_run_deadline a \<and> 0 < api_max_run_deadline a \<and>
     0 < api_cancel_deadline a \<and> 0 < api_keepalive a \<and> 0 < api_body_timeout a \<and>
     0 < api_catalog_refresh a \<and> limits_ok (api_limits a) \<and> concurrency_ok (api_concurrency a)"

record runner_config =
  rc_instance_id :: string
  rc_driver_id :: string
  rc_driver_version :: string
  rc_distribution :: string
  rc_socket_path :: string
  rc_enabled :: bool
  rc_connect_timeout :: rat
  rc_control_timeout :: rat
  rc_run_frame_timeout :: "rat option"

definition runner_config_ok :: "runner_config \<Rightarrow> bool" where
  "runner_config_ok r \<longleftrightarrow>
     id_full (rc_instance_id r) \<and> id_full (rc_driver_id r) \<and> rc_driver_version r \<noteq> '''' \<and>
     rc_distribution r \<noteq> '''' \<and> rc_socket_path r \<noteq> '''' \<and> 0 < rc_connect_timeout r \<and>
     0 < rc_control_timeout r \<and> opt_all (\<lambda>t. 0 < t) (rc_run_frame_timeout r)"

record preset_config =
  pc_alias :: string
  pc_runner_ref :: string
  pc_model_id :: string
  pc_task_policy :: string
  pc_enabled :: bool
  pc_stateless :: bool
  pc_allow_synthetic :: bool

definition preset_config_ok :: "preset_config \<Rightarrow> bool" where
  "preset_config_ok p \<longleftrightarrow>
     alias_ok (pc_alias p) \<and> pc_runner_ref p \<noteq> '''' \<and> pc_model_id p \<noteq> '''' \<and>
     pc_task_policy p \<noteq> ''''"

record catalog_source =
  cs_name :: string
  cs_runner_ref :: string
  cs_alias_prefix :: string
  cs_task_policy :: string
  cs_enabled :: bool
  cs_models :: "string list option"
  cs_cost_tiers :: "string list option"
  cs_allow_synthetic :: bool

definition prefix_and_filters :: "catalog_source \<Rightarrow> bool" where
  "prefix_and_filters c \<longleftrightarrow>
     ends_with_slash (cs_alias_prefix c) \<and> alias_ok (cs_alias_prefix c @ ''x'') \<and>
     (case cs_models c of None \<Rightarrow> True
      | Some ms \<Rightarrow> list_all (re_match id_full) ms \<and> distinct ms) \<and>
     (case cs_cost_tiers c of None \<Rightarrow> True
      | Some ts \<Rightarrow> list_all (\<lambda>t. t \<noteq> '''' \<and> length t \<le> 64) ts)"

definition catalog_source_ok :: "catalog_source \<Rightarrow> bool" where
  "catalog_source_ok c \<longleftrightarrow>
     id_full (cs_name c) \<and> cs_runner_ref c \<noteq> '''' \<and>
     2 \<le> length (cs_alias_prefix c) \<and> length (cs_alias_prefix c) \<le> 200 \<and>
     cs_task_policy c \<noteq> '''' \<and>
     opt_all (\<lambda>ms. length ms \<le> 512) (cs_models c) \<and>
     opt_all (\<lambda>ts. length ts \<le> 16) (cs_cost_tiers c) \<and> prefix_and_filters c"

definition hex_digit :: "char \<Rightarrow> bool" where
  "hex_digit c \<longleftrightarrow> ascii_digit c \<or> (97 \<le> code_of c \<and> code_of c \<le> 102)"

definition key_hash_full :: "string \<Rightarrow> bool" where
  "key_hash_full h \<longleftrightarrow>
     take 7 h = ''sha256:'' \<and> length h = 71 \<and> list_all hex_digit (drop 7 h)"

record principal_config =
  pp_name :: string
  pp_key_hash :: string
  pp_allowed_presets :: "string list"
  pp_allowed_catalogs :: "string list"
  pp_executable_catalogs :: "string list"
  pp_allowed_workspaces :: "string list"
  pp_max_concurrency :: nat

definition principal_config_ok :: "principal_config \<Rightarrow> bool" where
  "principal_config_ok p \<longleftrightarrow>
     id_full (pp_name p) \<and> re_match key_hash_full (pp_key_hash p) \<and>
     pp_allowed_presets p \<noteq> [] \<and> list_all alias_ok (pp_allowed_presets p) \<and>
     pp_allowed_workspaces p \<noteq> [] \<and> 1 \<le> pp_max_concurrency p"

record operator_config =
  oc_schema_version :: int
  oc_data_dir :: string
  oc_api :: api_settings
  oc_runners :: "runner_config list"
  oc_presets :: "preset_config list"
  oc_catalogs :: "catalog_source list"
  oc_workspaces :: "string list"
  oc_principals :: "principal_config list"

section \<open>Lookups\<close>

definition runner_map :: "operator_config \<Rightarrow> string \<rightharpoonup> runner_config" where
  "runner_map c = dict_by rc_instance_id (oc_runners c)"

definition preset_map :: "operator_config \<Rightarrow> string \<rightharpoonup> preset_config" where
  "preset_map c = dict_by pc_alias (oc_presets c)"

text \<open>\<^verbatim>\<open>set(config.preset_map())\<close>: the aliases the static presets own.\<close>

definition static_aliases :: "operator_config \<Rightarrow> string set" where
  "static_aliases c = set (map pc_alias (oc_presets c))"

lemma static_aliases_dom: "static_aliases c = dom (preset_map c)"
  by (simp add: static_aliases_def preset_map_def dom_dict_by)

lemma preset_map_None: "preset_map c a = None \<longleftrightarrow> a \<notin> static_aliases c"
  by (auto simp: static_aliases_dom domIff)

section \<open>Cross references\<close>

datatype config_error =
    DuplicateRunner | DuplicatePreset | DuplicateWorkspace | DuplicatePrincipal
  | PresetUnknownRunner string | DuplicateCatalog | CatalogUnknownRunner string
  | PrefixesOverlap | PrincipalUnknownPreset string | PrincipalUnknownCatalog string
  | PrincipalUnknownWorkspace string

definition prefixes_overlap :: "string \<Rightarrow> string \<Rightarrow> bool" where
  "prefixes_overlap p q \<longleftrightarrow> starts_with p q \<or> starts_with q p"

fun some_overlap :: "string list \<Rightarrow> bool" where
  "some_overlap [] = False"
| "some_overlap (p # ps) = (list_ex (prefixes_overlap p) ps \<or> some_overlap ps)"

definition enabled_prefixes :: "operator_config \<Rightarrow> string list" where
  "enabled_prefixes c = map cs_alias_prefix (filter cs_enabled (oc_catalogs c))"

definition catalog_alias :: "operator_config \<Rightarrow> string \<Rightarrow> bool" where
  "catalog_alias c a \<longleftrightarrow>
     list_ex (\<lambda>s. cs_enabled s \<and> starts_with a (cs_alias_prefix s) \<and>
                  re_match id_full (drop (length (cs_alias_prefix s)) a)) (oc_catalogs c)"

definition check_principal :: "operator_config \<Rightarrow> principal_config \<Rightarrow> config_error + unit" where
  "check_principal c p =
     bindE (guardE
       (list_all (\<lambda>a. a \<in> static_aliases c \<or> catalog_alias c a) (pp_allowed_presets p))
       (PrincipalUnknownPreset (pp_name p))) (\<lambda>_.
     bindE (guardE
       (list_all (\<lambda>g. g \<in> set (map cs_name (oc_catalogs c)))
          (pp_allowed_catalogs p @ pp_executable_catalogs p))
       (PrincipalUnknownCatalog (pp_name p))) (\<lambda>_.
     guardE (list_all (\<lambda>w. w \<in> set (oc_workspaces c)) (pp_allowed_workspaces p))
       (PrincipalUnknownWorkspace (pp_name p))))"

definition cross_references :: "operator_config \<Rightarrow> config_error + operator_config" where
  "cross_references c =
     (let runners = map rc_instance_id (oc_runners c) in
      bindE (guardE (distinct runners) DuplicateRunner) (\<lambda>_.
      bindE (guardE (distinct (map pc_alias (oc_presets c))) DuplicatePreset) (\<lambda>_.
      bindE (guardE (distinct (oc_workspaces c)) DuplicateWorkspace) (\<lambda>_.
      bindE (guardE (distinct (map pp_name (oc_principals c))) DuplicatePrincipal) (\<lambda>_.
      bindE (forE (\<lambda>p. guardE (pc_runner_ref p \<in> set runners)
                         (PresetUnknownRunner (pc_alias p))) (oc_presets c)) (\<lambda>_.
      bindE (guardE (distinct (map cs_name (oc_catalogs c))) DuplicateCatalog) (\<lambda>_.
      bindE (forE (\<lambda>s. guardE (cs_runner_ref s \<in> set runners)
                         (CatalogUnknownRunner (cs_name s))) (oc_catalogs c)) (\<lambda>_.
      bindE (guardE (\<not> some_overlap (enabled_prefixes c)) PrefixesOverlap) (\<lambda>_.
      bindE (forE (check_principal c) (oc_principals c)) (\<lambda>_. Inr c))))))))))"

definition operator_config_ok :: "operator_config \<Rightarrow> bool" where
  "operator_config_ok c \<longleftrightarrow>
     oc_schema_version c = 1 \<and> oc_data_dir c \<noteq> '''' \<and> api_settings_ok (oc_api c) \<and>
     oc_runners c \<noteq> [] \<and> list_all runner_config_ok (oc_runners c) \<and>
     oc_presets c \<noteq> [] \<and> list_all preset_config_ok (oc_presets c) \<and>
     list_all catalog_source_ok (oc_catalogs c) \<and>
     oc_workspaces c \<noteq> [] \<and> list_all id_full (oc_workspaces c) \<and>
     oc_principals c \<noteq> [] \<and> list_all principal_config_ok (oc_principals c) \<and>
     isOk (cross_references c)"

section \<open>What an accepted configuration guarantees\<close>

lemma cross_references_okD:
  assumes "isOk (cross_references c)"
  shows cross_runners: "distinct (map rc_instance_id (oc_runners c))"
    and cross_presets: "distinct (map pc_alias (oc_presets c))"
    and cross_workspaces: "distinct (oc_workspaces c)"
    and cross_principals: "distinct (map pp_name (oc_principals c))"
    and cross_preset_runner: "\<And>p. p \<in> set (oc_presets c) \<Longrightarrow>
           pc_runner_ref p \<in> rc_instance_id ` set (oc_runners c)"
    and cross_catalogs: "distinct (map cs_name (oc_catalogs c))"
    and cross_catalog_runner: "\<And>s. s \<in> set (oc_catalogs c) \<Longrightarrow>
           cs_runner_ref s \<in> rc_instance_id ` set (oc_runners c)"
    and cross_prefixes: "\<not> some_overlap (enabled_prefixes c)"
    and cross_principal: "\<And>p. p \<in> set (oc_principals c) \<Longrightarrow> check_principal c p = Inr ()"
proof -
  from assms obtain c' where ok: "cross_references c = Inr c'"
    by (auto simp: isOk_iff)
  note facts = ok [unfolded cross_references_def Let_def bindE_eq_Inr guardE_eq_Inr forE_ok]
  show "distinct (map rc_instance_id (oc_runners c))" "distinct (map pc_alias (oc_presets c))"
    "distinct (oc_workspaces c)" "distinct (map pp_name (oc_principals c))"
    "distinct (map cs_name (oc_catalogs c))" "\<not> some_overlap (enabled_prefixes c)"
    using facts by blast+
  show "\<And>p. p \<in> set (oc_presets c) \<Longrightarrow> pc_runner_ref p \<in> rc_instance_id ` set (oc_runners c)"
    "\<And>s. s \<in> set (oc_catalogs c) \<Longrightarrow> cs_runner_ref s \<in> rc_instance_id ` set (oc_runners c)"
    "\<And>p. p \<in> set (oc_principals c) \<Longrightarrow> check_principal c p = Inr ()"
    using facts unfolding set_map by blast+
qed

lemma runner_map_defined:
  assumes "isOk (cross_references c)" and "i \<in> rc_instance_id ` set (oc_runners c)"
  shows "\<exists>r. runner_map c i = Some r \<and> r \<in> set (oc_runners c) \<and> rc_instance_id r = i"
  using assms(2) cross_runners [OF assms(1)]
  by (auto simp: runner_map_def intro: dict_by_unique)

lemma runner_map_SomeD:
  "runner_map c i = Some r \<Longrightarrow> r \<in> set (oc_runners c) \<and> rc_instance_id r = i"
  unfolding runner_map_def by (rule dict_by_SomeD)

lemma preset_map_SomeD:
  "preset_map c a = Some p \<Longrightarrow> p \<in> set (oc_presets c) \<and> pc_alias p = a"
  unfolding preset_map_def by (rule dict_by_SomeD)

lemma preset_map_unique:
  "isOk (cross_references c) \<Longrightarrow> p \<in> set (oc_presets c) \<Longrightarrow> preset_map c (pc_alias p) = Some p"
  by (simp add: preset_map_def dict_by_unique cross_presets)

lemma no_overlap_unique:
  assumes "\<not> some_overlap (map f xs)"
    and "x \<in> set xs" "y \<in> set xs" "starts_with a (f x)" "starts_with a (f y)"
  shows "x = y"
  using assms
proof (induction xs)
  case Nil
  then show ?case by simp
next
  case (Cons z zs)
  then have clash: "\<And>w. w \<in> set zs \<Longrightarrow> \<not> prefixes_overlap (f z) (f w)"
    by (auto simp: list_ex_iff)
  have "prefixes_overlap (f x) (f y)" "prefixes_overlap (f y) (f x)"
    using Cons.prems starts_with_common by (auto simp: prefixes_overlap_def)
  with Cons clash show ?case
    by auto
qed

text \<open>
  At most one enabled source can own an alias, so the loop over the sources in
  \<^verbatim>\<open>_resolve_dynamic\<close> has at most one candidate, whatever the order of the configuration.
\<close>

lemma enabled_source_unique:
  assumes "isOk (cross_references c)"
    and "s \<in> set (oc_catalogs c)" "cs_enabled s" "starts_with a (cs_alias_prefix s)"
    and "t \<in> set (oc_catalogs c)" "cs_enabled t" "starts_with a (cs_alias_prefix t)"
  shows "s = t"
  using no_overlap_unique [of cs_alias_prefix "filter cs_enabled (oc_catalogs c)" s t a]
    cross_prefixes [OF assms(1)] assms(2-)
  by (auto simp: enabled_prefixes_def)

lemma operator_config_okD:
  assumes "operator_config_ok c"
  shows "isOk (cross_references c)"
    and "\<And>r. r \<in> set (oc_runners c) \<Longrightarrow> runner_config_ok r"
    and "\<And>p. p \<in> set (oc_presets c) \<Longrightarrow> preset_config_ok p"
    and "\<And>s. s \<in> set (oc_catalogs c) \<Longrightarrow> catalog_source_ok s"
    and "\<And>p. p \<in> set (oc_principals c) \<Longrightarrow> principal_config_ok p"
    and "api_settings_ok (oc_api c)"
  using assms by (auto simp: operator_config_ok_def list_all_iff)

end
