(* ===== verification/Registry.thy ===== *)
theory Registry
  imports OpConfig "HOL-Library.Char_ord" "HOL-Library.List_Lexorder"
begin

text \<open>
  The runner registry (\<^verbatim>\<open>packages/core/src/cli_provider_core/registry.py\<close>): what the API
  believes about each configured Runner and preset, how a verification pass over the Runner RPCs
  changes it, and the reads the catalog, the controller and the readiness endpoint make of it.
  A pass is a function of the replies of each Runner's session; an exception inside a session
  call is a reply of its own.
\<close>

section \<open>Replies of a session\<close>

text \<open>
  A call raises (with the name of the exception type), answers with a payload that does not have
  the shape of the schema, or answers with a value whose validators still have to pass.
\<close>

datatype 'a reply = Raised string | Malformed | Reply 'a

record runner_runtime =
  rn_max_parallel_runs :: nat
  rn_max_queue :: nat
  rn_cancel_cleanup_seconds :: rat

definition runtime_valid :: "runner_runtime \<Rightarrow> bool" where
  "runtime_valid r \<longleftrightarrow>
     1 \<le> rn_max_parallel_runs r \<and> 1 \<le> rn_max_queue r \<and> 0 < rn_cancel_cleanup_seconds r"

definition fallback_cancel_cleanup_seconds :: rat where
  "fallback_cancel_cleanup_seconds = 10"

text \<open>
  What one Runner answers during one pass, and the clock readings the pass takes for it. A
  session without a callable \<^verbatim>\<open>runtime\<close> has \<open>None\<close> there.
\<close>

record observation =
  ob_manifest :: "driver_manifest reply"
  ob_probe :: "probe_report reply"
  ob_models :: "model_descriptor reply list reply"
  ob_runtime :: "runner_runtime reply option"
  ob_wall :: nat
  ob_mono :: rat
  ob_finished :: rat

section \<open>Health records\<close>

datatype health_detail =
    NotChecked | DisabledByConfig
  | SchemaFailure string
  | DriverIdMismatch string string
  | DriverVersionMismatch string string
  | SdkVersionMismatch string
  | ProbeNotOk
  | DuplicateModel string
  | RuntimeQueryFailed | RuntimeSchemaFailure
  | RunnerVerified
  | VerificationRaised string

record runner_health =
  rh_instance_id :: string
  rh_enabled :: bool
  rh_ok :: bool
  rh_detail :: health_detail
  rh_driver_id :: "string option"
  rh_driver_version :: "string option"
  rh_models :: "string list"
  rh_descriptors :: "string \<rightharpoonup> model_descriptor"
  rh_capabilities :: "capabilities option"
  rh_synthetic :: bool
  rh_probe :: "probe_report option"
  rh_manifest :: "driver_manifest option"
  rh_max_parallel_runs :: nat
  rh_max_queue :: nat
  rh_cleanup_seconds :: rat
  rh_observed_at :: "nat option"
  rh_observed_mono :: "rat option"

datatype preset_detail =
    PNotChecked | PDisabledByConfig
  | PRunnerNotVerified string
  | PModelNotPresent string
  | PModelFailed string string
  | PModelNotPassed string verification_status string
  | PNotAdmitted string
  | PNoStreaming | PNoRoles
  | PBindingVerified | PSyntheticOptIn

record preset_capabilities =
  pk_base :: "capabilities option"
  pk_transports :: "transport_kind list"
  pk_task_policy :: string
  pk_synthetic :: bool
  pk_real_verification :: bool

record preset_health =
  ph_alias :: string
  ph_runner_ref :: string
  ph_model_id :: string
  ph_enabled :: bool
  ph_verified :: bool
  ph_detail :: preset_detail
  ph_verification :: "verification option"
  ph_capabilities :: "preset_capabilities option"
  ph_synthetic :: bool
  ph_real_verification :: bool

record registry =
  rg_runners :: "string \<rightharpoonup> runner_health"
  rg_presets :: "string \<rightharpoonup> preset_health"
  rg_fresh_marks :: "string \<rightharpoonup> rat"

definition initial_runner_health :: "runner_config \<Rightarrow> runner_health" where
  "initial_runner_health r =
     \<lparr>rh_instance_id = rc_instance_id r, rh_enabled = rc_enabled r, rh_ok = False,
      rh_detail = NotChecked, rh_driver_id = None, rh_driver_version = None, rh_models = [],
      rh_descriptors = Map.empty, rh_capabilities = None, rh_synthetic = False, rh_probe = None,
      rh_manifest = None, rh_max_parallel_runs = 1, rh_max_queue = 1,
      rh_cleanup_seconds = fallback_cancel_cleanup_seconds, rh_observed_at = None,
      rh_observed_mono = None\<rparr>"

definition initial_preset_health :: "preset_config \<Rightarrow> preset_health" where
  "initial_preset_health p =
     \<lparr>ph_alias = pc_alias p, ph_runner_ref = pc_runner_ref p, ph_model_id = pc_model_id p,
      ph_enabled = pc_enabled p, ph_verified = False, ph_detail = PNotChecked,
      ph_verification = None, ph_capabilities = None, ph_synthetic = False,
      ph_real_verification = False\<rparr>"

definition initial_registry :: "operator_config \<Rightarrow> registry" where
  "initial_registry c =
     \<lparr>rg_runners = (\<lambda>i. map_option initial_runner_health (runner_map c i)),
      rg_presets = (\<lambda>a. map_option initial_preset_health (preset_map c a)),
      rg_fresh_marks = Map.empty\<rparr>"

section \<open>Verifying a runner\<close>

definition runner_fails :: "health_detail \<Rightarrow> runner_health \<Rightarrow> runner_health" where
  "runner_fails d h = h\<lparr>rh_ok := False, rh_detail := d\<rparr>"

text \<open>\<^verbatim>\<open>_validated\<close>: the value, or the failure of the pass.\<close>

fun validated :: "('a \<Rightarrow> bool) \<Rightarrow> string \<Rightarrow> 'a reply \<Rightarrow> health_detail + 'a" where
  "validated ok label (Raised e) = Inl (VerificationRaised e)"
| "validated ok label Malformed = Inl (SchemaFailure label)"
| "validated ok label (Reply x) = (if ok x then Inr x else Inl (SchemaFailure label))"

text \<open>The loop over the raw models; \<open>seen\<close> is the dictionary built so far.\<close>

fun collect_descriptors ::
  "(string \<rightharpoonup> model_descriptor) \<Rightarrow> model_descriptor reply list \<Rightarrow>
     health_detail + (string \<rightharpoonup> model_descriptor)" where
  "collect_descriptors seen [] = Inr seen"
| "collect_descriptors seen (raw # raws) =
     bindE (validated descriptor_valid ''model descriptor'' raw) (\<lambda>d.
       if seen (md_model_id d) \<noteq> None then Inl (DuplicateModel (md_model_id d))
       else collect_descriptors (seen(md_model_id d \<mapsto> d)) raws)"

fun discovered :: "model_descriptor reply list reply \<Rightarrow> health_detail + model_descriptor reply list"
  where
  "discovered (Raised e) = Inl (VerificationRaised e)"
| "discovered Malformed = Inl (VerificationRaised ''UpstreamProtocolError'')"
| "discovered (Reply raws) = Inr raws"

text \<open>\<^verbatim>\<open>_runtime_capacity\<close>: never guessed above serial.\<close>

fun runtime_capacity :: "runner_runtime reply option \<Rightarrow> health_detail + runner_runtime" where
  "runtime_capacity None =
     Inr \<lparr>rn_max_parallel_runs = 1, rn_max_queue = 1,
          rn_cancel_cleanup_seconds = fallback_cancel_cleanup_seconds\<rparr>"
| "runtime_capacity (Some (Raised e)) = Inl RuntimeQueryFailed"
| "runtime_capacity (Some Malformed) = Inl RuntimeSchemaFailure"
| "runtime_capacity (Some (Reply r)) =
     (if runtime_valid r then Inr r else Inl RuntimeSchemaFailure)"

definition sorted_keys :: "model_descriptor reply list \<Rightarrow> string list" where
  "sorted_keys raws =
     sort (concat (map (\<lambda>r. case r of Reply d \<Rightarrow> [md_model_id d] | _ \<Rightarrow> []) raws))"

definition verification_pass :: "runner_config \<Rightarrow> observation \<Rightarrow> runner_health \<Rightarrow> health_detail + runner_health"
  where
  "verification_pass r ob h =
     bindE (validated manifest_valid ''manifest'' (ob_manifest ob)) (\<lambda>m.
     bindE (guardE (mf_driver_id m = rc_driver_id r)
       (DriverIdMismatch (mf_driver_id m) (rc_driver_id r))) (\<lambda>_.
     bindE (guardE (mf_version m = rc_driver_version r)
       (DriverVersionMismatch (mf_version m) (rc_driver_version r))) (\<lambda>_.
     bindE (guardE (mf_sdk_version m = sdk_version) (SdkVersionMismatch (mf_sdk_version m))) (\<lambda>_.
     bindE (validated probe_valid ''probe'' (ob_probe ob)) (\<lambda>p.
     bindE (guardE (pr_ok p) ProbeNotOk) (\<lambda>_.
     bindE (discovered (ob_models ob)) (\<lambda>raws.
     bindE (collect_descriptors Map.empty raws) (\<lambda>ds.
     bindE (runtime_capacity (ob_runtime ob)) (\<lambda>rt.
       Inr (h\<lparr>rh_driver_id := Some (mf_driver_id m), rh_driver_version := Some (mf_version m),
              rh_manifest := Some m, rh_probe := Some p,
              rh_capabilities := Some (pr_capabilities p), rh_synthetic := mf_synthetic m,
              rh_descriptors := ds, rh_models := sorted_keys raws,
              rh_max_parallel_runs := rn_max_parallel_runs rt,
              rh_max_queue := rn_max_queue rt,
              rh_cleanup_seconds := rn_cancel_cleanup_seconds rt,
              rh_observed_at := Some (ob_wall ob), rh_observed_mono := Some (ob_mono ob),
              rh_ok := True, rh_detail := RunnerVerified\<rparr>))))))))))"

text \<open>A failed pass keeps the previous snapshot and only drops \<^verbatim>\<open>ok\<close>.\<close>

definition verify_runner :: "runner_config \<Rightarrow> observation \<Rightarrow> runner_health \<Rightarrow> runner_health" where
  "verify_runner r ob h =
     (case verification_pass r ob h of Inl d \<Rightarrow> runner_fails d h | Inr h' \<Rightarrow> h')"

section \<open>Verifying a preset\<close>

definition preset_fails :: "preset_detail \<Rightarrow> preset_health \<Rightarrow> preset_health" where
  "preset_fails d h = h\<lparr>ph_verified := False, ph_detail := d\<rparr>"

definition streaming_none :: "capabilities option \<Rightarrow> bool" where
  "streaming_none k = (case k of None \<Rightarrow> False | Some k \<Rightarrow> cap_streaming k = StreamNone)"

definition roles_unsupported :: "capabilities option \<Rightarrow> bool" where
  "roles_unsupported k = (case k of None \<Rightarrow> False | Some k \<Rightarrow> cap_roles k = RoleUnsupported)"

definition manifest_transports :: "driver_manifest option \<Rightarrow> transport_kind list" where
  "manifest_transports m = (case m of None \<Rightarrow> [] | Some m \<Rightarrow> mf_transports m)"

definition verify_preset :: "preset_config \<Rightarrow> runner_health option \<Rightarrow> preset_health \<Rightarrow> preset_health"
  where
  "verify_preset p runner h0 =
     (let h = h0\<lparr>ph_enabled := pc_enabled p\<rparr> in
      if \<not> pc_enabled p then preset_fails PDisabledByConfig h
      else (case runner of
        None \<Rightarrow> preset_fails (PRunnerNotVerified (pc_runner_ref p)) h
      | Some rh \<Rightarrow>
        if \<not> rh_ok rh then preset_fails (PRunnerNotVerified (pc_runner_ref p)) h
        else (case rh_descriptors rh (pc_model_id p) of
          None \<Rightarrow> preset_fails (PModelNotPresent (pc_model_id p)) h
        | Some d \<Rightarrow>
          let v = md_verification d; passed = (vf_status v = Passed);
              h = h\<lparr>ph_verification := Some v, ph_synthetic := rh_synthetic rh,
                    ph_real_verification := passed \<and> \<not> rh_synthetic rh\<rparr>
          in if vf_status v = VFailed
             then preset_fails (PModelFailed (pc_model_id p) (vf_source v)) h
             else if \<not> passed \<and> \<not> (rh_synthetic rh \<and> pc_allow_synthetic p)
             then preset_fails (PModelNotPassed (pc_model_id p) (vf_status v) (vf_source v)) h
             else if \<not> md_executable d then preset_fails (PNotAdmitted (pc_model_id p)) h
             else if streaming_none (rh_capabilities rh) then preset_fails PNoStreaming h
             else if roles_unsupported (rh_capabilities rh) then preset_fails PNoRoles h
             else h\<lparr>ph_capabilities := Some
                     \<lparr>pk_base = rh_capabilities rh,
                      pk_transports = manifest_transports (rh_manifest rh),
                      pk_task_policy = pc_task_policy p, pk_synthetic = rh_synthetic rh,
                      pk_real_verification = ph_real_verification h\<rparr>,
                    ph_verified := True,
                    ph_detail := (if ph_real_verification h then PBindingVerified
                                  else PSyntheticOptIn)\<rparr>)))"

section \<open>A verification pass\<close>

definition in_scope :: "string set option \<Rightarrow> string \<Rightarrow> bool" where
  "in_scope refs i = (case refs of None \<Rightarrow> True | Some is \<Rightarrow> i \<in> is)"

definition refresh_runner ::
  "string set option \<Rightarrow> (string \<Rightarrow> observation) \<Rightarrow> runner_config \<Rightarrow> registry \<Rightarrow> registry" where
  "refresh_runner refs obs r g =
     (let i = rc_instance_id r in
      if \<not> in_scope refs i then g
      else (case rg_runners g i of
        None \<Rightarrow> g
      | Some h \<Rightarrow>
        g\<lparr>rg_runners := (rg_runners g)(i \<mapsto>
             (if \<not> rc_enabled r then runner_fails DisabledByConfig h
              else verify_runner r (obs i) h)),
          rg_fresh_marks := (rg_fresh_marks g)(i \<mapsto> ob_finished (obs i))\<rparr>))"

definition refresh_preset :: "string set option \<Rightarrow> preset_config \<Rightarrow> registry \<Rightarrow> registry" where
  "refresh_preset refs p g =
     (if \<not> in_scope refs (pc_runner_ref p) then g
      else (case rg_presets g (pc_alias p) of
        None \<Rightarrow> g
      | Some h \<Rightarrow>
        g\<lparr>rg_presets := (rg_presets g)(pc_alias p \<mapsto>
             verify_preset p (rg_runners g (pc_runner_ref p)) h)\<rparr>))"

definition refresh ::
  "operator_config \<Rightarrow> string set option \<Rightarrow> (string \<Rightarrow> observation) \<Rightarrow> registry \<Rightarrow> registry" where
  "refresh c refs obs g =
     fold (refresh_preset refs) (oc_presets c) (fold (refresh_runner refs obs) (oc_runners c) g)"

section \<open>Freshness\<close>

definition fresh_within_ttl :: "operator_config \<Rightarrow> rat \<Rightarrow> registry \<Rightarrow> string \<Rightarrow> bool" where
  "fresh_within_ttl c now g i =
     (case rg_fresh_marks g i of None \<Rightarrow> False
      | Some m \<Rightarrow> now - m < api_catalog_refresh (oc_api c))"

definition refresh_scope :: "operator_config \<Rightarrow> string set option \<Rightarrow> string set" where
  "refresh_scope c refs =
     (case refs of None \<Rightarrow> rc_instance_id ` set (oc_runners c) | Some is \<Rightarrow> is)"

text \<open>
  \<^verbatim>\<open>ensure_fresh\<close> reads the marks twice: on entry (\<open>now0\<close>, \<open>g0\<close>) and again once it holds the
  guard (\<open>now1\<close>, \<open>g1\<close>), when another caller's pass may have run in between. The result is the
  set of runners it contacts, if any.
\<close>

definition refresh_targets ::
  "operator_config \<Rightarrow> string set option \<Rightarrow> bool \<Rightarrow> rat \<Rightarrow> registry \<Rightarrow> rat \<Rightarrow> registry \<Rightarrow>
     string set option" where
  "refresh_targets c refs force now0 g0 now1 g1 =
     (let is = refresh_scope c refs in
      if \<not> force \<and> is \<noteq> {} \<and> (\<forall>i\<in>is. fresh_within_ttl c now0 g0 i) then None
      else (let targets = (if force then is else {i \<in> is. \<not> fresh_within_ttl c now1 g1 i})
            in if targets = {} then None else Some targets))"

definition ensure_fresh ::
  "operator_config \<Rightarrow> string set option \<Rightarrow> bool \<Rightarrow> rat \<Rightarrow> registry \<Rightarrow> rat \<Rightarrow> (string \<Rightarrow> observation) \<Rightarrow>
     registry \<Rightarrow> registry" where
  "ensure_fresh c refs force now0 g0 now1 obs g1 =
     (case refresh_targets c refs force now0 g0 now1 g1 of
        None \<Rightarrow> g1
      | Some targets \<Rightarrow> refresh c (Some targets) obs g1)"

section \<open>Reads\<close>

definition runner_available :: "registry \<Rightarrow> string \<Rightarrow> bool" where
  "runner_available g i =
     (case rg_runners g i of None \<Rightarrow> False | Some h \<Rightarrow> rh_enabled h \<and> rh_ok h)"

definition runner_capacity :: "registry \<Rightarrow> string \<Rightarrow> nat" where
  "runner_capacity g i =
     (case rg_runners g i of None \<Rightarrow> 1
      | Some h \<Rightarrow> if \<not> rh_ok h then 1 else max 1 (rh_max_parallel_runs h))"

definition runner_cleanup_seconds :: "registry \<Rightarrow> string \<Rightarrow> rat" where
  "runner_cleanup_seconds g i =
     (case rg_runners g i of None \<Rightarrow> fallback_cancel_cleanup_seconds
      | Some h \<Rightarrow> if \<not> rh_ok h then fallback_cancel_cleanup_seconds else rh_cleanup_seconds h)"

definition runner_synthetic :: "registry \<Rightarrow> string \<Rightarrow> bool" where
  "runner_synthetic g i =
     (case rg_runners g i of None \<Rightarrow> True
      | Some h \<Rightarrow> if \<not> rh_ok h then True else rh_synthetic h)"

definition preset_available :: "registry \<Rightarrow> string \<Rightarrow> bool" where
  "preset_available g a =
     (case rg_presets g a of None \<Rightarrow> False
      | Some h \<Rightarrow> if \<not> ph_enabled h \<or> \<not> ph_verified h then False
                   else runner_available g (ph_runner_ref h))"

definition preset_capabilities_of :: "registry \<Rightarrow> string \<Rightarrow> preset_capabilities option" where
  "preset_capabilities_of g a =
     (case rg_presets g a of None \<Rightarrow> None | Some h \<Rightarrow> ph_capabilities h)"

definition enabled_preset_aliases :: "operator_config \<Rightarrow> registry \<Rightarrow> string list" where
  "enabled_preset_aliases c g =
     filter (\<lambda>a. case rg_presets g a of None \<Rightarrow> False | Some h \<Rightarrow> ph_enabled h \<and> ph_verified h)
       (map pc_alias (oc_presets c))"

definition catalog_stale :: "operator_config \<Rightarrow> rat \<Rightarrow> registry \<Rightarrow> string \<Rightarrow> bool" where
  "catalog_stale c now g i =
     (case rg_runners g i of None \<Rightarrow> True
      | Some h \<Rightarrow> (case rh_observed_mono h of None \<Rightarrow> True
                   | Some t \<Rightarrow> now - t > api_catalog_refresh (oc_api c)))"

definition model_descriptor_of :: "registry \<Rightarrow> string \<Rightarrow> string \<Rightarrow> model_descriptor option" where
  "model_descriptor_of g i m =
     (case rg_runners g i of None \<Rightarrow> None | Some h \<Rightarrow> rh_descriptors h m)"

definition ready_status :: "operator_config \<Rightarrow> registry \<Rightarrow> bool" where
  "ready_status c g \<longleftrightarrow>
     list_all (\<lambda>r. case rg_runners g (rc_instance_id r) of None \<Rightarrow> True
                    | Some h \<Rightarrow> rh_enabled h \<longrightarrow> rh_ok h) (oc_runners c) \<and>
     list_all (\<lambda>p. case rg_presets g (pc_alias p) of None \<Rightarrow> True
                    | Some h \<Rightarrow> ph_enabled h \<longrightarrow> ph_verified h) (oc_presets c)"

end
