(* ===== verification/Ledger.thy ===== *)
theory Ledger
  imports Prelude
begin

text \<open>
  The contracts both SQLite ledgers of the program offer their clients. A ledger is a list of
  rows (in rowid order) with a partial unique index: among the rows a predicate selects, no two
  share a key. The core store's index of live attempts per logical task and the dispatch
  ledger's indexes of live reservations per card and per workspace are all of this form.
\<close>

section \<open>A partial unique index\<close>

definition index_ok :: "('r \<Rightarrow> bool) \<Rightarrow> ('r \<Rightarrow> 'k) \<Rightarrow> 'r list \<Rightarrow> bool" where
  "index_ok live key rs \<longleftrightarrow> distinct (map key (filter live rs))"

lemma index_ok_Nil [simp]: "index_ok live key []"
  by (simp add: index_ok_def)

lemma index_ok_snoc:
  "index_ok live key (rs @ [r]) \<longleftrightarrow>
     index_ok live key rs \<and> (live r \<longrightarrow> (\<forall>x\<in>set rs. live x \<longrightarrow> key x \<noteq> key r))"
  unfolding index_ok_def by (auto simp: image_iff)

lemma index_ok_unique:
  assumes "index_ok live key rs" "x \<in> set rs" "y \<in> set rs" "live x" "live y" "key x = key y"
  shows "x = y"
proof -
  have "inj_on key (set (filter live rs))"
    using assms(1) by (simp add: index_ok_def distinct_map)
  then show ?thesis
    by (rule inj_onD) (use assms in auto)
qed

text \<open>An update in place that creates no live row and moves no key keeps the index.\<close>

lemma index_ok_map_shrink:
  assumes "index_ok live key rs"
    and "\<And>r. r \<in> set rs \<Longrightarrow> live (f r) \<Longrightarrow> live r"
    and "\<And>r. r \<in> set rs \<Longrightarrow> key (f r) = key r"
  shows "index_ok live key (map f rs)"
  using assms
proof (induction rs)
  case Nil
  then show ?case by simp
next
  case (Cons r rs)
  then have IH: "index_ok live key (map f rs)"
    by (auto simp: index_ok_def split: if_splits)
  have "live (f r) \<Longrightarrow> x \<in> set rs \<Longrightarrow> live (f x) \<Longrightarrow> key (f x) \<noteq> key (f r)" for x
    using Cons.prems(1) Cons.prems(2) [of r] Cons.prems(2) [of x] Cons.prems(3) [of r]
      Cons.prems(3) [of x]
    by (auto simp: index_ok_def image_iff)
  with IH show ?case
    unfolding index_ok_def by (auto simp: image_iff) metis
qed

text \<open>
  Two indexes over the same key: where the rows of the wider one are unique, an update in place
  whose live rows were rows of the wider index before keeps the narrower one.
\<close>

lemma index_ok_map_wider:
  assumes "index_ok wide key rs"
    and "\<And>r. r \<in> set rs \<Longrightarrow> live (f r) \<Longrightarrow> wide r"
    and "\<And>r. key (f r) = key r"
  shows "index_ok live key (map f rs)"
proof -
  have "index_ok (\<lambda>r. live (f r)) key rs"
    using assms(1,2)
  proof (induction rs)
    case Nil
    then show ?case by simp
  next
    case (Cons r rs)
    then show ?case
      by (auto simp: index_ok_def image_iff split: if_splits)
  qed
  then show ?thesis
    using assms(3) by (simp add: index_ok_def filter_map comp_def)
qed

section \<open>Ledgers that admit rows\<close>

text \<open>
  What a client may rely on: a row is admitted by appending it, and a live row is refused while
  another live row holds its key.
\<close>

locale exclusive_ledger =
  fixes rows :: "'s \<Rightarrow> 'r list"
    and live :: "'r \<Rightarrow> bool"
    and key :: "'r \<Rightarrow> 'k"
    and admit :: "'s \<Rightarrow> 'r \<Rightarrow> 's \<Rightarrow> bool"
  assumes admit_rows: "admit s r t \<Longrightarrow> rows t = rows s @ [r]"
    and admit_free: "admit s r t \<Longrightarrow> live r \<Longrightarrow> x \<in> set (rows s) \<Longrightarrow> live x \<Longrightarrow> key x \<noteq> key r"
begin

lemma admit_index: "admit s r t \<Longrightarrow> index_ok live key (rows s) \<Longrightarrow> index_ok live key (rows t)"
  by (auto simp: admit_rows index_ok_snoc dest: admit_free)

lemma held_key_refused:
  "x \<in> set (rows s) \<Longrightarrow> live x \<Longrightarrow> live r \<Longrightarrow> key r = key x \<Longrightarrow> \<not> admit s r t"
  by (auto dest: admit_free)

lemma one_holder:
  assumes "index_ok live key (rows s)" "x \<in> set (rows s)" "y \<in> set (rows s)"
    "live x" "live y" "key x = key y"
  shows "x = y"
  using assms by (rule index_ok_unique)

end

section \<open>Transition systems with an invariant\<close>

text \<open>
  The shared argument of every state machine of the development: an invariant that each step
  keeps holds after any sequence of steps.
\<close>

locale invariant_system =
  fixes step :: "'s \<Rightarrow> 's \<Rightarrow> bool"
    and inv :: "'s \<Rightarrow> bool"
  assumes step_inv: "step s t \<Longrightarrow> inv s \<Longrightarrow> inv t"
begin

lemma steps_inv: "step\<^sup>*\<^sup>* s t \<Longrightarrow> inv s \<Longrightarrow> inv t"
  by (induction rule: rtranclp_induct) (auto intro: step_inv)

end

end
