(* ===== verification/RegistryProps.thy ===== *)
theory RegistryProps
  imports Registry Ledger
begin

text \<open>
  What the verification passes establish: the snapshot of a verified runner satisfies the schema
  and the operator's expectations, a verified preset always rests on the current snapshot of its
  runner, and a scoped pass leaves every other runner and preset alone.
\<close>

section \<open>A pass as a pointwise update\<close>

definition refreshed_runner :: "runner_config \<Rightarrow> observation \<Rightarrow> runner_health \<Rightarrow> runner_health" where
  "refreshed_runner r ob h =
     (if \<not> rc_enabled r then runner_fails DisabledByConfig h else verify_runner r ob h)"

lemma refresh_runner_frames [simp]:
  "rg_presets (refresh_runner refs obs r g) = rg_presets g"
  by (simp add: refresh_runner_def Let_def split: option.splits)

lemma fold_runner_presets [simp]:
  "rg_presets (fold (refresh_runner refs obs) rs g) = rg_presets g"
  by (induction rs arbitrary: g) simp_all

lemma refresh_preset_frames [simp]:
  "rg_runners (refresh_preset refs p g) = rg_runners g"
  "rg_fresh_marks (refresh_preset refs p g) = rg_fresh_marks g"
  by (simp_all add: refresh_preset_def split: option.splits)

lemma fold_preset_frames [simp]:
  "rg_runners (fold (refresh_preset refs) ps g) = rg_runners g"
  "rg_fresh_marks (fold (refresh_preset refs) ps g) = rg_fresh_marks g"
  by (induction ps arbitrary: g) simp_all

lemma refresh_runner_at:
  "rg_runners (refresh_runner refs obs r g) i =
     (if i = rc_instance_id r \<and> in_scope refs i
      then map_option (refreshed_runner r (obs i)) (rg_runners g i) else rg_runners g i)"
  by (auto simp: refresh_runner_def refreshed_runner_def Let_def split: option.splits)

lemma fold_runner_at:
  assumes "distinct (map rc_instance_id rs)"
  shows "rg_runners (fold (refresh_runner refs obs) rs g) i =
     (case List.find (\<lambda>r. rc_instance_id r = i) rs of
        None \<Rightarrow> rg_runners g i
      | Some r \<Rightarrow> if in_scope refs i
                  then map_option (refreshed_runner r (obs i)) (rg_runners g i)
                  else rg_runners g i)"
  using assms
proof (induction rs arbitrary: g)
  case Nil
  then show ?case by simp
next
  case (Cons r rs)
  have none: "List.find (\<lambda>r'. rc_instance_id r' = i) rs = None" if "rc_instance_id r = i"
    using Cons.prems that by (auto simp: find_None_iff image_iff)
  from Cons show ?case
    by (auto simp: refresh_runner_at none split: option.splits)
qed

lemma find_unique:
  assumes "distinct (map key xs)" "x \<in> set xs"
  shows "List.find (\<lambda>y. key y = key x) xs = Some x"
  using assms by (induction xs) auto

lemma refresh_preset_at:
  "rg_presets (refresh_preset refs p g) a =
     (if a = pc_alias p \<and> in_scope refs (pc_runner_ref p)
      then map_option (verify_preset p (rg_runners g (pc_runner_ref p))) (rg_presets g a)
      else rg_presets g a)"
  by (simp add: refresh_preset_def split: option.splits)

lemma fold_preset_at:
  assumes "distinct (map pc_alias ps)"
  shows "rg_presets (fold (refresh_preset refs) ps g) a =
     (case List.find (\<lambda>p. pc_alias p = a) ps of
        None \<Rightarrow> rg_presets g a
      | Some p \<Rightarrow> if in_scope refs (pc_runner_ref p)
          then map_option (verify_preset p (rg_runners g (pc_runner_ref p))) (rg_presets g a)
          else rg_presets g a)"
  using assms
proof (induction ps arbitrary: g)
  case Nil
  then show ?case by simp
next
  case (Cons p ps)
  have none: "List.find (\<lambda>p'. pc_alias p' = a) ps = None" if "pc_alias p = a"
    using Cons.prems that by (auto simp: find_None_iff image_iff)
  from Cons show ?case
    by (auto simp: refresh_preset_at none split: option.splits)
qed

lemma refresh_runners:
  assumes "isOk (cross_references c)" "r \<in> set (oc_runners c)"
  shows "rg_runners (refresh c refs obs g) (rc_instance_id r) =
     (if in_scope refs (rc_instance_id r)
      then map_option (refreshed_runner r (obs (rc_instance_id r))) (rg_runners g (rc_instance_id r))
      else rg_runners g (rc_instance_id r))"
  using find_unique [OF cross_runners [OF assms(1)] assms(2)]
  by (simp add: refresh_def fold_runner_at [OF cross_runners [OF assms(1)]])

lemma refresh_presets:
  assumes "isOk (cross_references c)" "p \<in> set (oc_presets c)"
  shows "rg_presets (refresh c refs obs g) (pc_alias p) =
     (if in_scope refs (pc_runner_ref p)
      then map_option (verify_preset p (rg_runners (refresh c refs obs g) (pc_runner_ref p)))
             (rg_presets g (pc_alias p))
      else rg_presets g (pc_alias p))"
  using find_unique [OF cross_presets [OF assms(1)] assms(2)]
  by (simp add: refresh_def fold_preset_at [OF cross_presets [OF assms(1)]])

lemma refresh_runner_skipped:
  assumes "isOk (cross_references c)" "\<not> in_scope refs i"
  shows "rg_runners (refresh c refs obs g) i = rg_runners g i"
  using assms(2)
  by (simp add: refresh_def fold_runner_at [OF cross_runners [OF assms(1)]] split: option.splits)

lemma fold_runner_marks_skipped:
  "\<not> in_scope refs i \<Longrightarrow>
     rg_fresh_marks (fold (refresh_runner refs obs) rs g) i = rg_fresh_marks g i"
  by (induction rs arbitrary: g)
    (auto simp: refresh_runner_def Let_def split: option.splits)

section \<open>What a verified runner has shown\<close>

definition runner_evidence :: "runner_config \<Rightarrow> runner_health \<Rightarrow> bool" where
  "runner_evidence r h \<longleftrightarrow>
     rc_enabled r \<and>
     rh_driver_id h = Some (rc_driver_id r) \<and> rh_driver_version h = Some (rc_driver_version r) \<and>
     (\<exists>m. rh_manifest h = Some m \<and> manifest_valid m \<and> mf_driver_id m = rc_driver_id r \<and>
          mf_version m = rc_driver_version r \<and> mf_sdk_version m = sdk_version \<and>
          rh_synthetic h = mf_synthetic m) \<and>
     (\<exists>p. rh_probe h = Some p \<and> probe_valid p \<and> pr_ok p \<and>
          rh_capabilities h = Some (pr_capabilities p)) \<and>
     (\<forall>k d. rh_descriptors h k = Some d \<longrightarrow> md_model_id d = k \<and> descriptor_valid d) \<and>
     set (rh_models h) = dom (rh_descriptors h) \<and> sorted (rh_models h) \<and>
     1 \<le> rh_max_parallel_runs h \<and> 1 \<le> rh_max_queue h \<and> 0 < rh_cleanup_seconds h \<and>
     rh_observed_mono h \<noteq> None"

lemma validated_InrD: "validated ok label r = Inr x \<Longrightarrow> r = Reply x \<and> ok x"
  by (cases r) (auto split: if_splits)

lemma collect_descriptors_InrD:
  assumes "collect_descriptors seen raws = Inr ds"
  shows "dom ds = dom seen \<union> set (concat (map (\<lambda>r. case r of Reply d \<Rightarrow> [md_model_id d] | _ \<Rightarrow> []) raws))"
    and "\<And>k d. ds k = Some d \<Longrightarrow> seen k = Some d \<or> (md_model_id d = k \<and> descriptor_valid d \<and> Reply d \<in> set raws)"
    and "\<And>k d. seen k = Some d \<Longrightarrow> ds k = Some d"
  using assms
proof (induction raws arbitrary: seen)
  case (Cons raw raws)
  {
    case 1
    then obtain d where d: "raw = Reply d" "descriptor_valid d" "seen (md_model_id d) = None"
      "collect_descriptors (seen(md_model_id d \<mapsto> d)) raws = Inr ds"
      by (auto dest!: validated_InrD split: if_splits)
    from Cons.IH(1) [OF d(4)] d show ?case by auto
  next
    case (2 k e)
    then obtain d where d: "raw = Reply d" "descriptor_valid d" "seen (md_model_id d) = None"
      "collect_descriptors (seen(md_model_id d \<mapsto> d)) raws = Inr ds"
      by (auto dest!: validated_InrD split: if_splits)
    from Cons.IH(2) [OF 2(1) d(4)] d show ?case by (auto split: if_splits)
  next
    case (3 k e)
    then obtain d where d: "raw = Reply d" "descriptor_valid d" "seen (md_model_id d) = None"
      "collect_descriptors (seen(md_model_id d \<mapsto> d)) raws = Inr ds"
      by (auto dest!: validated_InrD split: if_splits)
    have "(seen(md_model_id d \<mapsto> d)) k = Some e"
      using 3(1) d(3) by auto
    from Cons.IH(3) [OF this d(4)] show ?case .
  }
qed auto

lemma runtime_capacity_InrD: "runtime_capacity q = Inr r \<Longrightarrow> runtime_valid r"
  by (cases q rule: runtime_capacity.cases)
    (auto simp: runtime_valid_def fallback_cancel_cleanup_seconds_def split: if_splits)

lemma verification_pass_evidence:
  assumes "verification_pass r ob h = Inr h'" "rc_enabled r"
  shows "runner_evidence r h'" and "rh_ok h'" and "rh_enabled h' = rh_enabled h"
    and "rh_detail h' = RunnerVerified"
proof -
  note parts = assms(1) [unfolded verification_pass_def bindE_eq_Inr guardE_eq_Inr]
  then obtain m p raws ds rt where
    m: "validated manifest_valid ''manifest'' (ob_manifest ob) = Inr m"
       "mf_driver_id m = rc_driver_id r" "mf_version m = rc_driver_version r"
       "mf_sdk_version m = sdk_version"
    and p: "validated probe_valid ''probe'' (ob_probe ob) = Inr p" "pr_ok p"
    and ds: "collect_descriptors Map.empty raws = Inr ds"
    and rt: "runtime_capacity (ob_runtime ob) = Inr rt"
    and h': "h' = h\<lparr>rh_driver_id := Some (mf_driver_id m), rh_driver_version := Some (mf_version m),
              rh_manifest := Some m, rh_probe := Some p,
              rh_capabilities := Some (pr_capabilities p), rh_synthetic := mf_synthetic m,
              rh_descriptors := ds, rh_models := sorted_keys raws,
              rh_max_parallel_runs := rn_max_parallel_runs rt,
              rh_max_queue := rn_max_queue rt,
              rh_cleanup_seconds := rn_cancel_cleanup_seconds rt,
              rh_observed_at := Some (ob_wall ob), rh_observed_mono := Some (ob_mono ob),
              rh_ok := True, rh_detail := RunnerVerified\<rparr>"
    by auto
  from runtime_capacity_InrD [OF rt] have rtv: "runtime_valid rt" .
  from collect_descriptors_InrD(1,2) [OF ds]
  have dsv: "dom ds = set (sorted_keys raws)"
    "\<forall>k d. ds k = Some d \<longrightarrow> md_model_id d = k \<and> descriptor_valid d"
    unfolding sorted_keys_def by auto
  show "runner_evidence r h'"
    using validated_InrD [OF m(1)] m(2-) validated_InrD [OF p(1)] p(2) rtv dsv assms(2)
    by (simp add: runner_evidence_def h' runtime_valid_def sorted_keys_def)
  show "rh_ok h'" "rh_enabled h' = rh_enabled h" "rh_detail h' = RunnerVerified"
    by (simp_all add: h')
qed

lemma refreshed_runner_ok:
  assumes "rh_ok (refreshed_runner r ob h)"
  shows "runner_evidence r (refreshed_runner r ob h)"
  using assms verification_pass_evidence [of r ob h]
  by (auto simp: refreshed_runner_def verify_runner_def runner_fails_def split: if_splits sum.splits)

lemma refreshed_runner_enabled [simp]: "rh_enabled (refreshed_runner r ob h) = rh_enabled h"
  using verification_pass_evidence(3) [of r ob h]
  by (auto simp: refreshed_runner_def verify_runner_def runner_fails_def split: sum.splits)

section \<open>What a verified preset has shown\<close>

definition preset_evidence :: "preset_config \<Rightarrow> runner_health option \<Rightarrow> preset_health \<Rightarrow> bool" where
  "preset_evidence p runner h \<longleftrightarrow>
     pc_enabled p \<and>
     (\<exists>rh d. runner = Some rh \<and> rh_ok rh \<and> rh_descriptors rh (pc_model_id p) = Some d \<and>
        (vf_status (md_verification d) = Passed \<or>
         (vf_status (md_verification d) \<in> {NotRun, VUnknown} \<and> rh_synthetic rh \<and>
          pc_allow_synthetic p)) \<and>
        md_executable d \<and> \<not> streaming_none (rh_capabilities rh) \<and>
        \<not> roles_unsupported (rh_capabilities rh) \<and>
        ph_real_verification h =
          (vf_status (md_verification d) = Passed \<and> \<not> rh_synthetic rh))"

lemma verify_preset_sound:
  assumes "ph_verified (verify_preset p runner h)"
  shows "preset_evidence p runner (verify_preset p runner h)"
  using assms
  by (cases runner)
    (auto simp: verify_preset_def Let_def preset_fails_def preset_evidence_def
      split: if_splits option.splits, (metis verification_status.exhaust)+)

lemma verify_preset_complete:
  assumes "pc_enabled p" "runner = Some rh" "rh_ok rh"
    "rh_descriptors rh (pc_model_id p) = Some d"
    "vf_status (md_verification d) = Passed \<or>
      (vf_status (md_verification d) \<noteq> VFailed \<and> rh_synthetic rh \<and> pc_allow_synthetic p)"
    "md_executable d" "\<not> streaming_none (rh_capabilities rh)"
    "\<not> roles_unsupported (rh_capabilities rh)"
  shows "ph_verified (verify_preset p runner h)"
  using assms by (auto simp: verify_preset_def Let_def preset_fails_def)

lemma verify_preset_frames [simp]:
  "ph_alias (verify_preset p runner h) = ph_alias h"
  "ph_runner_ref (verify_preset p runner h) = ph_runner_ref h"
  "ph_model_id (verify_preset p runner h) = ph_model_id h"
  "ph_enabled (verify_preset p runner h) = pc_enabled p"
  by (simp_all add: verify_preset_def Let_def preset_fails_def split: option.splits)

section \<open>The invariant of the registry\<close>

definition runner_entry_ok :: "runner_config \<Rightarrow> runner_health option \<Rightarrow> bool" where
  "runner_entry_ok r e \<longleftrightarrow>
     (\<exists>h. e = Some h \<and> rh_enabled h = rc_enabled r \<and> (rh_ok h \<longrightarrow> runner_evidence r h))"

definition preset_entry_ok ::
  "preset_config \<Rightarrow> runner_health option \<Rightarrow> preset_health option \<Rightarrow> bool" where
  "preset_entry_ok p runner e \<longleftrightarrow>
     (\<exists>h. e = Some h \<and> ph_runner_ref h = pc_runner_ref p \<and> ph_model_id h = pc_model_id p \<and>
        (ph_verified h \<longrightarrow> preset_evidence p runner h))"

definition registry_ok :: "operator_config \<Rightarrow> registry \<Rightarrow> bool" where
  "registry_ok c g \<longleftrightarrow>
     isOk (cross_references c) \<and>
     (\<forall>r\<in>set (oc_runners c). runner_entry_ok r (rg_runners g (rc_instance_id r))) \<and>
     (\<forall>p\<in>set (oc_presets c).
        preset_entry_ok p (rg_runners g (pc_runner_ref p)) (rg_presets g (pc_alias p))) \<and>
     (\<forall>i. rg_runners g i \<noteq> None \<longrightarrow> i \<in> rc_instance_id ` set (oc_runners c)) \<and>
     (\<forall>a. rg_presets g a \<noteq> None \<longrightarrow> a \<in> static_aliases c)"

lemma runner_map_unique:
  "isOk (cross_references c) \<Longrightarrow> r \<in> set (oc_runners c) \<Longrightarrow> runner_map c (rc_instance_id r) = Some r"
  by (simp add: runner_map_def dict_by_unique cross_runners)

lemma initial_registry_ok:
  assumes "isOk (cross_references c)"
  shows "registry_ok c (initial_registry c)"
  using assms
  by (auto simp: registry_ok_def initial_registry_def runner_map_unique preset_map_unique
      runner_entry_ok_def preset_entry_ok_def initial_runner_health_def initial_preset_health_def
      static_aliases_def dest: runner_map_SomeD preset_map_SomeD)

lemma refresh_new_entries:
  "rg_runners (refresh c refs obs g) i \<noteq> None \<longleftrightarrow> rg_runners g i \<noteq> None"
  "rg_presets (refresh c refs obs g) a \<noteq> None \<longleftrightarrow> rg_presets g a \<noteq> None"
proof -
  have "rg_runners (fold (refresh_runner refs obs) rs g) i \<noteq> None \<longleftrightarrow> rg_runners g i \<noteq> None" for rs
    by (induction rs arbitrary: g) (auto simp: refresh_runner_at)
  then show "rg_runners (refresh c refs obs g) i \<noteq> None \<longleftrightarrow> rg_runners g i \<noteq> None"
    by (simp add: refresh_def)
  have "rg_presets (fold (refresh_preset refs) ps g) a \<noteq> None \<longleftrightarrow> rg_presets g a \<noteq> None" for ps g
    by (induction ps arbitrary: g) (auto simp: refresh_preset_at)
  then show "rg_presets (refresh c refs obs g) a \<noteq> None \<longleftrightarrow> rg_presets g a \<noteq> None"
    by (simp add: refresh_def)
qed

lemma registry_okD:
  assumes "registry_ok c g"
  shows "isOk (cross_references c)"
    and "\<And>r. r \<in> set (oc_runners c) \<Longrightarrow> runner_entry_ok r (rg_runners g (rc_instance_id r))"
    and "\<And>p. p \<in> set (oc_presets c) \<Longrightarrow>
      preset_entry_ok p (rg_runners g (pc_runner_ref p)) (rg_presets g (pc_alias p))"
    and "\<And>i. rg_runners g i \<noteq> None \<Longrightarrow> i \<in> rc_instance_id ` set (oc_runners c)"
    and "\<And>a. rg_presets g a \<noteq> None \<Longrightarrow> a \<in> static_aliases c"
  using assms unfolding registry_ok_def by blast+

lemma refresh_registry_ok [inv_preserved]:
  assumes ok: "registry_ok c g"
  shows "registry_ok c (refresh c refs obs g)"
proof -
  note cross = ok [unfolded registry_ok_def, THEN conjunct1]
  have "runner_entry_ok r (rg_runners (refresh c refs obs g) (rc_instance_id r))"
    if rin: "r \<in> set (oc_runners c)" for r
  proof -
    obtain h where h: "rg_runners g (rc_instance_id r) = Some h" "rh_enabled h = rc_enabled r"
      "rh_ok h \<longrightarrow> runner_evidence r h"
      using registry_okD(2) [OF ok rin] unfolding runner_entry_ok_def by blast
    show ?thesis
    proof (cases "in_scope refs (rc_instance_id r)")
      case True
      then show ?thesis
        using h refreshed_runner_ok [of r "obs (rc_instance_id r)" h]
        by (simp add: runner_entry_ok_def refresh_runners [OF cross rin])
    next
      case False
      then show ?thesis
        using h by (simp add: runner_entry_ok_def refresh_runners [OF cross rin])
    qed
  qed
  moreover have "preset_entry_ok p (rg_runners (refresh c refs obs g) (pc_runner_ref p))
      (rg_presets (refresh c refs obs g) (pc_alias p))" if p: "p \<in> set (oc_presets c)" for p
  proof -
    have old: "preset_entry_ok p (rg_runners g (pc_runner_ref p)) (rg_presets g (pc_alias p))"
      using ok p by (simp add: registry_ok_def)
    show ?thesis
    proof (cases "in_scope refs (pc_runner_ref p)")
      case True
      with old show ?thesis
        by (auto simp: preset_entry_ok_def refresh_presets [OF cross p] dest: verify_preset_sound)
    next
      case False
      with old show ?thesis
        by (simp add: refresh_presets [OF cross p] refresh_runner_skipped [OF cross False])
    qed
  qed
  ultimately show ?thesis
    using ok refresh_new_entries [of c refs obs g]
    unfolding registry_ok_def by blast
qed

lemma ensure_fresh_registry_ok [inv_preserved]:
  "registry_ok c g \<Longrightarrow> registry_ok c (ensure_fresh c refs force now0 g0 now1 obs g)"
  by (simp add: ensure_fresh_def refresh_registry_ok split: option.splits)

inductive registry_step :: "operator_config \<Rightarrow> registry \<Rightarrow> registry \<Rightarrow> bool" for c where
  pass: "registry_step c g (refresh c refs obs g)"
| request: "registry_step c g (ensure_fresh c refs force now0 g0 now1 obs g)"

inductive_cases registry_stepE: "registry_step c g h"

interpretation registry_passes: invariant_system "registry_step c" "registry_ok c"
  by unfold_locales
    (auto elim!: registry_stepE intro: refresh_registry_ok ensure_fresh_registry_ok)

lemma available_evidence:
  assumes "registry_ok c g" "preset_available g a"
  shows "\<exists>p rh h. preset_map c a = Some p \<and> rg_runners g (pc_runner_ref p) = Some rh \<and>
     rh_enabled rh \<and> rh_ok rh \<and> rg_presets g a = Some h \<and> preset_evidence p (Some rh) h"
proof -
  obtain h where h: "rg_presets g a = Some h" "ph_verified h" "runner_available g (ph_runner_ref h)"
    using assms(2) by (auto simp: preset_available_def split: option.splits if_splits)
  then have "a \<in> static_aliases c"
    using assms(1) by (auto simp: registry_ok_def)
  then obtain p where p: "p \<in> set (oc_presets c)" "pc_alias p = a"
    by (auto simp: static_aliases_def)
  have "preset_entry_ok p (rg_runners g (pc_runner_ref p)) (Some h)"
    using assms(1) p h(1) unfolding registry_ok_def by metis
  moreover have "preset_map c a = Some p"
    using assms(1) p by (auto simp: registry_ok_def intro: preset_map_unique)
  ultimately show ?thesis
    using h by (auto simp: preset_entry_ok_def runner_available_def split: option.splits)
qed

lemma verified_runner_evidence:
  assumes "registry_ok c g" "rg_runners g i = Some h" "rh_ok h"
  shows "\<exists>r. runner_map c i = Some r \<and> runner_evidence r h"
proof -
  obtain r where r: "r \<in> set (oc_runners c)" "rc_instance_id r = i"
    using registry_okD(4) [OF assms(1), of i] assms(2) by auto
  then have "runner_map c i = Some r"
    using runner_map_unique [OF registry_okD(1) [OF assms(1)]] by blast
  then show ?thesis
    using registry_okD(2) [OF assms(1) r(1)] r(2) assms(2,3) by (auto simp: runner_entry_ok_def)
qed

section \<open>Freshness\<close>

lemma refresh_targets_scope:
  "refresh_targets c refs force now0 g0 now1 g1 = Some targets \<Longrightarrow> targets \<subseteq> refresh_scope c refs"
  by (auto simp: refresh_targets_def Let_def split: if_splits)

lemma refresh_runner_mark_at:
  "rg_fresh_marks (refresh_runner refs obs r g) i =
     (if i = rc_instance_id r \<and> in_scope refs i \<and> rg_runners g i \<noteq> None
      then Some (ob_finished (obs i)) else rg_fresh_marks g i)"
  by (auto simp: refresh_runner_def Let_def split: option.splits)

lemma fold_runner_marks:
  assumes "\<And>r. r \<in> set rs \<Longrightarrow> rg_runners g (rc_instance_id r) \<noteq> None"
    "r \<in> set rs" "in_scope refs (rc_instance_id r)"
  shows "rg_fresh_marks (fold (refresh_runner refs obs) rs g) (rc_instance_id r) =
     Some (ob_finished (obs (rc_instance_id r)))"
  using assms
proof (induction rs arbitrary: g r)
  case Nil
  then show ?case by simp
next
  case (Cons q rs)
  have keep: "rg_fresh_marks (fold (refresh_runner refs obs) rs g') i = Some t"
    if "rg_fresh_marks g' i = Some t" "i \<notin> rc_instance_id ` set rs" for g' i t
    using that by (induction rs arbitrary: g') (auto simp: refresh_runner_mark_at)
  have dom: "rg_runners (refresh_runner refs obs q g) (rc_instance_id r) \<noteq> None"
    if "r \<in> set rs" for r
    using Cons.prems(1) that by (auto simp: refresh_runner_at)
  show ?case
  proof (cases "\<exists>q'\<in>set rs. rc_instance_id q' = rc_instance_id r")
    case True
    then obtain q' where q': "q' \<in> set rs" "rc_instance_id q' = rc_instance_id r" by blast
    have "rg_fresh_marks (fold (refresh_runner refs obs) rs (refresh_runner refs obs q g))
        (rc_instance_id q') = Some (ob_finished (obs (rc_instance_id q')))"
      by (rule Cons.IH) (use dom q' Cons.prems(3) in auto)
    then show ?thesis
      using q'(2) by simp
  next
    case False
    then have "rc_instance_id r = rc_instance_id q"
      using Cons.prems(2) by auto
    moreover have "rg_runners g (rc_instance_id q) \<noteq> None"
      using Cons.prems(1) by simp
    ultimately have "rg_fresh_marks (refresh_runner refs obs q g) (rc_instance_id r) =
        Some (ob_finished (obs (rc_instance_id r)))"
      using Cons.prems(3) by (simp add: refresh_runner_mark_at)
    moreover have "rc_instance_id r \<notin> rc_instance_id ` set rs"
      using False by force
    ultimately show ?thesis
      using keep by simp
  qed
qed

lemma refresh_marks:
  assumes "registry_ok c g" "r \<in> set (oc_runners c)" "in_scope refs (rc_instance_id r)"
  shows "rg_fresh_marks (refresh c refs obs g) (rc_instance_id r) =
     Some (ob_finished (obs (rc_instance_id r)))"
proof -
  have "rg_runners g (rc_instance_id q) \<noteq> None" if "q \<in> set (oc_runners c)" for q
    using assms(1) that by (auto simp: registry_ok_def runner_entry_ok_def)
  from fold_runner_marks [OF this assms(2,3)] show ?thesis
    by (simp add: refresh_def)
qed

end
