(* ===== verification/CoreStore.thy ===== *)
theory CoreStore
  imports OpConfig Ledger "HOL-Library.AList"
begin

text \<open>
  The SQLite store of the API (\<^verbatim>\<open>packages/core/src/cli_provider_core/store.py\<close> with the records
  of \<^verbatim>\<open>models.py\<close>). A table is a list of rows in rowid order (rows of \<^verbatim>\<open>attempts\<close>, \<^verbatim>\<open>events\<close>
  and \<^verbatim>\<open>artifacts\<close> are never deleted) or a keyed map; a statement that sqlite would refuse with
  \<^verbatim>\<open>IntegrityError\<close> is an \<open>Inl\<close> result that leaves the tables as they were. The value of the
  injected clock is an argument of the operations that read it. JSON columns hold the decoded
  value.
\<close>

section \<open>Statuses, outcomes and rows\<close>

datatype status =
    Reserved | Queued | Starting | Running | Cancelling
  | Completed | Failed | Cancelled | Unknown

datatype outcome =
    Succeeded | Partial | ProviderError | OutCancelled | OutUnknown | QueueTimedOut | Rejected

fun status_text :: "status \<Rightarrow> string" where
  "status_text Reserved = ''reserved''"
| "status_text Queued = ''queued''"
| "status_text Starting = ''starting''"
| "status_text Running = ''running''"
| "status_text Cancelling = ''cancelling''"
| "status_text Completed = ''completed''"
| "status_text Failed = ''failed''"
| "status_text Cancelled = ''cancelled''"
| "status_text Unknown = ''unknown''"

fun outcome_text :: "outcome \<Rightarrow> string" where
  "outcome_text Succeeded = ''succeeded''"
| "outcome_text Partial = ''partial''"
| "outcome_text ProviderError = ''provider_error''"
| "outcome_text OutCancelled = ''cancelled''"
| "outcome_text OutUnknown = ''unknown''"
| "outcome_text QueueTimedOut = ''queue_timeout''"
| "outcome_text Rejected = ''rejected''"

definition terminal_statuses :: "status list" where
  "terminal_statuses = [Completed, Failed, Cancelled, Unknown]"

definition active_statuses :: "status list" where
  "active_statuses = [Reserved, Queued, Starting, Running, Cancelling]"

definition lock_statuses :: "status list" where
  "lock_statuses = active_statuses @ [Unknown]"

abbreviation is_terminal :: "status \<Rightarrow> bool" where
  "is_terminal st \<equiv> st \<in> set terminal_statuses"

abbreviation is_active :: "status \<Rightarrow> bool" where
  "is_active st \<equiv> st \<in> set active_statuses"

abbreviation is_lock :: "status \<Rightarrow> bool" where
  "is_lock st \<equiv> st \<in> set lock_statuses"

lemmas status_sets = terminal_statuses_def active_statuses_def lock_statuses_def

text \<open>The model binding evidence of \<^verbatim>\<open>ModelBinding.evidence()\<close>, persisted verbatim.\<close>

record binding_evidence =
  be_alias :: string
  be_model_id :: string
  be_resolved_model :: string
  be_reasoning_effort :: "string option"
  be_effort_support :: "effort_support option"
  be_dynamic :: bool
  be_source :: "string option"

record attempt =
  at_run_id :: string
  at_principal :: string
  at_task_id :: string
  at_attempt_id :: string
  at_preset :: string
  at_driver_id :: string
  at_runner_instance :: string
  at_workspace_id :: string
  at_request_hash :: string
  at_status :: status
  at_outcome :: "outcome option"
  at_summary :: "string option"
  at_detail :: "string option"
  at_verification :: "verification option"
  at_usage :: "usage option"
  at_synthetic :: bool
  at_cached :: bool
  at_created_at :: nat
  at_updated_at :: nat
  at_started_at :: "nat option"
  at_finished_at :: "nat option"
  at_execution :: "execution_context option"
  at_model_binding :: "binding_evidence option"

definition at_key :: "attempt \<Rightarrow> string \<times> string" where
  "at_key a = (at_principal a, at_task_id a)"

record task_row =
  tk_request_hash :: string
  tk_task_policy :: string
  tk_workspace_id :: string
  tk_created_at :: nat

record event_row =
  er_run_id :: string
  er_sequence :: nat
  er_kind :: event_kind
  er_event :: run_event
  er_synthetic :: bool
  er_timestamp :: nat

record artifact =
  af_artifact_id :: string
  af_run_id :: string
  af_principal :: string
  af_preset :: string
  af_workspace_id :: string
  af_kind :: string
  af_content_type :: string
  af_size :: nat
  af_sha256 :: string
  af_path :: string
  af_created_at :: nat

record quarantine_row =
  qr_reason :: string
  qr_since :: nat
  qr_run_id :: "string option"

record store =
  st_tasks :: "(string \<times> string) \<rightharpoonup> task_row"
  st_attempts :: "attempt list"
  st_events :: "event_row list"
  st_artifacts :: "artifact list"
  st_quarantine :: "(string \<times> quarantine_row) list"
  st_meta :: "string \<rightharpoonup> nat"

definition empty_store :: store where
  "empty_store = \<lparr>st_tasks = Map.empty, st_attempts = [], st_events = [], st_artifacts = [],
     st_quarantine = [], st_meta = Map.empty\<rparr>"

datatype conflict_code =
  TaskContentConflict | RunActive | RunNotRetryable | UnknownAttempt | ModelConflict

datatype store_error =
    Conflict conflict_code "string option"
  | UpstreamProtocolError
  | IntegrityError

section \<open>Retry safety\<close>

text \<open>\<^verbatim>\<open>_PREEXECUTION_SAFE_OUTCOMES\<close> and \<^verbatim>\<open>proven_pre_execution\<close>.\<close>

definition preexecution_safe_outcomes :: "outcome list" where
  "preexecution_safe_outcomes = [Rejected, QueueTimedOut]"

definition proven_pre_execution :: "status \<Rightarrow> outcome option \<Rightarrow> nat option \<Rightarrow> bool" where
  "proven_pre_execution st out started \<longleftrightarrow>
     (if st = Failed \<and> out \<in> Some ` set preexecution_safe_outcomes then True
      else st = Cancelled \<and> started = None)"

abbreviation proven :: "attempt \<Rightarrow> bool" where
  "proven a \<equiv> proven_pre_execution (at_status a) (at_outcome a) (at_started_at a)"

text \<open>
  The SQL text \<^verbatim>\<open>_BLOCKER_PREDICATE\<close>, in SQL's three-valued logic: \<open>None\<close> is UNKNOWN, and a
  \<^verbatim>\<open>WHERE\<close> clause keeps a row only where it is \<open>Some True\<close>.
\<close>

fun sql_not :: "bool option \<Rightarrow> bool option" where
  "sql_not None = None"
| "sql_not (Some b) = Some (\<not> b)"

fun sql_and :: "bool option \<Rightarrow> bool option \<Rightarrow> bool option" where
  "sql_and (Some False) y = Some False"
| "sql_and x (Some False) = Some False"
| "sql_and (Some True) (Some True) = Some True"
| "sql_and x y = None"

fun sql_or :: "bool option \<Rightarrow> bool option \<Rightarrow> bool option" where
  "sql_or (Some True) y = Some True"
| "sql_or x (Some True) = Some True"
| "sql_or (Some False) (Some False) = Some False"
| "sql_or x y = None"

fun sql_in :: "string option \<Rightarrow> string list \<Rightarrow> bool option" where
  "sql_in None ys = None"
| "sql_in (Some x) ys = Some (x \<in> set ys)"

fun sql_coalesce :: "string option \<Rightarrow> string \<Rightarrow> string option" where
  "sql_coalesce None d = Some d"
| "sql_coalesce (Some x) d = Some x"

definition blocker_predicate :: "attempt \<Rightarrow> bool option" where
  "blocker_predicate a =
     (let status = Some (status_text (at_status a));
          outcome = map_option outcome_text (at_outcome a)
      in sql_not
           (sql_or
             (sql_and (sql_in status [''failed''])
                      (sql_in (sql_coalesce outcome '''') [''rejected'', ''queue_timeout'']))
             (sql_and (sql_in status [''cancelled'']) (Some (at_started_at a = None)))))"

lemma blocker_predicate_iff: "blocker_predicate a = Some (\<not> proven a)"
proof (cases "at_outcome a")
  case None
  then show ?thesis
    by (cases "at_status a"; cases "at_started_at a")
      (simp_all add: blocker_predicate_def proven_pre_execution_def preexecution_safe_outcomes_def)
next
  case (Some out)
  then show ?thesis
    by (cases "at_status a"; cases out; cases "at_started_at a")
      (simp_all add: blocker_predicate_def proven_pre_execution_def preexecution_safe_outcomes_def)
qed

lemma proven_not_lock: "proven a \<Longrightarrow> \<not> is_lock (at_status a)"
  by (cases "at_status a") (auto simp: proven_pre_execution_def status_sets)

section \<open>Reading attempts\<close>

abbreviation for_task :: "string \<Rightarrow> string \<Rightarrow> attempt \<Rightarrow> bool" where
  "for_task p t a \<equiv> at_key a = (p, t)"

text \<open>\<^verbatim>\<open>ORDER BY created_at DESC, rowid DESC\<close>.\<close>

definition order_latest :: "attempt list \<Rightarrow> attempt list" where
  "order_latest rs = rev (sort_key at_created_at rs)"

fun limit_one :: "'a list \<Rightarrow> 'a option" where
  "limit_one [] = None"
| "limit_one (x # _) = Some x"

definition get_task :: "store \<Rightarrow> string \<Rightarrow> string \<Rightarrow> task_row option" where
  "get_task s p t = st_tasks s (p, t)"

definition list_attempts :: "store \<Rightarrow> string \<Rightarrow> string \<Rightarrow> attempt list" where
  "list_attempts s p t = order_latest (filter (for_task p t) (st_attempts s))"

definition latest_attempt :: "store \<Rightarrow> string \<Rightarrow> string \<Rightarrow> attempt option" where
  "latest_attempt s p t = limit_one (order_latest (filter (for_task p t) (st_attempts s)))"

definition get_attempt :: "store \<Rightarrow> string \<Rightarrow> attempt option" where
  "get_attempt s r = List.find (\<lambda>a. at_run_id a = r) (st_attempts s)"

lemma set_order_latest [simp]: "set (order_latest rs) = set rs"
  by (simp add: order_latest_def)

lemma limit_one_Some: "limit_one xs = Some x \<Longrightarrow> x \<in> set xs"
  by (cases xs) auto

lemma limit_one_None [simp]: "limit_one xs = None \<longleftrightarrow> xs = []"
  by (cases xs) auto

lemma order_latest_Nil [simp]: "order_latest rs = [] \<longleftrightarrow> rs = []"
  by (metis set_order_latest set_empty)

lemma latest_attempt_SomeD:
  "latest_attempt s p t = Some a \<Longrightarrow> a \<in> set (st_attempts s) \<and> for_task p t a"
  unfolding latest_attempt_def by (auto dest: limit_one_Some)

lemma latest_attempt_None:
  "latest_attempt s p t = None \<longleftrightarrow> (\<forall>a\<in>set (st_attempts s). \<not> for_task p t a)"
  by (simp add: latest_attempt_def filter_empty_conv)

lemma get_attempt_SomeD: "get_attempt s r = Some a \<Longrightarrow> a \<in> set (st_attempts s) \<and> at_run_id a = r"
  unfolding get_attempt_def by (rule find_SomeD)

section \<open>Reserving\<close>

definition lock_index_ok :: "attempt list \<Rightarrow> bool" where
  "lock_index_ok = index_ok (\<lambda>a. is_lock (at_status a)) at_key"

text \<open>The constraints sqlite enforces on \<^verbatim>\<open>attempts\<close>: two unique columns and the partial index.\<close>

definition attempts_constraints :: "attempt list \<Rightarrow> bool" where
  "attempts_constraints rs \<longleftrightarrow>
     distinct (map at_run_id rs) \<and> distinct (map at_attempt_id rs) \<and> lock_index_ok rs"

text \<open>The arguments of \<^verbatim>\<open>reserve\<close> are the row to insert plus the task policy.\<close>

definition reserve :: "nat \<Rightarrow> attempt \<Rightarrow> string \<Rightarrow> store \<Rightarrow> store_error + store" where
  "reserve now row policy s =
     (let p = at_principal row; t = at_task_id row; task = get_task s p t;
          mine = filter (for_task p t) (st_attempts s);
          new = row\<lparr>at_verification := None, at_usage := None, at_created_at := now,
                    at_updated_at := now, at_started_at := None\<rparr>
      in
      if (case task of None \<Rightarrow> False | Some k \<Rightarrow> tk_request_hash k \<noteq> at_request_hash row)
      then Inl (Conflict TaskContentConflict None)
      else (case List.find (\<lambda>a. is_lock (at_status a)) mine of
        Some locked \<Rightarrow> Inl (Conflict RunActive (Some (at_run_id locked)))
      | None \<Rightarrow>
      (case limit_one (order_latest (filter (\<lambda>a. blocker_predicate a = Some True) mine)) of
        Some blocker \<Rightarrow> Inl (Conflict RunNotRetryable (Some (at_run_id blocker)))
      | None \<Rightarrow>
        if \<not> attempts_constraints (st_attempts s @ [new]) then Inl (Conflict RunActive None)
        else Inr (s\<lparr>st_tasks :=
                 (case task of
                    None \<Rightarrow> (st_tasks s)((p, t) \<mapsto>
                      \<lparr>tk_request_hash = at_request_hash row, tk_task_policy = policy,
                       tk_workspace_id = at_workspace_id row, tk_created_at = now\<rparr>)
                  | Some _ \<Rightarrow> st_tasks s),
               st_attempts := st_attempts s @ [new]\<rparr>))))"

text \<open>When a reservation goes through, and what it leaves.\<close>

lemma reserve_InrD:
  assumes "reserve now row policy s = Inr s'"
  shows "\<And>a. a \<in> set (st_attempts s) \<Longrightarrow> at_key a = at_key row \<Longrightarrow> proven a"
    and "\<And>k. get_task s (at_principal row) (at_task_id row) = Some k \<Longrightarrow>
           tk_request_hash k = at_request_hash row"
    and "st_attempts s' = st_attempts s @
           [row\<lparr>at_verification := None, at_usage := None, at_created_at := now,
                at_updated_at := now, at_started_at := None\<rparr>]"
    and "attempts_constraints (st_attempts s')"
    and "\<exists>k. get_task s' (at_principal row) (at_task_id row) = Some k \<and>
           tk_request_hash k = at_request_hash row"
    and "st_events s' = st_events s" and "st_artifacts s' = st_artifacts s"
    and "st_quarantine s' = st_quarantine s"
proof -
  note r = assms [unfolded reserve_def Let_def get_task_def]
  show "st_attempts s' = st_attempts s @
           [row\<lparr>at_verification := None, at_usage := None, at_created_at := now,
                at_updated_at := now, at_started_at := None\<rparr>]"
    "attempts_constraints (st_attempts s')"
    "st_events s' = st_events s" "st_artifacts s' = st_artifacts s"
    "st_quarantine s' = st_quarantine s"
    using r by (auto split: if_splits option.splits)
  show "\<And>k. get_task s (at_principal row) (at_task_id row) = Some k \<Longrightarrow>
           tk_request_hash k = at_request_hash row"
    using r by (auto simp: get_task_def split: if_splits option.splits)
  show "\<exists>k. get_task s' (at_principal row) (at_task_id row) = Some k \<and>
           tk_request_hash k = at_request_hash row"
    using r by (auto simp: get_task_def split: if_splits option.splits)
  have none: "filter (\<lambda>a. blocker_predicate a = Some True)
      (filter (for_task (at_principal row) (at_task_id row)) (st_attempts s)) = []"
    using r by (auto split: if_splits option.splits)
  show "proven a" if "a \<in> set (st_attempts s)" "at_key a = at_key row" for a
  proof (rule ccontr)
    assume "\<not> proven a"
    with that have "a \<in> set (filter (\<lambda>a. blocker_predicate a = Some True)
      (filter (for_task (at_principal row) (at_task_id row)) (st_attempts s)))"
      by (simp add: blocker_predicate_iff at_key_def)
    with none show False by simp
  qed
qed

text \<open>A task with an attempt that is not proven pre-execution is never reserved again.\<close>

lemma reserve_blocked:
  assumes "a \<in> set (st_attempts s)" "at_key a = at_key row" "\<not> proven a"
  shows "\<exists>e. reserve now row policy s = Inl e"
  using reserve_InrD(1) [of now row policy s _ a] assms
  by (cases "reserve now row policy s") auto

definition admits_attempt :: "store \<Rightarrow> attempt \<Rightarrow> store \<Rightarrow> bool" where
  "admits_attempt s r s' \<longleftrightarrow>
     (\<exists>now row policy. reserve now row policy s = Inr s' \<and>
        r = row\<lparr>at_verification := None, at_usage := None, at_created_at := now,
                at_updated_at := now, at_started_at := None\<rparr>)"

interpretation attempt_lock: exclusive_ledger st_attempts "\<lambda>a. is_lock (at_status a)" at_key
  admits_attempt
proof unfold_locales
  fix s t :: store and r x :: attempt
  assume adm: "admits_attempt s r t"
  then obtain now row policy where res: "reserve now row policy s = Inr t"
    and r: "r = row\<lparr>at_verification := None, at_usage := None, at_created_at := now,
                at_updated_at := now, at_started_at := None\<rparr>"
    by (auto simp: admits_attempt_def)
  show "st_attempts t = st_attempts s @ [r]"
    using reserve_InrD(3) [OF res] r by simp
  assume "x \<in> set (st_attempts s)" "is_lock (at_status x)"
  then show "at_key x \<noteq> at_key r"
    using reserve_InrD(1) [OF res, of x] proven_not_lock [of x] r by (auto simp: at_key_def)
qed

section \<open>Updating attempts\<close>

text \<open>The keyword arguments of \<^verbatim>\<open>set_attempt\<close>: \<open>None\<close> leaves the column as it is.\<close>

record attempt_update =
  up_status :: "status option"
  up_outcome :: "outcome option"
  up_detail :: "string option"
  up_summary :: "string option"
  up_verification :: "verification option"
  up_usage :: "usage option"
  up_started_at :: "nat option"
  up_finished_at :: "nat option"
  up_cached :: "bool option"

definition no_update :: attempt_update where
  "no_update = \<lparr>up_status = None, up_outcome = None, up_detail = None, up_summary = None,
     up_verification = None, up_usage = None, up_started_at = None, up_finished_at = None,
     up_cached = None\<rparr>"

fun override :: "'a option \<Rightarrow> 'a \<Rightarrow> 'a" where
  "override None x = x"
| "override (Some y) x = y"

definition apply_update :: "nat \<Rightarrow> attempt_update \<Rightarrow> attempt \<Rightarrow> attempt" where
  "apply_update now u a =
     a\<lparr>at_updated_at := now,
       at_status := override (up_status u) (at_status a),
       at_outcome := orelse (up_outcome u) (at_outcome a),
       at_detail := orelse (up_detail u) (at_detail a),
       at_summary := orelse (up_summary u) (at_summary a),
       at_verification := orelse (up_verification u) (at_verification a),
       at_usage := orelse (up_usage u) (at_usage a),
       at_started_at := orelse (up_started_at u) (at_started_at a),
       at_finished_at := orelse (up_finished_at u) (at_finished_at a),
       at_cached := override (up_cached u) (at_cached a)\<rparr>"

definition update_row :: "string \<Rightarrow> nat \<Rightarrow> attempt_update \<Rightarrow> attempt \<Rightarrow> attempt" where
  "update_row r now u a = (if at_run_id a = r then apply_update now u a else a)"

text \<open>An \<^verbatim>\<open>UPDATE\<close> that would put two live attempts under one key raises and changes nothing.\<close>

definition set_attempt ::
  "nat \<Rightarrow> string \<Rightarrow> attempt_update \<Rightarrow> store \<Rightarrow> store_error + store" where
  "set_attempt now r u s =
     (let rs = map (update_row r now u) (st_attempts s)
      in if lock_index_ok rs then Inr (s\<lparr>st_attempts := rs\<rparr>) else Inl IntegrityError)"

lemma update_row_frames [simp]:
  "at_run_id (update_row r now u a) = at_run_id a"
  "at_attempt_id (update_row r now u a) = at_attempt_id a"
  "at_key (update_row r now u a) = at_key a"
  "at_request_hash (update_row r now u a) = at_request_hash a"
  "at_runner_instance (update_row r now u a) = at_runner_instance a"
  "at_principal (update_row r now u a) = at_principal a"
  "at_task_id (update_row r now u a) = at_task_id a"
  "at_preset (update_row r now u a) = at_preset a"
  by (simp_all add: update_row_def apply_update_def at_key_def)

lemma update_row_other [simp]: "at_run_id a \<noteq> r \<Longrightarrow> update_row r now u a = a"
  by (simp add: update_row_def)

section \<open>Restart reconciliation\<close>

definition reconcile_row :: "nat \<Rightarrow> attempt \<Rightarrow> attempt" where
  "reconcile_row now a =
     (if is_active (at_status a)
      then a\<lparr>at_status := Unknown, at_outcome := Some OutUnknown, at_finished_at := Some now,
             at_updated_at := now,
             at_detail := Some ''api restarted during execution; not reconciled''\<rparr>
      else a)"

definition reconcile_restart :: "nat \<Rightarrow> store \<Rightarrow> nat \<times> store" where
  "reconcile_restart now s =
     (count_where (\<lambda>a. is_active (at_status a)) (st_attempts s),
      s\<lparr>st_attempts := map (reconcile_row now) (st_attempts s),
        st_meta := (st_meta s)(''last_reconcile'' \<mapsto> now)\<rparr>)"

lemma reconcile_row_frames [simp]:
  "at_run_id (reconcile_row now a) = at_run_id a"
  "at_attempt_id (reconcile_row now a) = at_attempt_id a"
  "at_key (reconcile_row now a) = at_key a"
  "at_started_at (reconcile_row now a) = at_started_at a"
  by (simp_all add: reconcile_row_def at_key_def)

lemma reconcile_row_inactive: "\<not> is_active (at_status (reconcile_row now a))"
  by (auto simp: reconcile_row_def status_sets)

lemma reconcile_row_lock:
  "is_lock (at_status (reconcile_row now a)) \<Longrightarrow> is_lock (at_status a)"
  by (auto simp: reconcile_row_def status_sets split: if_splits)

lemma reconcile_row_proven [simp]: "proven (reconcile_row now a) \<longleftrightarrow> proven a"
  by (auto simp: reconcile_row_def proven_pre_execution_def status_sets split: if_splits)

section \<open>Events\<close>

definition append_event :: "string \<Rightarrow> run_event \<Rightarrow> store \<Rightarrow> store_error + store" where
  "append_event r e s =
     (if (r, ev_sequence e) \<in> (\<lambda>x. (er_run_id x, er_sequence x)) ` set (st_events s)
      then Inl UpstreamProtocolError
      else Inr (s\<lparr>st_events := st_events s @
             [\<lparr>er_run_id = r, er_sequence = ev_sequence e, er_kind = ev_kind e, er_event = e,
               er_synthetic = ev_synthetic e, er_timestamp = ev_timestamp e\<rparr>]\<rparr>))"

definition list_events :: "store \<Rightarrow> string \<Rightarrow> nat \<Rightarrow> nat \<Rightarrow> event_row list" where
  "list_events s r after n =
     take n (sort_key er_sequence
       (filter (\<lambda>x. er_run_id x = r \<and> after < er_sequence x) (st_events s)))"

definition count_events :: "store \<Rightarrow> string \<Rightarrow> nat" where
  "count_events s r = count_where (\<lambda>x. er_run_id x = r) (st_events s)"

section \<open>Artifacts\<close>

definition add_artifact :: "artifact \<Rightarrow> store \<Rightarrow> store_error + store" where
  "add_artifact af s =
     (if af_artifact_id af \<in> af_artifact_id ` set (st_artifacts s) then Inl IntegrityError
      else Inr (s\<lparr>st_artifacts := st_artifacts s @ [af]\<rparr>))"

definition get_artifact :: "store \<Rightarrow> string \<Rightarrow> artifact option" where
  "get_artifact s i = List.find (\<lambda>x. af_artifact_id x = i) (st_artifacts s)"

definition list_artifacts :: "store \<Rightarrow> string \<Rightarrow> artifact list" where
  "list_artifacts s r = sort_key af_created_at (filter (\<lambda>x. af_run_id x = r) (st_artifacts s))"

section \<open>Quarantine and metadata\<close>

definition quarantine_instance ::
  "nat \<Rightarrow> string \<Rightarrow> string \<Rightarrow> string option \<Rightarrow> store \<Rightarrow> store" where
  "quarantine_instance now i reason r s =
     s\<lparr>st_quarantine := AList.update i \<lparr>qr_reason = reason, qr_since = now, qr_run_id = r\<rparr>
        (st_quarantine s)\<rparr>"

definition get_quarantine :: "store \<Rightarrow> string \<Rightarrow> quarantine_row option" where
  "get_quarantine s i = map_of (st_quarantine s) i"

definition list_quarantine :: "store \<Rightarrow> (string \<times> quarantine_row) list" where
  "list_quarantine s = sort_key (\<lambda>x. qr_since (snd x)) (st_quarantine s)"

definition clear_quarantine :: "string \<Rightarrow> store \<Rightarrow> bool \<times> store" where
  "clear_quarantine i s =
     (get_quarantine s i \<noteq> None, s\<lparr>st_quarantine := AList.delete i (st_quarantine s)\<rparr>)"

definition get_meta :: "store \<Rightarrow> string \<Rightarrow> nat option" where
  "get_meta s k = st_meta s k"

text \<open>The quarantine ledger as the controller uses it: one entry per runner instance.\<close>

locale quarantine_ledger =
  fixes put :: "nat \<Rightarrow> string \<Rightarrow> string \<Rightarrow> string option \<Rightarrow> 's \<Rightarrow> 's"
    and entry :: "'s \<Rightarrow> string \<Rightarrow> quarantine_row option"
    and release :: "string \<Rightarrow> 's \<Rightarrow> bool \<times> 's"
  assumes entry_put: "entry (put now i reason r s) j =
      (if j = i then Some \<lparr>qr_reason = reason, qr_since = now, qr_run_id = r\<rparr> else entry s j)"
    and entry_release: "entry (snd (release i s)) j = (if j = i then None else entry s j)"
    and release_found: "fst (release i s) = (entry s i \<noteq> None)"
begin

lemma release_after_put: "entry (snd (release i (put now i reason r s))) = (entry s)(i := None)"
  by (rule ext) (simp add: entry_release entry_put)

lemma put_twice:
  "entry (put now i reason r (put now' i reason' r' s)) = entry (put now i reason r s)"
  by (rule ext) (simp add: entry_put)

end

interpretation quarantine: quarantine_ledger quarantine_instance get_quarantine clear_quarantine
  by unfold_locales
    (simp_all add: quarantine_instance_def get_quarantine_def clear_quarantine_def
      update_conv' delete_conv')

lemma quarantine_frames [simp]:
  "st_attempts (quarantine_instance now i reason r s) = st_attempts s"
  "st_tasks (quarantine_instance now i reason r s) = st_tasks s"
  "st_events (quarantine_instance now i reason r s) = st_events s"
  "st_artifacts (quarantine_instance now i reason r s) = st_artifacts s"
  "st_attempts (snd (clear_quarantine i s)) = st_attempts s"
  "st_tasks (snd (clear_quarantine i s)) = st_tasks s"
  "st_events (snd (clear_quarantine i s)) = st_events s"
  "st_artifacts (snd (clear_quarantine i s)) = st_artifacts s"
  by (simp_all add: quarantine_instance_def clear_quarantine_def)

end
