(* ===== verification/Catalog.thy ===== *)
theory Catalog
  imports RegistryProps CoreStore
begin

text \<open>
  Dynamic catalog admission and alias resolution
  (\<^verbatim>\<open>packages/core/src/cli_provider_core/catalog.py\<close>): which principal may read or execute what,
  how an alias with an optional reasoning effort becomes a model binding, which Runners a request
  may cause to be contacted, and the two listings. The texts of the rejections are the
  constructors of a datatype; everything else is as in the code. \<^verbatim>\<open>sorted(model_descriptors)\<close>
  is \<open>rh_models\<close>, which the registry always sets together with the dictionary.
\<close>

section \<open>Bindings and refusals\<close>

record model_binding =
  mb_preset :: preset_config
  mb_requested_model_id :: string
  mb_resolved_model_id :: string
  mb_reasoning_effort :: "string option"
  mb_effort_support :: "effort_support option"
  mb_dynamic :: bool
  mb_source :: "string option"

datatype refusal =
    NotApprovedModel | CostTierNotAdmitted | VerificationFailed
  | StatusNotPassed verification_status | DriverDoesNotAdmit
  | VariantNotInCatalog | VariantNotAuthorized

datatype effort_refusal =
    EffortRejected effort_rejection
  | TargetRefused string refusal
  | EffortUnresolved

text \<open>
  The exceptions of \<^verbatim>\<open>errors.py\<close> a resolution raises, and pydantic's \<^verbatim>\<open>ValidationError\<close> from the
  construction of a synthesized \<^verbatim>\<open>PresetConfig\<close>.
\<close>

datatype resolve_error =
    NotAuthorized
  | ModelNotFound
  | ModelNotAdmitted string refusal
  | ModelUnavailable
  | SourceUnavailable string
  | EffortUnsupported effort_refusal
  | BindingInvalid alias_error

section \<open>Grants and source policy\<close>

definition principal_may_read :: "principal_config \<Rightarrow> catalog_source \<Rightarrow> bool" where
  "principal_may_read p s \<longleftrightarrow>
     cs_name s \<in> set (pp_allowed_catalogs p) \<or> cs_name s \<in> set (pp_executable_catalogs p)"

definition principal_may_execute ::
  "principal_config \<Rightarrow> catalog_source \<Rightarrow> string \<Rightarrow> string set \<Rightarrow> bool" where
  "principal_may_execute p s alias static \<longleftrightarrow>
     (if cs_name s \<in> set (pp_executable_catalogs p) then True
      else alias \<in> set (pp_allowed_presets p) \<and> alias \<notin> static)"

definition status_of :: "model_descriptor \<Rightarrow> verification_status" where
  "status_of d = vf_status (md_verification d)"

definition cost_tier_listed :: "string option \<Rightarrow> string list \<Rightarrow> bool" where
  "cost_tier_listed t ts = (case t of None \<Rightarrow> False | Some x \<Rightarrow> x \<in> set ts)"

text \<open>\<open>None\<close> is the code's \<^verbatim>\<open>(True, None)\<close>.\<close>

definition source_admits :: "catalog_source \<Rightarrow> model_descriptor \<Rightarrow> bool \<Rightarrow> refusal option" where
  "source_admits s d synthetic_runner =
     (if (case cs_models s of None \<Rightarrow> False | Some ms \<Rightarrow> md_model_id d \<notin> set ms)
      then Some NotApprovedModel
      else if (case cs_cost_tiers s of None \<Rightarrow> False
               | Some ts \<Rightarrow> \<not> cost_tier_listed (md_cost_tier d) ts)
      then Some CostTierNotAdmitted
      else if status_of d = VFailed then Some VerificationFailed
      else if status_of d \<noteq> Passed \<and> \<not> (synthetic_runner \<and> cs_allow_synthetic s)
      then Some (StatusNotPassed (status_of d))
      else if \<not> md_executable d then Some DriverDoesNotAdmit
      else None)"

section \<open>Effort targets\<close>

definition resolve_effort_target ::
  "model_descriptor option \<Rightarrow> string option \<Rightarrow> (string \<Rightarrow> refusal option) \<Rightarrow>
     effort_refusal + string option" where
  "resolve_effort_target d effort admit_target =
     (case effort of
        None \<Rightarrow> Inr (map_option md_model_id d)
      | Some e \<Rightarrow>
        (case resolve_effort d (Some e) of
           (_, Some j) \<Rightarrow> Inl (EffortRejected j)
         | (None, None) \<Rightarrow> Inl EffortUnresolved
         | (Some resolved, None) \<Rightarrow>
             (if Some resolved \<noteq> map_option md_model_id d
              then (case admit_target resolved of
                      Some r \<Rightarrow> Inl (TargetRefused resolved r)
                    | None \<Rightarrow> Inr (Some resolved))
              else Inr (Some resolved))))"

section \<open>Static presets\<close>

definition preset_target_authorized ::
  "operator_config \<Rightarrow> principal_config \<Rightarrow> preset_config \<Rightarrow> string \<Rightarrow> bool" where
  "preset_target_authorized c p preset m \<longleftrightarrow>
     list_ex (\<lambda>t. pc_enabled t \<and> pc_runner_ref t = pc_runner_ref preset \<and> pc_model_id t = m \<and>
                  pc_task_policy t = pc_task_policy preset \<and>
                  pc_alias t \<in> set (pp_allowed_presets p)) (oc_presets c)"

definition catalog_target_authorized ::
  "operator_config \<Rightarrow> principal_config \<Rightarrow> string \<Rightarrow> string \<Rightarrow> runner_health option \<Rightarrow>
     model_descriptor \<Rightarrow> bool" where
  "catalog_target_authorized c p runner_ref task_policy health target =
     (case health of
        None \<Rightarrow> False
      | Some h \<Rightarrow>
        list_ex (\<lambda>s. cs_enabled s \<and> cs_runner_ref s = runner_ref \<and> cs_task_policy s = task_policy \<and>
          principal_may_execute p s (cs_alias_prefix s @ md_model_id target) (static_aliases c) \<and>
          source_admits s target (rh_synthetic h) = None) (oc_catalogs c))"

definition static_admit_target ::
  "operator_config \<Rightarrow> registry \<Rightarrow> principal_config \<Rightarrow> preset_config \<Rightarrow> string \<Rightarrow> refusal option" where
  "static_admit_target c g p preset m =
     (let health = rg_runners g (pc_runner_ref preset) in
      case model_descriptor_of g (pc_runner_ref preset) m of
        None \<Rightarrow> Some VariantNotInCatalog
      | Some t \<Rightarrow>
        if status_of t = VFailed then Some VerificationFailed
        else if status_of t \<noteq> Passed \<and>
          \<not> (case health of None \<Rightarrow> False
             | Some h \<Rightarrow> rh_synthetic h \<and> pc_allow_synthetic preset)
        then Some (StatusNotPassed (status_of t))
        else if \<not> md_executable t then Some DriverDoesNotAdmit
        else if preset_target_authorized c p preset m then None
        else if catalog_target_authorized c p (pc_runner_ref preset) (pc_task_policy preset)
                  health t then None
        else Some VariantNotAuthorized)"

definition scope_excludes :: "string option \<Rightarrow> runner_config \<Rightarrow> bool" where
  "scope_excludes driver_scope r =
     (case driver_scope of None \<Rightarrow> False | Some d \<Rightarrow> rc_driver_id r \<noteq> d)"

definition effort_support_of :: "string option \<Rightarrow> model_descriptor option \<Rightarrow> effort_support option" where
  "effort_support_of effort d =
     (if effort \<noteq> None then map_option md_effort d else None)"

definition resolve_static ::
  "operator_config \<Rightarrow> registry \<Rightarrow> principal_config \<Rightarrow> preset_config \<Rightarrow> string option \<Rightarrow>
     string option \<Rightarrow> resolve_error + model_binding" where
  "resolve_static c g p preset driver_scope effort =
     (if pc_alias preset \<notin> set (pp_allowed_presets p) then Inl NotAuthorized
      else (case runner_map c (pc_runner_ref preset) of
        None \<Rightarrow> Inl ModelNotFound
      | Some runner \<Rightarrow>
        if scope_excludes driver_scope runner then Inl ModelNotFound
        else if \<not> preset_available g (pc_alias preset) then Inl ModelUnavailable
        else
          let d = model_descriptor_of g (pc_runner_ref preset) (pc_model_id preset) in
          (case resolve_effort_target d effort (static_admit_target c g p preset) of
             Inl j \<Rightarrow> Inl (EffortUnsupported j)
           | Inr None \<Rightarrow> Inl (EffortUnsupported EffortUnresolved)
           | Inr (Some resolved) \<Rightarrow>
             Inr \<lparr>mb_preset = preset, mb_requested_model_id = pc_model_id preset,
                  mb_resolved_model_id = resolved, mb_reasoning_effort = effort,
                  mb_effort_support = effort_support_of effort d, mb_dynamic = False,
                  mb_source = None\<rparr>)))"

section \<open>Catalog aliases\<close>

definition alias_tail :: "catalog_source \<Rightarrow> string \<Rightarrow> string" where
  "alias_tail s alias = drop (length (cs_alias_prefix s)) alias"

text \<open>Whether the loop body goes past its \<^verbatim>\<open>continue\<close>s, and with which runner.\<close>

definition source_candidate ::
  "operator_config \<Rightarrow> string option \<Rightarrow> string \<Rightarrow> catalog_source \<Rightarrow> runner_config option" where
  "source_candidate c driver_scope alias s =
     (if \<not> cs_enabled s \<or> \<not> starts_with alias (cs_alias_prefix s) then None
      else if alias_tail s alias = '''' \<or> \<not> re_match id_full (alias_tail s alias) then None
      else (case runner_map c (cs_runner_ref s) of
              None \<Rightarrow> None
            | Some runner \<Rightarrow> if scope_excludes driver_scope runner then None else Some runner))"

definition dynamic_admit_target ::
  "operator_config \<Rightarrow> principal_config \<Rightarrow> catalog_source \<Rightarrow> runner_health \<Rightarrow> string \<Rightarrow> refusal option"
  where
  "dynamic_admit_target c p s h m =
     (case rh_descriptors h m of
        None \<Rightarrow> Some VariantNotInCatalog
      | Some t \<Rightarrow>
        if \<not> principal_may_execute p s (cs_alias_prefix s @ m) (static_aliases c)
        then Some VariantNotAuthorized
        else source_admits s t (rh_synthetic h))"

definition synthesized_preset :: "catalog_source \<Rightarrow> string \<Rightarrow> preset_config" where
  "synthesized_preset s alias =
     \<lparr>pc_alias = alias, pc_runner_ref = cs_runner_ref s, pc_model_id = alias_tail s alias,
      pc_task_policy = cs_task_policy s, pc_enabled = True, pc_stateless = True,
      pc_allow_synthetic = cs_allow_synthetic s\<rparr>"

text \<open>The loop body once a source owns the alias: it returns or raises.\<close>

definition resolve_in_source ::
  "operator_config \<Rightarrow> registry \<Rightarrow> principal_config \<Rightarrow> string \<Rightarrow> string option \<Rightarrow> catalog_source \<Rightarrow>
     resolve_error + model_binding" where
  "resolve_in_source c g p alias effort s =
     (let tail = alias_tail s alias in
      if \<not> principal_may_execute p s alias (static_aliases c) then Inl NotAuthorized
      else (case rg_runners g (cs_runner_ref s) of
        None \<Rightarrow> Inl (SourceUnavailable (cs_name s))
      | Some h \<Rightarrow>
        if \<not> rh_enabled h \<or> \<not> rh_ok h then Inl (SourceUnavailable (cs_name s))
        else (case rh_descriptors h tail of
          None \<Rightarrow> Inl ModelNotFound
        | Some d \<Rightarrow>
          (case source_admits s d (rh_synthetic h) of
            Some r \<Rightarrow> Inl (ModelNotAdmitted tail r)
          | None \<Rightarrow>
            (case resolve_effort_target (Some d) effort (dynamic_admit_target c p s h) of
               Inl j \<Rightarrow> Inl (EffortUnsupported j)
             | Inr None \<Rightarrow> Inl (EffortUnsupported EffortUnresolved)
             | Inr (Some resolved) \<Rightarrow>
               (case validate_alias alias of
                  Inl e \<Rightarrow> Inl (BindingInvalid e)
                | Inr _ \<Rightarrow>
                  Inr \<lparr>mb_preset = synthesized_preset s alias, mb_requested_model_id = tail,
                       mb_resolved_model_id = resolved, mb_reasoning_effort = effort,
                       mb_effort_support = effort_support_of effort (Some d),
                       mb_dynamic = True, mb_source = Some (cs_name s)\<rparr>))))))"

fun resolve_dynamic_loop ::
  "operator_config \<Rightarrow> registry \<Rightarrow> principal_config \<Rightarrow> string \<Rightarrow> string option \<Rightarrow> string option \<Rightarrow>
     catalog_source list \<Rightarrow> resolve_error + model_binding" where
  "resolve_dynamic_loop c g p alias driver_scope effort [] = Inl ModelNotFound"
| "resolve_dynamic_loop c g p alias driver_scope effort (s # ss) =
     (case source_candidate c driver_scope alias s of
        None \<Rightarrow> resolve_dynamic_loop c g p alias driver_scope effort ss
      | Some _ \<Rightarrow> resolve_in_source c g p alias effort s)"

definition resolve_dynamic ::
  "operator_config \<Rightarrow> registry \<Rightarrow> principal_config \<Rightarrow> string \<Rightarrow> string option \<Rightarrow> string option \<Rightarrow>
     resolve_error + model_binding" where
  "resolve_dynamic c g p alias driver_scope effort =
     resolve_dynamic_loop c g p alias driver_scope effort (oc_catalogs c)"

definition resolve_model ::
  "operator_config \<Rightarrow> registry \<Rightarrow> principal_config \<Rightarrow> string \<Rightarrow> string option \<Rightarrow> string option \<Rightarrow>
     resolve_error + model_binding" where
  "resolve_model c g p alias driver_scope effort =
     (case preset_map c alias of
        Some preset \<Rightarrow> resolve_static c g p preset driver_scope effort
      | None \<Rightarrow> resolve_dynamic c g p alias driver_scope effort)"

definition binding_evidence_of :: "model_binding \<Rightarrow> binding_evidence" where
  "binding_evidence_of b =
     \<lparr>be_alias = pc_alias (mb_preset b), be_model_id = mb_requested_model_id b,
      be_resolved_model = mb_resolved_model_id b, be_reasoning_effort = mb_reasoning_effort b,
      be_effort_support = mb_effort_support b, be_dynamic = mb_dynamic b,
      be_source = mb_source b\<rparr>"

section \<open>Which runners a request may contact\<close>

definition scoped_runner :: "operator_config \<Rightarrow> string option \<Rightarrow> string \<Rightarrow> runner_config option" where
  "scoped_runner c driver_scope i =
     (case runner_map c i of None \<Rightarrow> None
      | Some r \<Rightarrow> if scope_excludes driver_scope r then None else Some r)"

fun runner_ids :: "runner_config option list \<Rightarrow> string set" where
  "runner_ids [] = {}"
| "runner_ids (None # rs) = runner_ids rs"
| "runner_ids (Some r # rs) = insert (rc_instance_id r) (runner_ids rs)"

definition catalog_refresh_refs ::
  "operator_config \<Rightarrow> principal_config \<Rightarrow> string option \<Rightarrow> string set" where
  "catalog_refresh_refs c p driver_scope =
     runner_ids (map (\<lambda>s. scoped_runner c driver_scope (cs_runner_ref s))
       (filter (\<lambda>s. cs_enabled s \<and> principal_may_read p s) (oc_catalogs c)))"

definition models_refresh_refs ::
  "operator_config \<Rightarrow> principal_config \<Rightarrow> string option \<Rightarrow> string set" where
  "models_refresh_refs c p driver_scope =
     runner_ids (map (\<lambda>t. scoped_runner c driver_scope (pc_runner_ref t))
       (filter (\<lambda>t. pc_enabled t \<and> pc_alias t \<in> set (pp_allowed_presets p)) (oc_presets c))) \<union>
     runner_ids (map (\<lambda>s. scoped_runner c driver_scope (cs_runner_ref s))
       (filter (\<lambda>s. cs_enabled s \<and>
          (cs_name s \<in> set (pp_executable_catalogs p) \<or>
           list_ex (\<lambda>a. starts_with a (cs_alias_prefix s) \<and> a \<notin> static_aliases c)
             (pp_allowed_presets p))) (oc_catalogs c)))"

definition alias_refresh_refs ::
  "operator_config \<Rightarrow> principal_config \<Rightarrow> string \<Rightarrow> string option \<Rightarrow> string set" where
  "alias_refresh_refs c p alias driver_scope =
     (case preset_map c alias of
        Some preset \<Rightarrow>
          if pc_alias preset \<notin> set (pp_allowed_presets p) then {}
          else runner_ids [scoped_runner c driver_scope (pc_runner_ref preset)]
      | None \<Rightarrow>
          runner_ids (map (source_candidate c driver_scope alias)
            (filter (\<lambda>s. principal_may_execute p s alias (static_aliases c)) (oc_catalogs c))))"

section \<open>Listings\<close>

datatype view_rejection =
    ShadowedByPreset | RefusedBySource refusal | CatalogUnavailable | NoExecutionGrant
  | RunnerNotVerified

record catalog_entry =
  ce_descriptor :: model_descriptor
  ce_driver_executable :: bool
  ce_alias :: string
  ce_admitted :: bool
  ce_executable :: bool
  ce_rejection :: "view_rejection option"

record catalog_listing =
  cl_source :: string
  cl_instance_id :: string
  cl_driver_id :: string
  cl_ok :: bool
  cl_detail :: health_detail
  cl_cli_version :: "string option"
  cl_observed_at :: "nat option"
  cl_stale :: bool
  cl_refresh_seconds :: rat
  cl_models :: "catalog_entry list"

definition catalog_entry_of ::
  "operator_config \<Rightarrow> principal_config \<Rightarrow> catalog_source \<Rightarrow> runner_health \<Rightarrow> model_descriptor \<Rightarrow>
     catalog_entry" where
  "catalog_entry_of c p s h d =
     (let alias = cs_alias_prefix s @ md_model_id d;
          shadowed = (alias \<in> static_aliases c);
          refused = source_admits s d (rh_synthetic h);
          runner_ok = (rh_enabled h \<and> rh_ok h);
          executable = (refused = None \<and> runner_ok \<and> \<not> shadowed \<and>
                        principal_may_execute p s alias (static_aliases c))
      in \<lparr>ce_descriptor = d, ce_driver_executable = md_executable d, ce_alias = alias,
          ce_admitted = (refused = None), ce_executable = executable,
          ce_rejection =
            (if shadowed then Some ShadowedByPreset
             else if executable then None
             else case refused of
                Some r \<Rightarrow> Some (RefusedBySource r)
              | None \<Rightarrow> if \<not> runner_ok then Some CatalogUnavailable else Some NoExecutionGrant)\<rparr>)"

definition source_view ::
  "operator_config \<Rightarrow> rat \<Rightarrow> registry \<Rightarrow> principal_config \<Rightarrow> catalog_source \<Rightarrow> runner_config \<Rightarrow>
     catalog_listing" where
  "source_view c now g p s r =
     (let health = rg_runners g (cs_runner_ref s) in
      \<lparr>cl_source = cs_name s, cl_instance_id = rc_instance_id r, cl_driver_id = rc_driver_id r,
       cl_ok = (case health of None \<Rightarrow> False | Some h \<Rightarrow> rh_ok h),
       cl_detail = (case health of None \<Rightarrow> NotChecked | Some h \<Rightarrow> rh_detail h),
       cl_cli_version =
         (case health of None \<Rightarrow> None
          | Some h \<Rightarrow> (case rh_probe h of None \<Rightarrow> None | Some pr \<Rightarrow> pr_cli_version pr)),
       cl_observed_at = (case health of None \<Rightarrow> None | Some h \<Rightarrow> rh_observed_at h),
       cl_stale = catalog_stale c now g (rc_instance_id r),
       cl_refresh_seconds = api_catalog_refresh (oc_api c),
       cl_models =
         (case health of None \<Rightarrow> []
          | Some h \<Rightarrow> map (catalog_entry_of c p s h)
              (List.map_filter (rh_descriptors h) (rh_models h)))\<rparr>)"

definition catalog_view ::
  "operator_config \<Rightarrow> rat \<Rightarrow> registry \<Rightarrow> principal_config \<Rightarrow> string option \<Rightarrow> catalog_listing list"
  where
  "catalog_view c now g p driver_scope =
     List.map_filter (\<lambda>s.
       if \<not> cs_enabled s \<or> \<not> principal_may_read p s then None
       else map_option (source_view c now g p s)
              (scoped_runner c driver_scope (cs_runner_ref s))) (oc_catalogs c)"

record model_entry =
  me_id :: string
  me_owned_by :: string
  me_capabilities :: preset_capabilities
  me_verification :: verification
  me_real_verification :: bool
  me_model_id :: string
  me_effort :: effort_support
  me_effort_options :: "string list"
  me_effort_variants :: "(string \<times> string) list"
  me_cost_tier :: "string option"
  me_family :: "string option"
  me_catalog :: string

definition dynamic_entry ::
  "operator_config \<Rightarrow> principal_config \<Rightarrow> catalog_source \<Rightarrow> runner_config \<Rightarrow> runner_health \<Rightarrow>
     model_descriptor \<Rightarrow> model_entry option" where
  "dynamic_entry c p s r h d =
     (let alias = cs_alias_prefix s @ md_model_id d; v = md_verification d;
          real = (vf_status v = Passed \<and> \<not> rh_synthetic h) in
      if alias \<in> static_aliases c then None
      else if \<not> principal_may_execute p s alias (static_aliases c) then None
      else (case source_admits s d (rh_synthetic h) of
        Some _ \<Rightarrow> None
      | None \<Rightarrow>
        Some \<lparr>me_id = alias, me_owned_by = rc_driver_id r,
          me_capabilities = \<lparr>pk_base = rh_capabilities h,
            pk_transports = manifest_transports (rh_manifest h),
            pk_task_policy = cs_task_policy s, pk_synthetic = rh_synthetic h,
            pk_real_verification = real\<rparr>,
          me_verification = v, me_real_verification = real, me_model_id = md_model_id d,
          me_effort = md_effort d, me_effort_options = md_effort_options d,
          me_effort_variants = md_effort_variants d, me_cost_tier = md_cost_tier d,
          me_family = md_family d, me_catalog = cs_name s\<rparr>))"

definition source_entries ::
  "operator_config \<Rightarrow> registry \<Rightarrow> principal_config \<Rightarrow> string option \<Rightarrow> catalog_source \<Rightarrow> model_entry list"
  where
  "source_entries c g p driver_scope s =
     (if \<not> cs_enabled s then []
      else (case scoped_runner c driver_scope (cs_runner_ref s) of
        None \<Rightarrow> []
      | Some r \<Rightarrow>
        (case rg_runners g (cs_runner_ref s) of
           None \<Rightarrow> []
         | Some h \<Rightarrow>
           if \<not> rh_enabled h \<or> \<not> rh_ok h then []
           else List.map_filter (dynamic_entry c p s r h)
                  (List.map_filter (rh_descriptors h) (rh_models h)))))"

definition dynamic_model_entries ::
  "operator_config \<Rightarrow> registry \<Rightarrow> principal_config \<Rightarrow> string option \<Rightarrow> model_entry list" where
  "dynamic_model_entries c g p driver_scope =
     concat (map (source_entries c g p driver_scope) (oc_catalogs c))"

end
