(* ===== verification/CatalogProps.thy ===== *)
theory CatalogProps
  imports Catalog
begin

text \<open>
  What a successful resolution has checked, why an effort request cannot reach a model the
  caller was not granted, which part of the registry a resolution depends on, and that the
  listings agree with resolution.
\<close>

section \<open>Single steps\<close>

lemma source_admits_None_iff:
  "source_admits s d syn = None \<longleftrightarrow>
     (\<forall>ms. cs_models s = Some ms \<longrightarrow> md_model_id d \<in> set ms) \<and>
     (\<forall>ts. cs_cost_tiers s = Some ts \<longrightarrow> cost_tier_listed (md_cost_tier d) ts) \<and>
     (status_of d = Passed \<or> status_of d \<noteq> VFailed \<and> syn \<and> cs_allow_synthetic s) \<and>
     md_executable d"
  by (auto simp: source_admits_def split: option.splits)

lemma source_admits_executable:
  "source_admits s d syn = None \<Longrightarrow> status_of d \<noteq> VFailed \<and> md_executable d"
  by (auto simp: source_admits_None_iff)

lemma resolve_effort_target_InrD:
  assumes "resolve_effort_target d effort admit = Inr (Some m)"
  shows "(\<exists>d'. d = Some d' \<and> m = md_model_id d') \<or> (effort \<noteq> None \<and> admit m = None)"
  using assms
  by (auto simp: resolve_effort_target_def split: option.splits if_splits prod.splits)

lemma resolve_effort_target_none [simp]:
  "resolve_effort_target (Some d) None admit = Inr (Some (md_model_id d))"
  by (simp add: resolve_effort_target_def)

lemma scoped_runner_SomeD:
  "scoped_runner c sc i = Some r \<Longrightarrow> runner_map c i = Some r \<and> \<not> scope_excludes sc r"
  by (auto simp: scoped_runner_def split: option.splits if_splits)

lemma source_candidate_SomeD:
  "source_candidate c sc a s = Some r \<Longrightarrow>
     cs_enabled s \<and> starts_with a (cs_alias_prefix s) \<and> runner_map c (cs_runner_ref s) = Some r \<and>
     \<not> scope_excludes sc r \<and> a = cs_alias_prefix s @ alias_tail s a"
  by (auto simp: source_candidate_def alias_tail_def dest: starts_withD
      split: option.splits if_splits)

lemma source_candidate_row:
  assumes "cs_enabled s" "id_full m"
  shows "source_candidate c sc (cs_alias_prefix s @ m) s = scoped_runner c sc (cs_runner_ref s)"
  using assms id_full_nonempty
  by (auto simp: source_candidate_def scoped_runner_def alias_tail_def intro: re_matchI)

lemma runner_ids_iff: "i \<in> runner_ids rs \<longleftrightarrow> (\<exists>r. Some r \<in> set rs \<and> rc_instance_id r = i)"
  by (induction rs rule: runner_ids.induct) auto

section \<open>The loop over the sources\<close>

text \<open>
  Prefixes of enabled sources do not overlap, so the loop stops at the one source that owns the
  alias, wherever it stands in the configuration.
\<close>

lemma resolve_dynamic_loop_cases:
  "(\<exists>s\<in>set ss. source_candidate c sc a s \<noteq> None \<and>
      resolve_dynamic_loop c g p a sc e ss = resolve_in_source c g p a e s) \<or>
   ((\<forall>s\<in>set ss. source_candidate c sc a s = None) \<and>
      resolve_dynamic_loop c g p a sc e ss = Inl ModelNotFound)"
proof (induction ss)
  case Nil
  then show ?case by simp
next
  case (Cons t ss)
  then show ?case
    by (cases "source_candidate c sc a t") auto
qed

lemma source_candidate_unique:
  assumes "isOk (cross_references c)" "s \<in> set (oc_catalogs c)" "t \<in> set (oc_catalogs c)"
    "source_candidate c sc a s \<noteq> None" "source_candidate c sc a t \<noteq> None"
  shows "s = t"
  using assms enabled_source_unique [OF assms(1)]
  by (metis not_Some_eq source_candidate_SomeD)

lemma resolve_dynamic_loop_none:
  "\<forall>s\<in>set ss. source_candidate c sc a s = None \<Longrightarrow>
     resolve_dynamic_loop c g p a sc e ss = Inl ModelNotFound"
  by (induction ss) auto

lemma resolve_dynamic_owner:
  assumes "isOk (cross_references c)" "s \<in> set (oc_catalogs c)"
    "source_candidate c sc a s \<noteq> None"
  shows "resolve_dynamic c g p a sc e = resolve_in_source c g p a e s"
proof -
  obtain t where t: "t \<in> set (oc_catalogs c)" "source_candidate c sc a t \<noteq> None"
    "resolve_dynamic c g p a sc e = resolve_in_source c g p a e t"
    using resolve_dynamic_loop_cases [of "oc_catalogs c" c sc a g p e] assms(2,3)
    by (metis resolve_dynamic_def)
  moreover have "t = s"
    using source_candidate_unique [OF assms(1) t(1) assms(2) t(2) assms(3)] .
  ultimately show ?thesis by simp
qed

lemma resolve_dynamic_InrD:
  assumes "resolve_dynamic c g p a sc e = Inr b"
  shows "\<exists>s\<in>set (oc_catalogs c). source_candidate c sc a s \<noteq> None \<and>
     resolve_in_source c g p a e s = Inr b"
  using resolve_dynamic_loop_cases [of "oc_catalogs c" c sc a g p e] assms
  by (auto simp: resolve_dynamic_def)

section \<open>What a binding has shown\<close>

lemma resolve_static_InrD:
  assumes "resolve_static c g p preset sc e = Inr b"
  obtains r where "pc_alias preset \<in> set (pp_allowed_presets p)"
    "runner_map c (pc_runner_ref preset) = Some r" "\<not> scope_excludes sc r"
    "preset_available g (pc_alias preset)" "mb_preset b = preset" "\<not> mb_dynamic b"
    "mb_requested_model_id b = pc_model_id preset" "mb_source b = None"
    "mb_reasoning_effort b = e"
    "resolve_effort_target (model_descriptor_of g (pc_runner_ref preset) (pc_model_id preset)) e
       (static_admit_target c g p preset) = Inr (Some (mb_resolved_model_id b))"
  using assms
  by (auto simp: resolve_static_def Let_def split: if_splits option.splits sum.splits)

lemma resolve_in_source_InrD:
  assumes "resolve_in_source c g p a e s = Inr b"
  obtains h d where "principal_may_execute p s a (static_aliases c)"
    "rg_runners g (cs_runner_ref s) = Some h" "rh_enabled h" "rh_ok h"
    "rh_descriptors h (alias_tail s a) = Some d" "source_admits s d (rh_synthetic h) = None"
    "mb_preset b = synthesized_preset s a" "mb_dynamic b" "alias_ok a"
    "mb_requested_model_id b = alias_tail s a" "mb_source b = Some (cs_name s)"
    "mb_reasoning_effort b = e"
    "resolve_effort_target (Some d) e (dynamic_admit_target c p s h) =
       Inr (Some (mb_resolved_model_id b))"
  using assms
  by (auto simp: resolve_in_source_def Let_def alias_ok_def
      split: if_splits option.splits sum.splits)

lemma resolve_model_cases:
  assumes "resolve_model c g p a sc e = Inr b"
  obtains (static) preset where "preset_map c a = Some preset" "pc_alias preset = a"
      "resolve_static c g p preset sc e = Inr b"
    | (dynamic) s where "preset_map c a = None" "s \<in> set (oc_catalogs c)"
      "source_candidate c sc a s \<noteq> None" "resolve_in_source c g p a e s = Inr b"
proof (cases "preset_map c a")
  case None
  then have "resolve_dynamic c g p a sc e = Inr b"
    using assms by (simp add: resolve_model_def)
  then show ?thesis
    using resolve_dynamic_InrD dynamic [OF None] by blast
next
  case (Some preset)
  then have "resolve_static c g p preset sc e = Inr b"
    using assms by (simp add: resolve_model_def)
  then show ?thesis
    using static [OF Some] preset_map_SomeD [OF Some] by blast
qed

text \<open>The row of a snapshot a binding names.\<close>

definition runnable_row :: "operator_config \<Rightarrow> registry \<Rightarrow> string \<Rightarrow> string \<Rightarrow> bool" where
  "runnable_row c g i m \<longleftrightarrow>
     (\<exists>r h d. runner_map c i = Some r \<and> rg_runners g i = Some h \<and> rh_enabled h \<and> rh_ok h \<and>
        runner_evidence r h \<and> rh_descriptors h m = Some d \<and> md_model_id d = m \<and>
        descriptor_valid d \<and> status_of d \<noteq> VFailed \<and> md_executable d)"

lemma runnable_rowI:
  assumes "registry_ok c g" "rg_runners g i = Some h" "rh_enabled h" "rh_ok h"
    "rh_descriptors h m = Some d" "status_of d \<noteq> VFailed" "md_executable d"
  shows "runnable_row c g i m"
proof -
  obtain r where "runner_map c i = Some r" "runner_evidence r h"
    using verified_runner_evidence [OF assms(1,2,4)] by blast
  then have "md_model_id d = m \<and> descriptor_valid d"
    using assms(5) by (simp add: runner_evidence_def)
  with assms \<open>runner_map c i = Some r\<close> \<open>runner_evidence r h\<close> show ?thesis
    by (simp add: runnable_row_def)
qed

definition target_granted ::
  "operator_config \<Rightarrow> registry \<Rightarrow> principal_config \<Rightarrow> model_binding \<Rightarrow> string \<Rightarrow> bool" where
  "target_granted c g p b m \<longleftrightarrow>
     (\<exists>h t. rg_runners g (pc_runner_ref (mb_preset b)) = Some h \<and> rh_descriptors h m = Some t \<and>
        (if mb_dynamic b then
           (\<exists>s\<in>set (oc_catalogs c). mb_source b = Some (cs_name s) \<and> cs_enabled s \<and>
              cs_runner_ref s = pc_runner_ref (mb_preset b) \<and>
              principal_may_execute p s (cs_alias_prefix s @ m) (static_aliases c) \<and>
              source_admits s t (rh_synthetic h) = None)
         else
           preset_target_authorized c p (mb_preset b) m \<or>
           catalog_target_authorized c p (pc_runner_ref (mb_preset b))
             (pc_task_policy (mb_preset b)) (Some h) t))"

lemma static_admit_target_None:
  assumes "static_admit_target c g p preset m = None"
    "rg_runners g (pc_runner_ref preset) = Some h"
  shows "\<exists>t. rh_descriptors h m = Some t \<and> status_of t \<noteq> VFailed \<and> md_executable t \<and>
     (preset_target_authorized c p preset m \<or>
      catalog_target_authorized c p (pc_runner_ref preset) (pc_task_policy preset) (Some h) t)"
  using assms
  by (auto simp: static_admit_target_def Let_def model_descriptor_of_def
      split: option.splits if_splits)

lemma dynamic_admit_target_None:
  assumes "dynamic_admit_target c p s h m = None"
  shows "\<exists>t. rh_descriptors h m = Some t \<and> source_admits s t (rh_synthetic h) = None \<and>
     principal_may_execute p s (cs_alias_prefix s @ m) (static_aliases c)"
  using assms by (auto simp: dynamic_admit_target_def split: option.splits if_splits)

lemma static_binding:
  assumes ok: "registry_ok c g" and pm: "preset_map c a = Some preset"
    and res: "resolve_static c g p preset sc e = Inr b"
  shows "runnable_row c g (pc_runner_ref preset) (pc_model_id preset)"
    and "runnable_row c g (pc_runner_ref preset) (mb_resolved_model_id b)"
    and "mb_resolved_model_id b \<noteq> pc_model_id preset \<Longrightarrow>
      e \<noteq> None \<and> target_granted c g p b (mb_resolved_model_id b)"
proof -
  obtain r where D: "preset_available g (pc_alias preset)" "mb_preset b = preset"
    "\<not> mb_dynamic b"
    "resolve_effort_target (model_descriptor_of g (pc_runner_ref preset) (pc_model_id preset)) e
       (static_admit_target c g p preset) = Inr (Some (mb_resolved_model_id b))"
    using res by (elim resolve_static_InrD)
  obtain rh h where R: "rg_runners g (pc_runner_ref preset) = Some rh" "rh_enabled rh" "rh_ok rh"
    "preset_evidence preset (Some rh) h"
    using available_evidence [OF ok D(1)] pm preset_map_SomeD [OF pm] by auto
  then obtain d where d: "rh_descriptors rh (pc_model_id preset) = Some d" "md_executable d"
    "status_of d \<noteq> VFailed"
    by (auto simp: preset_evidence_def status_of_def)
  show row: "runnable_row c g (pc_runner_ref preset) (pc_model_id preset)"
    using ok R(1-3) d by (intro runnable_rowI)
  have id: "md_model_id d = pc_model_id preset"
    using row R(1) d(1) by (auto simp: runnable_row_def)
  have target: "mb_resolved_model_id b = pc_model_id preset \<or>
      e \<noteq> None \<and> static_admit_target c g p preset (mb_resolved_model_id b) = None"
    using resolve_effort_target_InrD [OF D(4)] R(1) d(1) id
    by (auto simp: model_descriptor_of_def)
  show "runnable_row c g (pc_runner_ref preset) (mb_resolved_model_id b)"
    using target row static_admit_target_None [OF _ R(1)] R ok
    by (metis runnable_rowI)
  show "e \<noteq> None \<and> target_granted c g p b (mb_resolved_model_id b)"
    if "mb_resolved_model_id b \<noteq> pc_model_id preset"
    using target that static_admit_target_None [OF _ R(1), of c p "mb_resolved_model_id b"]
      R(1) D(2,3)
    by (auto simp: target_granted_def)
qed

lemma dynamic_binding:
  assumes ok: "registry_ok c g" and s: "s \<in> set (oc_catalogs c)"
    and cand: "source_candidate c sc a s \<noteq> None" and res: "resolve_in_source c g p a e s = Inr b"
  shows "runnable_row c g (cs_runner_ref s) (alias_tail s a)"
    and "runnable_row c g (cs_runner_ref s) (mb_resolved_model_id b)"
    and "mb_resolved_model_id b \<noteq> alias_tail s a \<Longrightarrow>
      e \<noteq> None \<and> target_granted c g p b (mb_resolved_model_id b)"
proof -
  obtain h d where D: "rg_runners g (cs_runner_ref s) = Some h" "rh_enabled h" "rh_ok h"
    "rh_descriptors h (alias_tail s a) = Some d" "source_admits s d (rh_synthetic h) = None"
    "mb_preset b = synthesized_preset s a" "mb_dynamic b" "mb_source b = Some (cs_name s)"
    "resolve_effort_target (Some d) e (dynamic_admit_target c p s h) =
       Inr (Some (mb_resolved_model_id b))"
    using res by (elim resolve_in_source_InrD)
  show row: "runnable_row c g (cs_runner_ref s) (alias_tail s a)"
    using ok D(1-4) source_admits_executable [OF D(5)] by (auto intro: runnable_rowI)
  have id: "md_model_id d = alias_tail s a"
    using row D(1,4) by (auto simp: runnable_row_def)
  have target: "mb_resolved_model_id b = alias_tail s a \<or>
      e \<noteq> None \<and> dynamic_admit_target c p s h (mb_resolved_model_id b) = None"
    using resolve_effort_target_InrD [OF D(9)] id by auto
  show "runnable_row c g (cs_runner_ref s) (mb_resolved_model_id b)"
    using target row dynamic_admit_target_None source_admits_executable D(1-3) ok
    by (metis runnable_rowI)
  have "pc_runner_ref (mb_preset b) = cs_runner_ref s"
    by (simp add: D(6) synthesized_preset_def)
  moreover have "cs_enabled s"
    using cand source_candidate_SomeD by blast
  ultimately show "e \<noteq> None \<and> target_granted c g p b (mb_resolved_model_id b)"
    if "mb_resolved_model_id b \<noteq> alias_tail s a"
    using target that dynamic_admit_target_None [of c p s h "mb_resolved_model_id b"] D(1,7,8) s
    by (auto simp: target_granted_def)
qed

section \<open>What a resolution depends on\<close>

definition agree_on :: "string set \<Rightarrow> string \<Rightarrow> registry \<Rightarrow> registry \<Rightarrow> bool" where
  "agree_on is a g g' \<longleftrightarrow>
     (\<forall>i\<in>is. rg_runners g i = rg_runners g' i) \<and>
     (is \<noteq> {} \<longrightarrow> rg_presets g a = rg_presets g' a)"

lemma static_admit_target_cong:
  "rg_runners g (pc_runner_ref preset) = rg_runners g' (pc_runner_ref preset) \<Longrightarrow>
     static_admit_target c g p preset = static_admit_target c g' p preset"
  by (rule ext) (simp add: static_admit_target_def Let_def model_descriptor_of_def)

lemma resolve_in_source_cong:
  "rg_runners g (cs_runner_ref s) = rg_runners g' (cs_runner_ref s) \<Longrightarrow>
     resolve_in_source c g p a e s = resolve_in_source c g' p a e s"
  unfolding resolve_in_source_def by (rule arg_cong) simp

lemma resolve_in_source_denied:
  "\<not> principal_may_execute p s a (static_aliases c) \<Longrightarrow>
     resolve_in_source c g p a e s = Inl NotAuthorized"
  by (simp add: resolve_in_source_def)

lemma resolve_in_source_denied_iff:
  "resolve_in_source c g p a e s = Inl NotAuthorized \<longleftrightarrow>
     \<not> principal_may_execute p s a (static_aliases c)"
  by (auto simp: resolve_in_source_def Let_def split: option.splits sum.splits)

lemma alias_refs_source:
  assumes "preset_map c a = None" "s \<in> set (oc_catalogs c)" "source_candidate c sc a s \<noteq> None"
    "principal_may_execute p s a (static_aliases c)"
  shows "cs_runner_ref s \<in> alias_refresh_refs c p a sc"
proof -
  obtain r where r: "source_candidate c sc a s = Some r"
    using assms(3) by blast
  then have "rc_instance_id r = cs_runner_ref s"
    using source_candidate_SomeD runner_map_SomeD by blast
  with r assms show ?thesis
    by (force simp: alias_refresh_refs_def runner_ids_iff image_iff)
qed

lemma alias_refs_preset:
  assumes "preset_map c a = Some preset" "pc_alias preset \<in> set (pp_allowed_presets p)"
    "scoped_runner c sc (pc_runner_ref preset) = Some r"
  shows "pc_runner_ref preset \<in> alias_refresh_refs c p a sc"
proof -
  have "rc_instance_id r = pc_runner_ref preset"
    using assms(3) scoped_runner_SomeD runner_map_SomeD by blast
  with assms show ?thesis
    by (simp add: alias_refresh_refs_def)
qed

lemma resolve_static_depends:
  assumes "isOk (cross_references c)" "registry_ok c g" "registry_ok c g'"
    "preset_map c a = Some preset" "agree_on (alias_refresh_refs c p a sc) a g g'"
  shows "resolve_static c g p preset sc e = resolve_static c g' p preset sc e"
proof (cases "pc_alias preset \<in> set (pp_allowed_presets p) \<and>
    scoped_runner c sc (pc_runner_ref preset) \<noteq> None")
  case True
  then have "pc_runner_ref preset \<in> alias_refresh_refs c p a sc"
    using alias_refs_preset assms(4) by blast
  then have run: "rg_runners g (pc_runner_ref preset) = rg_runners g' (pc_runner_ref preset)"
    and pre: "rg_presets g a = rg_presets g' a"
    using assms(5) by (auto simp: agree_on_def)
  have a: "pc_alias preset = a" "preset \<in> set (oc_presets c)"
    using preset_map_SomeD [OF assms(4)] by auto
  have "ph_runner_ref h = pc_runner_ref preset" if "rg_presets g a = Some h" for h
    using registry_okD(3) [OF assms(2) a(2)] a(1) that by (auto simp: preset_entry_ok_def)
  then have avail: "preset_available g (pc_alias preset) = preset_available g' (pc_alias preset)"
    using run pre a(1)
    by (auto simp: preset_available_def runner_available_def split: option.splits)
  have row: "model_descriptor_of g (pc_runner_ref preset) m =
      model_descriptor_of g' (pc_runner_ref preset) m" for m
    using run by (simp add: model_descriptor_of_def)
  show ?thesis
    unfolding resolve_static_def Let_def avail row static_admit_target_cong [OF run, of c p]
    by (rule refl)
next
  case False
  then show ?thesis
    by (auto simp: resolve_static_def scoped_runner_def split: option.splits if_splits)
qed

lemma resolve_dynamic_depends:
  assumes "isOk (cross_references c)" "preset_map c a = None"
    "agree_on (alias_refresh_refs c p a sc) a g g'"
  shows "resolve_dynamic c g p a sc e = resolve_dynamic c g' p a sc e"
proof (cases "\<exists>s\<in>set (oc_catalogs c). source_candidate c sc a s \<noteq> None")
  case True
  then obtain s where s: "s \<in> set (oc_catalogs c)" "source_candidate c sc a s \<noteq> None" by blast
  note owner = resolve_dynamic_owner [OF assms(1) s]
  show ?thesis
  proof (cases "principal_may_execute p s a (static_aliases c)")
    case True
    then show ?thesis
      using alias_refs_source [OF assms(2) s True] assms(3)
      by (auto simp: owner agree_on_def intro: resolve_in_source_cong)
  next
    case False
    then show ?thesis
      by (simp add: owner resolve_in_source_denied)
  qed
next
  case False
  then show ?thesis
    by (auto simp: resolve_dynamic_def resolve_dynamic_loop_none)
qed

section \<open>Listings and resolution\<close>

lemma listed_rows:
  assumes "runner_evidence r h"
  shows "d \<in> set (List.map_filter (rh_descriptors h) (rh_models h)) \<longleftrightarrow>
     rh_descriptors h (md_model_id d) = Some d"
proof -
  have keyed: "\<And>k e. rh_descriptors h k = Some e \<Longrightarrow> md_model_id e = k"
    and models: "set (rh_models h) = dom (rh_descriptors h)"
    using assms by (auto simp: runner_evidence_def)
  have "d \<in> set (List.map_filter (rh_descriptors h) (rh_models h)) \<longleftrightarrow>
      (\<exists>k\<in>set (rh_models h). rh_descriptors h k = Some d)"
    by (force simp: map_filter_def image_iff)
  also have "\<dots> \<longleftrightarrow> rh_descriptors h (md_model_id d) = Some d"
    unfolding models using keyed by blast
  finally show ?thesis .
qed

lemma descriptor_row_id:
  assumes "runner_evidence r h" "rh_descriptors h m = Some d"
  shows "md_model_id d = m" "id_full m"
  using assms by (auto simp: runner_evidence_def descriptor_valid_def)

text \<open>
  A row of a source is resolvable under its alias exactly when the source admits it, its runner is
  available and in scope, the principal holds the grant, and no static preset owns the alias.
\<close>

lemma resolve_row_iff:
  assumes ok: "registry_ok c g" and s: "s \<in> set (oc_catalogs c)" "cs_enabled s"
    and h: "rg_runners g (cs_runner_ref s) = Some h" "rh_ok h"
    and d: "rh_descriptors h (md_model_id d) = Some d"
    and valid_alias: "alias_ok (cs_alias_prefix s @ md_model_id d)"
  shows "(\<exists>b. resolve_model c g p (cs_alias_prefix s @ md_model_id d) sc None = Inr b \<and> mb_dynamic b)
    \<longleftrightarrow> cs_alias_prefix s @ md_model_id d \<notin> static_aliases c \<and>
        scoped_runner c sc (cs_runner_ref s) \<noteq> None \<and> rh_enabled h \<and>
        principal_may_execute p s (cs_alias_prefix s @ md_model_id d) (static_aliases c) \<and>
        source_admits s d (rh_synthetic h) = None" (is "?L \<longleftrightarrow> ?R")
proof -
  let ?a = "cs_alias_prefix s @ md_model_id d"
  note cross = registry_okD(1) [OF ok]
  obtain r where "runner_evidence r h"
    using verified_runner_evidence [OF ok h] by blast
  then have id: "id_full (md_model_id d)"
    using descriptor_row_id d by blast
  have tail: "alias_tail s ?a = md_model_id d"
    by (simp add: alias_tail_def)
  have cand: "source_candidate c sc ?a s = scoped_runner c sc (cs_runner_ref s)"
    using source_candidate_row [OF s(2) id] .
  obtain v where valid: "validate_alias ?a = Inr v"
    using valid_alias by (auto simp: alias_ok_def isOk_iff)
  have row: "(\<exists>b. resolve_in_source c g p ?a None s = Inr b \<and> mb_dynamic b) \<longleftrightarrow>
      rh_enabled h \<and> principal_may_execute p s ?a (static_aliases c) \<and>
      source_admits s d (rh_synthetic h) = None"
    using h d valid
    by (auto simp: resolve_in_source_def Let_def tail split: option.splits)
  show ?thesis
  proof (cases "?a \<in> static_aliases c")
    case True
    then obtain preset where "preset_map c ?a = Some preset"
      using preset_map_None by fastforce
    then have "\<not> ?L"
      by (auto simp: resolve_model_def elim!: resolve_static_InrD)
    with True show ?thesis by blast
  next
    case False
    then have model: "resolve_model c g p ?a sc None = resolve_dynamic c g p ?a sc None"
      using preset_map_None [of c ?a] by (simp add: resolve_model_def)
    show ?thesis
    proof (cases "scoped_runner c sc (cs_runner_ref s)")
      case None
      have "source_candidate c sc ?a t = None" if "t \<in> set (oc_catalogs c)" for t
      proof (rule ccontr)
        assume t: "source_candidate c sc ?a t \<noteq> None"
        then have "t = s"
          using enabled_source_unique [OF cross that _ _ s] source_candidate_SomeD by force
        with t None cand show False by simp
      qed
      then have "resolve_dynamic c g p ?a sc None = Inl ModelNotFound"
        by (simp add: resolve_dynamic_def resolve_dynamic_loop_none)
      with None model show ?thesis by simp
    next
      case (Some r)
      then have "resolve_dynamic c g p ?a sc None = resolve_in_source c g p ?a None s"
        using resolve_dynamic_owner [OF cross s(1)] cand by simp
      with model row Some False show ?thesis by auto
    qed
  qed
qed

lemma dynamic_entry_iff:
  "(\<exists>x. dynamic_entry c p s r h d = Some x \<and> me_id x = a) \<longleftrightarrow>
     a = cs_alias_prefix s @ md_model_id d \<and> a \<notin> static_aliases c \<and>
     principal_may_execute p s a (static_aliases c) \<and> source_admits s d (rh_synthetic h) = None"
  by (auto simp: dynamic_entry_def Let_def split: option.splits)

lemma catalog_entry_executable:
  "ce_executable (catalog_entry_of c p s h d) \<longleftrightarrow>
     source_admits s d (rh_synthetic h) = None \<and> rh_enabled h \<and> rh_ok h \<and>
     cs_alias_prefix s @ md_model_id d \<notin> static_aliases c \<and>
     principal_may_execute p s (cs_alias_prefix s @ md_model_id d) (static_aliases c)"
  by (auto simp: catalog_entry_of_def Let_def)

lemma catalog_view_memberD:
  assumes "l \<in> set (catalog_view c now g p sc)"
  obtains s r where "s \<in> set (oc_catalogs c)" "cs_enabled s" "principal_may_read p s"
    "scoped_runner c sc (cs_runner_ref s) = Some r" "l = source_view c now g p s r"
  using assms
  by (auto simp: catalog_view_def map_filter_def split: if_splits)

lemma source_entries_iff:
  "x \<in> set (source_entries c g p sc s) \<longleftrightarrow>
     cs_enabled s \<and>
     (\<exists>r h d. scoped_runner c sc (cs_runner_ref s) = Some r \<and>
        rg_runners g (cs_runner_ref s) = Some h \<and> rh_enabled h \<and> rh_ok h \<and>
        d \<in> set (List.map_filter (rh_descriptors h) (rh_models h)) \<and>
        dynamic_entry c p s r h d = Some x)"
  by (auto simp: source_entries_def map_filter_def image_iff split: option.splits)
    force+

end
