(* ===== verification/Samples.thy ===== *)
theory Samples
  imports Catalog
begin

text \<open>
  One concrete deployment, on which the hypotheses of the properties are shown to hold: a runner
  with a static preset and a catalog source on it, a principal that holds both grants, and the
  replies of a healthy Runner.
\<close>

section \<open>Operator configuration\<close>

definition sample_api :: api_settings where
  "sample_api = \<lparr>api_host = ''127.0.0.1'', api_port = 8080, api_default_run_deadline = 60,
     api_max_run_deadline = 600, api_cancel_deadline = 5, api_keepalive = 15,
     api_body_timeout = 10, api_catalog_refresh = 30,
     api_limits = \<lparr>lim_body_bytes = 1000, lim_events_per_run = 5, lim_events_returned = 5,
       lim_output_bytes = 100, lim_artifact_bytes = 100, lim_headers_bytes = 100\<rparr>,
     api_concurrency = \<lparr>cc_per_runner = 2, cc_per_principal = 2, cc_queue_timeout = 5,
       cc_queued_per_runner = 2, cc_queued_per_principal = 2\<rparr>\<rparr>"

definition sample_runner :: runner_config where
  "sample_runner = \<lparr>rc_instance_id = ''r1'', rc_driver_id = ''mock'', rc_driver_version = ''1'',
     rc_distribution = ''mock'', rc_socket_path = ''/run/r1'', rc_enabled = True,
     rc_connect_timeout = 5, rc_control_timeout = 5, rc_run_frame_timeout = None\<rparr>"

definition sample_preset :: preset_config where
  "sample_preset = \<lparr>pc_alias = ''m/fast'', pc_runner_ref = ''r1'', pc_model_id = ''fast'',
     pc_task_policy = ''general'', pc_enabled = True, pc_stateless = True,
     pc_allow_synthetic = False\<rparr>"

definition sample_source :: catalog_source where
  "sample_source = \<lparr>cs_name = ''cat'', cs_runner_ref = ''r1'', cs_alias_prefix = ''dyn/'',
     cs_task_policy = ''general'', cs_enabled = True, cs_models = None, cs_cost_tiers = None,
     cs_allow_synthetic = False\<rparr>"

definition sample_principal :: principal_config where
  "sample_principal = \<lparr>pp_name = ''alice'',
     pp_key_hash = ''sha256:'' @ replicate 64 CHR ''0'',
     pp_allowed_presets = [''m/fast''], pp_allowed_catalogs = [''cat''],
     pp_executable_catalogs = [''cat''], pp_allowed_workspaces = [''ws''],
     pp_max_concurrency = 2\<rparr>"

text \<open>A second principal that may read the catalog and run nothing but the static preset.\<close>

definition sample_reader :: principal_config where
  "sample_reader = sample_principal\<lparr>pp_name := ''bob'', pp_executable_catalogs := []\<rparr>"

definition sample_config :: operator_config where
  "sample_config = \<lparr>oc_schema_version = 1, oc_data_dir = ''/var/lib'', oc_api = sample_api,
     oc_runners = [sample_runner], oc_presets = [sample_preset], oc_catalogs = [sample_source],
     oc_workspaces = [''ws''], oc_principals = [sample_principal, sample_reader]\<rparr>"

lemmas sample_config_defs = sample_config_def sample_api_def sample_runner_def sample_preset_def
  sample_source_def sample_principal_def sample_reader_def

lemma sample_cross [simp]: "isOk (cross_references sample_config)"
  by code_simp

lemma sample_key_hash: "re_match key_hash_full (pp_key_hash sample_principal)"
  by (rule re_matchI)
    (simp add: sample_principal_def key_hash_full_def list_all_iff hex_digit_def char_class_defs)

lemma sample_texts:
  "id_full ''r1'' \<and> id_full ''mock'' \<and> id_full ''cat'' \<and> id_full ''ws'' \<and>
   id_full ''alice'' \<and> id_full ''bob''"
  by code_simp

lemma sample_aliases: "alias_ok ''m/fast'' \<and> alias_ok ''dyn/x''"
  by code_simp

lemma sample_config_ok: "operator_config_ok sample_config"
  using sample_cross sample_key_hash sample_texts sample_aliases
  by (simp add: operator_config_ok_def sample_config_defs api_settings_ok_def limits_ok_def
      concurrency_ok_def runner_config_ok_def preset_config_ok_def catalog_source_ok_def
      prefix_and_filters_def ends_with_slash_def principal_config_ok_def)

section \<open>A healthy Runner\<close>

definition sample_verification :: verification where
  "sample_verification = \<lparr>vf_status = Passed, vf_source = ''live'', vf_reason = None\<rparr>"

definition sample_capabilities :: capabilities where
  "sample_capabilities = \<lparr>cap_streaming = StreamNative, cap_sessions = SessionNone,
     cap_roles = RoleNative, cap_structured_output = StructNone, cap_external_tool_calls = False,
     cap_internal_tools = False, cap_vision = False, cap_workspace_write = False,
     cap_web_search = False, cap_usage = UsageUnknown\<rparr>"

definition sample_model :: "string \<Rightarrow> model_descriptor" where
  "sample_model m = \<lparr>md_model_id = m, md_display_name = m, md_verification = sample_verification,
     md_effort = (if m = ''fast'' then ModelVariant else Unsupported), md_effort_options = [],
     md_effort_variants = (if m = ''fast'' then [(''high'', ''fast-high'')] else []),
     md_cost_tier = None, md_family = None, md_aliases = [], md_executable = True\<rparr>"

definition sample_observation :: "string \<Rightarrow> observation" where
  "sample_observation i = \<lparr>
     ob_manifest = Reply \<lparr>mf_driver_id = ''mock'', mf_name = ''mock'', mf_version = ''1'',
       mf_sdk_version = ''1.0'', mf_protocol_family = ''x'', mf_transports = [Stdio],
       mf_synthetic = False\<rparr>,
     ob_probe = Reply \<lparr>pr_ok = True, pr_driver_id = ''mock'', pr_driver_version = ''1'',
       pr_cli_version = None, pr_capabilities = sample_capabilities, pr_notes = []\<rparr>,
     ob_models = Reply [Reply (sample_model ''fast''), Reply (sample_model ''fast-high'')],
     ob_runtime = Some (Reply \<lparr>rn_max_parallel_runs = 2, rn_max_queue = 4,
       rn_cancel_cleanup_seconds = 10\<rparr>),
     ob_wall = 100, ob_mono = 100, ob_finished = 100\<rparr>"

lemmas sample_observation_defs = sample_observation_def sample_model_def sample_verification_def
  sample_capabilities_def

definition sample_registry :: registry where
  "sample_registry = refresh sample_config None sample_observation (initial_registry sample_config)"

lemma sample_registry_steps: "(registry_step sample_config)\<^sup>*\<^sup>* (initial_registry sample_config) sample_registry"
  unfolding sample_registry_def by (rule r_into_rtranclp) (rule registry_step.pass)

lemma sample_registry_ok [simp]: "registry_ok sample_config sample_registry"
  unfolding sample_registry_def by (intro refresh_registry_ok initial_registry_ok sample_cross)

lemma sample_available: "preset_available sample_registry ''m/fast''"
  by code_simp

section \<open>An effort request that resolves to another model\<close>

definition sample_binding :: model_binding where
  "sample_binding = \<lparr>mb_preset = sample_preset, mb_requested_model_id = ''fast'',
     mb_resolved_model_id = ''fast-high'', mb_reasoning_effort = Some ''high'',
     mb_effort_support = Some ModelVariant, mb_dynamic = False, mb_source = None\<rparr>"

text \<open>The target is granted through the catalog source on the same runner.\<close>

lemma sample_hop:
  "resolve_model sample_config sample_registry sample_principal ''m/fast'' None (Some ''high'') =
     Inr sample_binding"
  by code_simp

end
