(* ===== verification/CatalogClaims.thy ===== *)
theory CatalogClaims
  imports CatalogProps Samples
begin

text \<open>
  The properties of the registry and of catalog resolution, each with its witness on the sample
  deployment.
\<close>

section \<open>Registry\<close>



text \<open>
  A pass scoped to some runners leaves the health, the freshness mark and the derived presets
  of every other runner exactly as they were.
\<close>

theorem scoped_refresh_frame:
  assumes "isOk (cross_references c)" and "i \<notin> scope"
  shows "rg_runners (refresh c (Some scope) obs g) i = rg_runners g i \<and>
     rg_fresh_marks (refresh c (Some scope) obs g) i = rg_fresh_marks g i \<and>
     (\<forall>p\<in>set (oc_presets c). pc_runner_ref p = i \<longrightarrow>
        rg_presets (refresh c (Some scope) obs g) (pc_alias p) = rg_presets g (pc_alias p))"
proof -
  have out: "\<not> in_scope (Some scope) i"
    using assms(2) by (simp add: in_scope_def)
  then have "rg_fresh_marks (refresh c (Some scope) obs g) i = rg_fresh_marks g i"
    by (simp add: refresh_def fold_runner_marks_skipped)
  then show ?thesis
    using refresh_runner_skipped [OF assms(1) out] refresh_presets [OF assms(1)] out by auto
qed

theorem scoped_refresh_frame_witness:
  "rg_runners (refresh sample_config (Some {''r2''}) sample_observation sample_registry) ''r1'' =
     rg_runners sample_registry ''r1''"
  using scoped_refresh_frame [OF sample_cross, of "''r1''" "{''r2''}"] by simp

text \<open>
  Single flight: once a pass has run for the stale runners of a request, another caller with
  the same scope that was waiting for the guard, whatever it saw on entry, contacts no runner
  as long as the marks are within the refresh interval.
\<close>

theorem refresh_single_flight:
  assumes ok: "registry_ok c g" and scope: "refresh_scope c refs \<subseteq> rc_instance_id ` set (oc_runners c)"
    and first: "refresh_targets c refs False now0 g0 now1 g = Some targets"
    and recent: "\<And>i. i \<in> targets \<Longrightarrow> now2 - ob_finished (obs i) < api_catalog_refresh (oc_api c)"
    and others: "\<And>i. i \<in> refresh_scope c refs \<Longrightarrow> i \<notin> targets \<Longrightarrow> fresh_within_ttl c now2 g i"
  shows "refresh_targets c refs False now0' g0' now2 (refresh c (Some targets) obs g) = None"
proof -
  let ?g = "refresh c (Some targets) obs g"
  have "fresh_within_ttl c now2 ?g i" if i: "i \<in> refresh_scope c refs" for i
  proof (cases "i \<in> targets")
    case True
    then obtain r where "r \<in> set (oc_runners c)" "rc_instance_id r = i"
      using scope i by blast
    then have "rg_fresh_marks ?g i = Some (ob_finished (obs i))"
      using refresh_marks [OF ok, of r "Some targets"] True by (auto simp: in_scope_def)
    with recent [OF True] show ?thesis
      by (simp add: fresh_within_ttl_def)
  next
    case False
    then have "rg_fresh_marks ?g i = rg_fresh_marks g i"
      by (simp add: refresh_def fold_runner_marks_skipped in_scope_def)
    with others [OF i False] show ?thesis
      by (simp add: fresh_within_ttl_def)
  qed
  then show ?thesis
    by (auto simp: refresh_targets_def Let_def)
qed

theorem refresh_single_flight_witness:
  "refresh_targets sample_config (Some {''r1''}) False 0 (initial_registry sample_config) 110
     (refresh sample_config (Some {''r1''}) sample_observation (initial_registry sample_config)) = None"
proof (rule refresh_single_flight [where ?now0.0 = 0 and ?g0.0 = "initial_registry sample_config"
      and ?now1.0 = 0])
  show "registry_ok sample_config (initial_registry sample_config)"
    by (rule initial_registry_ok) simp
  show "refresh_scope sample_config (Some {''r1''}) \<subseteq> rc_instance_id ` set (oc_runners sample_config)"
    by (simp add: refresh_scope_def sample_config_defs)
  show "refresh_targets sample_config (Some {''r1''}) False 0 (initial_registry sample_config) 0
      (initial_registry sample_config) = Some {''r1''}"
    by (simp add: refresh_targets_def refresh_scope_def fresh_within_ttl_def initial_registry_def
        Let_def)
qed (simp_all add: refresh_scope_def sample_observation_def sample_config_defs)

section \<open>Resolution\<close>

text \<open>
  C3. A resolved binding is authorized and verified: the alias is one the principal holds (a
  static preset listed in its allowed presets, or a row of a source it may execute through), the
  runner is in the requested driver scope, enabled and verified, and both the requested and the
  resolved model are rows of that runner's snapshot that did not fail verification and that the
  driver admits.
\<close>

theorem resolve_authorized:
  assumes ok: "registry_ok c g" and res: "resolve_model c g p alias sc e = Inr b"
  shows "pc_alias (mb_preset b) = alias \<and>
     runnable_row c g (pc_runner_ref (mb_preset b)) (mb_requested_model_id b) \<and>
     runnable_row c g (pc_runner_ref (mb_preset b)) (mb_resolved_model_id b) \<and>
     scoped_runner c sc (pc_runner_ref (mb_preset b)) \<noteq> None \<and>
     (if mb_dynamic b then
        (\<exists>s\<in>set (oc_catalogs c). cs_enabled s \<and> mb_source b = Some (cs_name s) \<and>
           cs_runner_ref s = pc_runner_ref (mb_preset b) \<and>
           alias = cs_alias_prefix s @ mb_requested_model_id b \<and>
           principal_may_execute p s alias (static_aliases c))
      else preset_map c alias = Some (mb_preset b) \<and> alias \<in> set (pp_allowed_presets p) \<and>
           preset_available g alias)"
  using res
proof (cases rule: resolve_model_cases)
  case (static preset)
  from static(3) obtain r where D: "pc_alias preset \<in> set (pp_allowed_presets p)"
    "runner_map c (pc_runner_ref preset) = Some r" "\<not> scope_excludes sc r"
    "preset_available g (pc_alias preset)" "mb_preset b = preset" "\<not> mb_dynamic b"
    "mb_requested_model_id b = pc_model_id preset"
    by (elim resolve_static_InrD)
  then show ?thesis
    using static static_binding(1,2) [OF ok static(1,3)] by (simp add: scoped_runner_def)
next
  case (dynamic s)
  from dynamic(4) have D: "mb_preset b = synthesized_preset s alias" "mb_dynamic b"
    "mb_requested_model_id b = alias_tail s alias" "mb_source b = Some (cs_name s)"
    "principal_may_execute p s alias (static_aliases c)"
    by (elim resolve_in_source_InrD; simp)+
  obtain r where r: "source_candidate c sc alias s = Some r"
    using dynamic(3) by blast
  note C = source_candidate_SomeD [OF r]
  have "pc_runner_ref (mb_preset b) = cs_runner_ref s" "pc_alias (mb_preset b) = alias"
    by (simp_all add: D(1) synthesized_preset_def)
  moreover have "scoped_runner c sc (cs_runner_ref s) \<noteq> None"
    using C by (simp add: scoped_runner_def)
  ultimately show ?thesis
    using dynamic_binding(1,2) [OF ok dynamic(2-4)] D(2-5) C dynamic(2) by auto
qed

theorem resolve_authorized_witness:
  "runnable_row sample_config sample_registry ''r1'' ''fast-high''"
  using resolve_authorized [OF sample_registry_ok sample_hop]
  by (simp add: sample_binding_def sample_preset_def)

text \<open>
  C24. An effort request never hops to a model the caller was not granted: if the resolved model
  differs from the requested one, an effort was requested and the target is independently granted
  on the same runner, by an enabled preset the principal holds under the same task policy, by a
  source it may execute through under that policy, or (for a catalog alias) under the target's
  own alias.
\<close>

theorem effort_never_hops:
  assumes ok: "registry_ok c g" and res: "resolve_model c g p alias sc e = Inr b"
    and hop: "mb_resolved_model_id b \<noteq> mb_requested_model_id b"
  shows "e \<noteq> None \<and> target_granted c g p b (mb_resolved_model_id b)"
  using res
proof (cases rule: resolve_model_cases)
  case (static preset)
  have "mb_requested_model_id b = pc_model_id preset"
    using static(3) by (elim resolve_static_InrD)
  then show ?thesis
    using static_binding(3) [OF ok static(1,3)] hop by simp
next
  case (dynamic s)
  have "mb_requested_model_id b = alias_tail s alias"
    using dynamic(4) by (elim resolve_in_source_InrD)
  then show ?thesis
    using dynamic_binding(3) [OF ok dynamic(2-4)] hop by simp
qed

theorem effort_never_hops_witness:
  "target_granted sample_config sample_registry sample_principal sample_binding ''fast-high''"
  using effort_never_hops [OF sample_registry_ok sample_hop] by (simp add: sample_binding_def)

text \<open>
  Resolving an alias consults nothing beyond the runners the refresh scope of that alias
  names: two registries that agree on those runners (and on the alias' own preset entry) give
  the same result, error or binding.
\<close>

theorem resolution_depends_on_scope:
  assumes "registry_ok c g" "registry_ok c g'"
    and "agree_on (alias_refresh_refs c p alias sc) alias g g'"
  shows "resolve_model c g p alias sc e = resolve_model c g' p alias sc e"
  using resolve_static_depends [OF registry_okD(1) [OF assms(1)] assms(1,2) _ assms(3)]
    resolve_dynamic_depends [OF registry_okD(1) [OF assms(1)] _ assms(3)]
  by (simp add: resolve_model_def split: option.splits)

theorem resolution_depends_on_scope_witness:
  "resolve_model sample_config sample_registry sample_reader ''dyn/fast'' None None =
   resolve_model sample_config (initial_registry sample_config) sample_reader ''dyn/fast'' None None"
proof (rule resolution_depends_on_scope [OF sample_registry_ok])
  have refs: "alias_refresh_refs sample_config sample_reader ''dyn/fast'' None = {}"
    by code_simp
  show "agree_on (alias_refresh_refs sample_config sample_reader ''dyn/fast'' None) ''dyn/fast''
      sample_registry (initial_registry sample_config)"
    by (simp add: refs agree_on_def)
qed (simp add: initial_registry_ok)



section \<open>Listings\<close>

text \<open>
  C30. The model list shows exactly the catalog aliases the principal can run: an entry with a
  well-formed alias is listed if and only if a request for that alias resolves to a catalog
  binding.
\<close>

theorem listed_iff_resolvable:
  assumes ok: "registry_ok c g" and "alias_ok a"
  shows "a \<in> me_id ` set (dynamic_model_entries c g p sc) \<longleftrightarrow>
    (\<exists>b. resolve_model c g p a sc None = Inr b \<and> mb_dynamic b)"
proof
  assume "a \<in> me_id ` set (dynamic_model_entries c g p sc)"
  then obtain s r h d where L: "s \<in> set (oc_catalogs c)" "cs_enabled s"
    "scoped_runner c sc (cs_runner_ref s) = Some r" "rg_runners g (cs_runner_ref s) = Some h"
    "rh_enabled h" "rh_ok h" "d \<in> set (List.map_filter (rh_descriptors h) (rh_models h))"
    "\<exists>x. dynamic_entry c p s r h d = Some x \<and> me_id x = a"
    by (auto simp: dynamic_model_entries_def source_entries_iff)
  note E = L(8) [unfolded dynamic_entry_iff]
  obtain r' where "runner_evidence r' h"
    using verified_runner_evidence [OF ok L(4,6)] by blast
  then have row: "rh_descriptors h (md_model_id d) = Some d"
    using listed_rows L(7) by blast
  then show "\<exists>b. resolve_model c g p a sc None = Inr b \<and> mb_dynamic b"
    using resolve_row_iff [OF ok L(1,2,4,6) row, of p sc] E L(3,5) assms(2) by auto
next
  assume "\<exists>b. resolve_model c g p a sc None = Inr b \<and> mb_dynamic b"
  then obtain b where b: "resolve_model c g p a sc None = Inr b" "mb_dynamic b" by blast
  from b(1) obtain s where s: "s \<in> set (oc_catalogs c)" "source_candidate c sc a s \<noteq> None"
    "resolve_in_source c g p a None s = Inr b"
    using b(2) by (cases rule: resolve_model_cases) (auto elim!: resolve_static_InrD)
  obtain r where r: "source_candidate c sc a s = Some r"
    using s(2) by blast
  note C = source_candidate_SomeD [OF r]
  obtain h d where h: "rg_runners g (cs_runner_ref s) = Some h" "rh_enabled h" "rh_ok h"
    "rh_descriptors h (alias_tail s a) = Some d"
    using s(3) by (elim resolve_in_source_InrD)
  obtain r' where ev: "runner_evidence r' h"
    using verified_runner_evidence [OF ok h(1,3)] by blast
  have row: "rh_descriptors h (md_model_id d) = Some d" and a: "a = cs_alias_prefix s @ md_model_id d"
    using descriptor_row_id [OF ev h(4)] h(4) C by auto
  have "a \<notin> static_aliases c" "principal_may_execute p s a (static_aliases c)"
    "source_admits s d (rh_synthetic h) = None" "scoped_runner c sc (cs_runner_ref s) = Some r"
    using resolve_row_iff [OF ok s(1) _ h(1,3) row, of p sc] b C assms(2) a
    by (auto simp: scoped_runner_def)
  then obtain x where "dynamic_entry c p s r h d = Some x" "me_id x = a"
    using a dynamic_entry_iff [of c p s r h d a] by auto
  moreover have "d \<in> set (List.map_filter (rh_descriptors h) (rh_models h))"
    using listed_rows [OF ev] row by blast
  ultimately show "a \<in> me_id ` set (dynamic_model_entries c g p sc)"
    using s(1) C h(1-3) \<open>scoped_runner c sc (cs_runner_ref s) = Some r\<close>
    by (force simp: dynamic_model_entries_def source_entries_iff)
qed

theorem listed_iff_resolvable_witness:
  "\<exists>b. resolve_model sample_config sample_registry sample_principal ''dyn/fast-high'' None None =
     Inr b \<and> mb_dynamic b"
proof -
  have "alias_ok ''dyn/fast-high''"
    by code_simp
  moreover have "''dyn/fast-high'' \<in>
      me_id ` set (dynamic_model_entries sample_config sample_registry sample_principal None)"
    by code_simp
  ultimately show ?thesis
    using listed_iff_resolvable [OF sample_registry_ok] by blast
qed

text \<open>
  The discovery view never promises what a request would not get: a row with a well-formed
  alias carries the executable flag if and only if a request for its alias resolves to a catalog
  binding.
\<close>

theorem view_executable_iff_resolvable:
  assumes ok: "registry_ok c g" and l: "l \<in> set (catalog_view c now g p sc)"
    and x: "x \<in> set (cl_models l)" and verified: "cl_ok l" and wf: "alias_ok (ce_alias x)"
  shows "ce_executable x \<longleftrightarrow>
    (\<exists>b. resolve_model c g p (ce_alias x) sc None = Inr b \<and> mb_dynamic b)"
proof -
  obtain s r where S: "s \<in> set (oc_catalogs c)" "cs_enabled s"
    "scoped_runner c sc (cs_runner_ref s) = Some r" "l = source_view c now g p s r"
    using l by (rule catalog_view_memberD)
  obtain h d where H: "rg_runners g (cs_runner_ref s) = Some h" "rh_ok h"
    "x = catalog_entry_of c p s h d" "d \<in> set (List.map_filter (rh_descriptors h) (rh_models h))"
    using verified x by (auto simp: S(4) source_view_def Let_def split: option.splits)
  obtain r' where "runner_evidence r' h"
    using verified_runner_evidence [OF ok H(1,2)] by blast
  then have row: "rh_descriptors h (md_model_id d) = Some d"
    using listed_rows H(4) by blast
  have a: "ce_alias x = cs_alias_prefix s @ md_model_id d"
    by (simp add: H(3) catalog_entry_of_def Let_def)
  show ?thesis
    using resolve_row_iff [OF ok S(1,2) H(1,2) row, of p sc] wf S(3) H(2)
    unfolding a by (auto simp: H(3) catalog_entry_executable)
qed

theorem view_executable_witness:
  "\<exists>x\<in>set (cl_models (source_view sample_config 110 sample_registry sample_reader sample_source
      sample_runner)). \<not> ce_executable x"
proof -
  let ?l = "source_view sample_config 110 sample_registry sample_reader sample_source sample_runner"
  have view: "catalog_view sample_config 110 sample_registry sample_reader None = [?l]"
    by (simp add: catalog_view_def sample_config_defs principal_may_read_def scoped_runner_def
        runner_map_def dict_by_def scope_excludes_def)
  have ok: "cl_ok ?l"
    by code_simp
  have "\<exists>x\<in>set (cl_models ?l). ce_alias x = ''dyn/fast''"
    by code_simp
  then obtain x where x: "x \<in> set (cl_models ?l)" "ce_alias x = ''dyn/fast''"
    by blast
  have "alias_ok ''dyn/fast''"
    by code_simp
  moreover have "resolve_model sample_config sample_registry sample_reader ''dyn/fast'' None None =
      Inl NotAuthorized"
    by code_simp
  ultimately have "\<not> ce_executable x"
    using view_executable_iff_resolvable [OF sample_registry_ok, of ?l 110 sample_reader None x]
      view ok x by simp
  with x(1) show ?thesis by blast
qed

end
