(* ===== verification/Errors.thy ===== *)
theory Errors
  imports CoreStore
begin

text \<open>
  The error taxonomy of the core (\<^verbatim>\<open>packages/core/src/cli_provider_core/errors.py\<close>): one
  constructor per exception class, with the safe code, type and HTTP status each carries, and the
  classification of a Runner's refusal to run. \<open>EInternal\<close> stands for an exception outside the
  taxonomy, by the name of its type.
\<close>

text \<open>The \<^verbatim>\<open>code\<close> strings of the two core \<^verbatim>\<open>Conflict\<close>s a caller can tell apart.\<close>

fun conflict_code_text :: "conflict_code \<Rightarrow> string" where
  "conflict_code_text TaskContentConflict = ''task_content_conflict''"
| "conflict_code_text RunActive = ''run_active''"
| "conflict_code_text RunNotRetryable = ''run_not_retryable''"
| "conflict_code_text UnknownAttempt = ''unknown_attempt''"
| "conflict_code_text ModelConflict = ''model_conflict''"

datatype core_error =
    EInvalidRequest | EUnsupportedCapability | EAuthentication | EAuthorization | ENotFound
  | EConflict conflict_code "string option"
  | EBodyTooLarge | EBodyTimeout | EHeadersTooLarge | EQueueTimeout | EQueueFull
  | ERunnerUnavailable | ERunnerQuarantined | EUpstreamProtocol
  | ERunnerRunRejected string bool bool
      \<comment> \<open>runner code, retryable, raised before any event was observed\<close>
  | EInternal string

fun error_code :: "core_error \<Rightarrow> string" where
  "error_code EInvalidRequest = ''invalid_request''"
| "error_code EUnsupportedCapability = ''unsupported_capability''"
| "error_code EAuthentication = ''invalid_api_key''"
| "error_code EAuthorization = ''not_authorized''"
| "error_code ENotFound = ''not_found''"
| "error_code (EConflict k _) = conflict_code_text k"
| "error_code EBodyTooLarge = ''body_too_large''"
| "error_code EBodyTimeout = ''body_timeout''"
| "error_code EHeadersTooLarge = ''headers_too_large''"
| "error_code EQueueTimeout = ''queue_timeout''"
| "error_code EQueueFull = ''queue_full''"
| "error_code ERunnerUnavailable = ''runner_unavailable''"
| "error_code ERunnerQuarantined = ''runner_quarantined''"
| "error_code EUpstreamProtocol = ''runner_protocol_error''"
| "error_code (ERunnerRunRejected _ _ _) = ''runner_protocol_error''"
| "error_code (EInternal _) = ''internal_error''"

fun error_type :: "core_error \<Rightarrow> string" where
  "error_type EInvalidRequest = ''invalid_request_error''"
| "error_type EUnsupportedCapability = ''unsupported_capability''"
| "error_type EAuthentication = ''authentication_error''"
| "error_type EAuthorization = ''authorization_error''"
| "error_type ENotFound = ''not_found_error''"
| "error_type (EConflict _ _) = ''conflict_error''"
| "error_type EBodyTooLarge = ''invalid_request_error''"
| "error_type EBodyTimeout = ''invalid_request_error''"
| "error_type EHeadersTooLarge = ''invalid_request_error''"
| "error_type EQueueTimeout = ''rate_limit_error''"
| "error_type EQueueFull = ''rate_limit_error''"
| "error_type ERunnerUnavailable = ''runner_unavailable''"
| "error_type ERunnerQuarantined = ''runner_unavailable''"
| "error_type _ = ''server_error''"

fun http_status :: "core_error \<Rightarrow> nat" where
  "http_status EInvalidRequest = 400"
| "http_status EUnsupportedCapability = 422"
| "http_status EAuthentication = 401"
| "http_status EAuthorization = 403"
| "http_status ENotFound = 404"
| "http_status (EConflict _ _) = 409"
| "http_status EBodyTooLarge = 413"
| "http_status EBodyTimeout = 408"
| "http_status EHeadersTooLarge = 431"
| "http_status EQueueTimeout = 429"
| "http_status EQueueFull = 429"
| "http_status ERunnerUnavailable = 503"
| "http_status ERunnerQuarantined = 503"
| "http_status EUpstreamProtocol = 502"
| "http_status (ERunnerRunRejected _ _ _) = 502"
| "http_status (EInternal _) = 500"

text \<open>What a store operation raises, seen by its callers.\<close>

fun store_exn :: "store_error \<Rightarrow> core_error" where
  "store_exn (Conflict k r) = EConflict k r"
| "store_exn UpstreamProtocolError = EUpstreamProtocol"
| "store_exn IntegrityError = EInternal ''IntegrityError''"

text \<open>\<^verbatim>\<open>type(exc).__name__\<close>, which the controller persists.\<close>

fun exn_name :: "core_error \<Rightarrow> string" where
  "exn_name EInvalidRequest = ''InvalidRequest''"
| "exn_name EUnsupportedCapability = ''UnsupportedCapability''"
| "exn_name EAuthentication = ''AuthenticationError''"
| "exn_name EAuthorization = ''AuthorizationError''"
| "exn_name ENotFound = ''NotFound''"
| "exn_name (EConflict _ _) = ''Conflict''"
| "exn_name EBodyTooLarge = ''BodyTooLarge''"
| "exn_name EBodyTimeout = ''BodyTimeout''"
| "exn_name EHeadersTooLarge = ''HeadersTooLarge''"
| "exn_name EQueueTimeout = ''QueueTimeout''"
| "exn_name EQueueFull = ''QueueFull''"
| "exn_name ERunnerUnavailable = ''RunnerUnavailable''"
| "exn_name ERunnerQuarantined = ''RunnerQuarantined''"
| "exn_name EUpstreamProtocol = ''UpstreamProtocolError''"
| "exn_name (ERunnerRunRejected _ _ _) = ''RunnerRunRejected''"
| "exn_name (EInternal n) = n"

definition pre_execution_run_rejections :: "string list" where
  "pre_execution_run_rejections = [''QUEUE_FULL'', ''INVALID_PARAMS'', ''RUN_ALREADY_ACTIVE'']"

text \<open>\<^verbatim>\<open>RunnerRunRejected.no_effect\<close>.\<close>

definition no_effect :: "string \<Rightarrow> bool \<Rightarrow> bool" where
  "no_effect code pre \<longleftrightarrow> pre \<and> code \<in> set pre_execution_run_rejections"

lemma no_effect_pre: "no_effect code pre \<Longrightarrow> pre"
  by (simp add: no_effect_def)

end
