(* ===== verification/Controller.thy ===== *)
theory Controller
  imports Errors Registry
begin

text \<open>
  The run controller (\<^verbatim>\<open>packages/core/src/cli_provider_core/controller.py\<close>). Every coroutine is
  cut at its \<^verbatim>\<open>await\<close>s: a definition below is what runs between two of them, on a state that
  holds the durable store and the in-process dictionaries, and \<open>ctl_step\<close> (in the theory of its
  invariant) lets the segments of all runs and of all cancel calls interleave. A segment that
  raises leaves the changes made before the exception. Clock readings, fresh identifiers, the
  registry at that moment, and what the session of the Runner delivers are arguments.
\<close>

section \<open>State\<close>

text \<open>\<^verbatim>\<open>_stream\<close>'s local variables, at its \<^verbatim>\<open>async for\<close>.\<close>

record progress =
  sp_events_seen :: nat
  sp_output_bytes :: nat
  sp_chunks :: "string list"

definition start_progress :: progress where
  "start_progress = \<lparr>sp_events_seen = 0, sp_output_bytes = 0, sp_chunks = []\<rparr>"

text \<open>An exception inside \<^verbatim>\<open>_execute\<close>: its task cancelled, or an ordinary one.\<close>

datatype exec_exn = TaskCancelled | Exn core_error

datatype pending = Returns | Raises exec_exn

text \<open>
  Where the task of a run is suspended: waiting for the runner slot, waiting for the principal
  slot with the runner slot held, both acquired but \<^verbatim>\<open>_execute\<close> not yet resumed, inside the
  stream, or in the \<^verbatim>\<open>await session.aclose()\<close> that follows it.
\<close>

datatype phase = Waiting | HoldRunner | Acquired | Streaming progress | Closing nat pending
  \<comment> \<open>\<open>Closing n\<close> remembers that the stream had taken \<open>n\<close> events\<close>

record active_run =
  ar_record :: attempt
  ar_messages :: "message list"
  ar_wakeup :: bool
  ar_cancel_event :: bool
  ar_cancel_requested :: bool
  ar_terminal_status :: "status option"
  ar_last_event_sequence :: nat
  ar_preset :: preset_config
  ar_concurrency :: nat
  ar_deadline :: rat
  ar_phase :: phase

text \<open>An \<^verbatim>\<open>asyncio.Semaphore\<close>: its initial value and how many slots are out.\<close>

record semaphore =
  sm_limit :: nat
  sm_held :: nat

text \<open>A suspended \<^verbatim>\<open>cancel\<close> call.\<close>

datatype cancel_wait = QueuedWait | DispatchedWait string string
  \<comment> \<open>the runner instance and the detail so far\<close>

record ctl =
  ct_store :: store
  ct_active :: "(string \<times> active_run) list"
  ct_ended :: "(string \<times> active_run) list"
  ct_runner_sems :: "string \<rightharpoonup> semaphore"
  ct_principal_sems :: "string \<rightharpoonup> semaphore"
  ct_runner_out :: "string \<Rightarrow> nat"
  ct_principal_out :: "string \<Rightarrow> nat"
  ct_cancels :: "(string \<times> cancel_wait) list"
  ct_orphans :: "(string \<times> string \<times> bool) list"
    \<comment> \<open>acquiring tasks whose run is gone: runner, principal, runner slot held\<close>

definition initial_ctl :: "store \<Rightarrow> ctl" where
  "initial_ctl s = \<lparr>ct_store = s, ct_active = [], ct_ended = [], ct_runner_sems = Map.empty,
     ct_principal_sems = Map.empty, ct_runner_out = (\<lambda>_. 0), ct_principal_out = (\<lambda>_. 0),
     ct_cancels = [], ct_orphans = []\<rparr>"

definition active_of :: "ctl \<Rightarrow> string \<Rightarrow> active_run option" where
  "active_of c r = map_of (ct_active c) r"

definition put_active :: "string \<Rightarrow> active_run \<Rightarrow> ctl \<Rightarrow> ctl" where
  "put_active r a c = c\<lparr>ct_active := AList.update r a (ct_active c)\<rparr>"

definition upd_active :: "string \<Rightarrow> (active_run \<Rightarrow> active_run) \<Rightarrow> ctl \<Rightarrow> ctl" where
  "upd_active r f c = (case active_of c r of None \<Rightarrow> c | Some a \<Rightarrow> put_active r (f a) c)"

definition set_phase :: "string \<Rightarrow> phase \<Rightarrow> ctl \<Rightarrow> ctl" where
  "set_phase r ph = upd_active r (\<lambda>a. a\<lparr>ar_phase := ph\<rparr>)"

definition store_update :: "nat \<Rightarrow> string \<Rightarrow> attempt_update \<Rightarrow> ctl \<Rightarrow> core_error + ctl" where
  "store_update now r u c =
     (case set_attempt now r u (ct_store c) of
        Inl e \<Rightarrow> Inl (store_exn e)
      | Inr s \<Rightarrow> Inr (c\<lparr>ct_store := s\<rparr>))"

section \<open>Semaphores\<close>

definition runner_sem_limit :: "operator_config \<Rightarrow> registry \<Rightarrow> string \<Rightarrow> nat" where
  "runner_sem_limit cfg g i =
     max 1 (min (cc_per_runner (api_concurrency (oc_api cfg))) (runner_capacity g i))"

text \<open>\<^verbatim>\<open>_runner_sem\<close> and \<^verbatim>\<open>_principal_sem\<close>: created on first use, then kept.\<close>

definition runner_sem :: "operator_config \<Rightarrow> registry \<Rightarrow> string \<Rightarrow> ctl \<Rightarrow> ctl" where
  "runner_sem cfg g i c =
     (case ct_runner_sems c i of
        Some _ \<Rightarrow> c
      | None \<Rightarrow> c\<lparr>ct_runner_sems := (ct_runner_sems c)
          (i \<mapsto> \<lparr>sm_limit = runner_sem_limit cfg g i, sm_held = 0\<rparr>)\<rparr>)"

definition principal_sem :: "string \<Rightarrow> nat \<Rightarrow> ctl \<Rightarrow> ctl" where
  "principal_sem p n c =
     (case ct_principal_sems c p of
        Some _ \<Rightarrow> c
      | None \<Rightarrow> c\<lparr>ct_principal_sems := (ct_principal_sems c)
          (p \<mapsto> \<lparr>sm_limit = n, sm_held = 0\<rparr>)\<rparr>)"

definition sem_free :: "(string \<rightharpoonup> semaphore) \<Rightarrow> string \<Rightarrow> bool" where
  "sem_free sems i = (case sems i of None \<Rightarrow> False | Some s \<Rightarrow> sm_held s < sm_limit s)"

definition sem_take :: "string \<Rightarrow> (string \<rightharpoonup> semaphore) \<Rightarrow> (string \<rightharpoonup> semaphore)" where
  "sem_take i sems = sems(i := map_option (\<lambda>s. s\<lparr>sm_held := sm_held s + 1\<rparr>) (sems i))"

definition sem_release :: "string \<Rightarrow> (string \<rightharpoonup> semaphore) \<Rightarrow> (string \<rightharpoonup> semaphore)" where
  "sem_release i sems = sems(i := map_option (\<lambda>s. s\<lparr>sm_held := sm_held s - 1\<rparr>) (sems i))"

definition release_runner :: "string \<Rightarrow> ctl \<Rightarrow> ctl" where
  "release_runner i c = c\<lparr>ct_runner_sems := sem_release i (ct_runner_sems c)\<rparr>"

definition release_principal :: "string \<Rightarrow> ctl \<Rightarrow> ctl" where
  "release_principal p c = c\<lparr>ct_principal_sems := sem_release p (ct_principal_sems c)\<rparr>"

section \<open>Budgets\<close>

definition scheduling_margin_seconds :: rat where
  "scheduling_margin_seconds = 1"

definition run_budget :: "registry \<Rightarrow> string \<Rightarrow> rat \<Rightarrow> rat" where
  "run_budget g i deadline = deadline + runner_cleanup_seconds g i + scheduling_margin_seconds"

definition effective_timeout :: "rat option \<Rightarrow> rat \<Rightarrow> rat" where
  "effective_timeout given budget =
     (case given of None \<Rightarrow> budget | Some t \<Rightarrow> min t budget)"

section \<open>Submission\<close>

text \<open>
  The payload \<^verbatim>\<open>request_hash\<close> digests (\<^verbatim>\<open>hashing.py\<close>). The digest of its canonical JSON is a
  parameter of the model.
\<close>

record hash_payload =
  hp_principal :: string
  hp_task_id :: string
  hp_workspace_id :: string
  hp_task_policy :: string
  hp_messages :: "message list"
  hp_execution :: "execution_context option"
  hp_reasoning_effort :: "string option"

record submission =
  su_principal :: string
  su_concurrency :: nat
  su_task_id :: string
  su_preset :: preset_config
  su_workspace_id :: string
  su_messages :: "message list"
  su_deadline :: rat
  su_execution :: "execution_context option"
  su_reasoning_effort :: "string option"
  su_model_binding :: "binding_evidence option"

definition request_hash :: "(hash_payload \<Rightarrow> string) \<Rightarrow> submission \<Rightarrow> string" where
  "request_hash sha q = ''sha256:'' @ sha
     \<lparr>hp_principal = su_principal q, hp_task_id = su_task_id q,
      hp_workspace_id = su_workspace_id q, hp_task_policy = pc_task_policy (su_preset q),
      hp_messages = su_messages q, hp_execution = su_execution q,
      hp_reasoning_effort = su_reasoning_effort q\<rparr>"

datatype submit_result = SubmitCached attempt | SubmitStarted attempt

definition as_cached :: "attempt \<Rightarrow> attempt" where
  "as_cached a = a\<lparr>at_cached := True\<rparr>"

text \<open>The checks against the latest attempt; \<open>Some\<close> is an attempt to return as cached.\<close>

definition check_existing :: "store \<Rightarrow> submission \<Rightarrow> string \<Rightarrow> core_error + attempt option" where
  "check_existing s q digest =
     (case latest_attempt s (su_principal q) (su_task_id q) of
        None \<Rightarrow> Inr None
      | Some a \<Rightarrow>
        if (case get_task s (su_principal q) (su_task_id q) of
              None \<Rightarrow> False | Some k \<Rightarrow> tk_request_hash k \<noteq> digest)
        then Inl (EConflict TaskContentConflict None)
        else if is_active (at_status a) then Inl (EConflict RunActive (Some (at_run_id a)))
        else if at_status a = Unknown then Inl (EConflict UnknownAttempt (Some (at_run_id a)))
        else if at_status a = Completed then
          (if at_preset a \<noteq> pc_alias (su_preset q)
           then Inl (EConflict ModelConflict (Some (at_run_id a)))
           else Inr (Some (as_cached a)))
        else if \<not> proven a then Inl (EConflict RunNotRetryable (Some (at_run_id a)))
        else Inr None)"

definition effective_principal :: "operator_config \<Rightarrow> submission \<Rightarrow> nat" where
  "effective_principal cfg q =
     min (cc_per_principal (api_concurrency (oc_api cfg))) (su_concurrency q)"

definition runner_bound :: "operator_config \<Rightarrow> nat" where
  "runner_bound cfg =
     cc_per_runner (api_concurrency (oc_api cfg)) +
     cc_queued_per_runner (api_concurrency (oc_api cfg))"

definition principal_bound :: "operator_config \<Rightarrow> submission \<Rightarrow> nat" where
  "principal_bound cfg q =
     effective_principal cfg q + cc_queued_per_principal (api_concurrency (oc_api cfg))"

definition reservation_row ::
  "registry \<Rightarrow> runner_config \<Rightarrow> string \<Rightarrow> string \<Rightarrow> string \<Rightarrow> submission \<Rightarrow> attempt" where
  "reservation_row g runner rid aid digest q =
     \<lparr>at_run_id = rid, at_principal = su_principal q, at_task_id = su_task_id q,
      at_attempt_id = aid, at_preset = pc_alias (su_preset q),
      at_driver_id = rc_driver_id runner, at_runner_instance = pc_runner_ref (su_preset q),
      at_workspace_id = su_workspace_id q, at_request_hash = digest, at_status = Queued,
      at_outcome = None, at_summary = None, at_detail = None, at_verification = None,
      at_usage = None, at_synthetic = runner_synthetic g (pc_runner_ref (su_preset q)),
      at_cached = False, at_created_at = 0, at_updated_at = 0, at_started_at = None,
      at_finished_at = None, at_execution = su_execution q,
      at_model_binding = su_model_binding q\<rparr>"

text \<open>A completion that raced the check is served from the cache after a refused reservation.\<close>

definition refused_reservation ::
  "store \<Rightarrow> submission \<Rightarrow> string \<Rightarrow> core_error \<Rightarrow> core_error + submit_result" where
  "refused_reservation s q digest err =
     (case err of
        EConflict RunNotRetryable _ \<Rightarrow>
          (case (latest_attempt s (su_principal q) (su_task_id q),
                 get_task s (su_principal q) (su_task_id q)) of
             (Some a, Some k) \<Rightarrow>
               if at_status a \<noteq> Completed \<or> tk_request_hash k \<noteq> digest then Inl err
               else if at_preset a \<noteq> pc_alias (su_preset q)
               then Inl (EConflict ModelConflict (Some (at_run_id a)))
               else Inr (SubmitCached (as_cached a))
           | _ \<Rightarrow> Inl err)
      | _ \<Rightarrow> Inl err)"

definition new_active :: "operator_config \<Rightarrow> submission \<Rightarrow> attempt \<Rightarrow> active_run" where
  "new_active cfg q record =
     \<lparr>ar_record = record, ar_messages = su_messages q, ar_wakeup = False,
      ar_cancel_event = False, ar_cancel_requested = False, ar_terminal_status = None,
      ar_last_event_sequence = 0, ar_preset = su_preset q,
      ar_concurrency = effective_principal cfg q, ar_deadline = su_deadline q,
      ar_phase = Waiting\<rparr>"

definition submit ::
  "(hash_payload \<Rightarrow> string) \<Rightarrow> operator_config \<Rightarrow> registry \<Rightarrow> nat \<Rightarrow> string \<Rightarrow> string \<Rightarrow> submission \<Rightarrow>
     ctl \<Rightarrow> (core_error + submit_result) \<times> ctl" where
  "submit sha cfg g now rid aid q c =
     (let s = ct_store c; i = pc_runner_ref (su_preset q); p = su_principal q;
          digest = request_hash sha q
      in case check_existing s q digest of
        Inl e \<Rightarrow> (Inl e, c)
      | Inr (Some a) \<Rightarrow> (Inr (SubmitCached a), c)
      | Inr None \<Rightarrow>
        if \<not> runner_available g i then (Inl ERunnerUnavailable, c)
        else if get_quarantine s i \<noteq> None then (Inl ERunnerQuarantined, c)
        else if ct_runner_out c i \<ge> runner_bound cfg then (Inl EQueueFull, c)
        else if ct_principal_out c p \<ge> principal_bound cfg q then (Inl EQueueFull, c)
        else (case runner_map cfg i of
          None \<Rightarrow> (Inl (EInternal ''KeyError''), c)
        | Some runner \<Rightarrow>
          (case reserve now (reservation_row g runner rid aid digest q)
                  (pc_task_policy (su_preset q)) s of
             Inl e \<Rightarrow> (refused_reservation s q digest (store_exn e), c)
           | Inr s' \<Rightarrow>
             (case get_attempt s' rid of
                None \<Rightarrow> (Inl (EInternal ''AssertionError''), c\<lparr>ct_store := s'\<rparr>)
              | Some record \<Rightarrow>
                (Inr (SubmitStarted record),
                 c\<lparr>ct_store := s',
                   ct_runner_out := (ct_runner_out c)(i := ct_runner_out c i + 1),
                   ct_principal_out := (ct_principal_out c)(p := ct_principal_out c p + 1),
                   ct_active := AList.update rid (new_active cfg q record) (ct_active c)\<rparr>)))))"

section \<open>Finishing a run\<close>

definition validated_terminals :: "status list" where
  "validated_terminals = [Completed, Failed, Cancelled]"

definition reconcile_quarantine :: "string \<Rightarrow> ctl \<Rightarrow> ctl" where
  "reconcile_quarantine r c =
     (case get_attempt (ct_store c) r of
        None \<Rightarrow> c
      | Some a \<Rightarrow>
        (case get_quarantine (ct_store c) (at_runner_instance a) of
           None \<Rightarrow> c
         | Some x \<Rightarrow>
           if qr_run_id x = Some r
           then c\<lparr>ct_store := snd (clear_quarantine (at_runner_instance a) (ct_store c))\<rparr>
           else c))"

definition finish_update ::
  "nat \<Rightarrow> status \<Rightarrow> outcome option \<Rightarrow> string option \<Rightarrow> verification option \<Rightarrow> usage option \<Rightarrow>
     string option \<Rightarrow> attempt_update" where
  "finish_update now st out detail ver us summary =
     no_update\<lparr>up_status := Some st, up_outcome := out, up_detail := detail,
       up_verification := ver, up_usage := us, up_summary := summary,
       up_finished_at := Some now\<rparr>"

definition finish_run :: "nat \<Rightarrow> string \<Rightarrow> attempt_update \<Rightarrow> status \<Rightarrow> ctl \<Rightarrow> core_error + ctl" where
  "finish_run now r u st c =
     bindE (store_update now r u c) (\<lambda>c.
       let c = upd_active r (\<lambda>a. a\<lparr>ar_terminal_status := Some st, ar_wakeup := True\<rparr>) c
       in Inr (if st \<in> set validated_terminals then reconcile_quarantine r c else c))"

text \<open>\<^verbatim>\<open>_finish\<close> with the keyword arguments its callers use.\<close>

definition finish ::
  "nat \<Rightarrow> string \<Rightarrow> status \<Rightarrow> outcome \<Rightarrow> string \<Rightarrow> ctl \<Rightarrow> core_error + ctl" where
  "finish now r st out detail =
     finish_run now r (finish_update now st (Some out) (Some detail) None None None) st"

definition quarantine_run :: "nat \<Rightarrow> string \<Rightarrow> string \<Rightarrow> string \<Rightarrow> ctl \<Rightarrow> ctl" where
  "quarantine_run now i r reason c =
     c\<lparr>ct_store := quarantine_instance now i reason (Some r) (ct_store c)\<rparr>"

definition release_outstanding :: "string \<Rightarrow> string \<Rightarrow> ctl \<Rightarrow> ctl" where
  "release_outstanding i p c =
     c\<lparr>ct_runner_out := (ct_runner_out c)(i := ct_runner_out c i - 1),
       ct_principal_out := (ct_principal_out c)(p := ct_principal_out c p - 1)\<rparr>"

fun phase_acquired :: "phase \<Rightarrow> bool" where
  "phase_acquired (Streaming _) = True"
| "phase_acquired (Closing _ _) = True"
| "phase_acquired _ = False"

text \<open>
  The \<^verbatim>\<open>finally\<close> block of \<^verbatim>\<open>_execute\<close>; \<open>acquired\<close> is its local variable. The \<^verbatim>\<open>ActiveRun\<close> object
  outlives its dictionary entry in the subscribers that hold it.
\<close>

definition end_execute :: "bool \<Rightarrow> string \<Rightarrow> ctl \<Rightarrow> ctl" where
  "end_execute acquired r c =
     (case active_of c r of
        None \<Rightarrow> c
      | Some a \<Rightarrow>
        let i = at_runner_instance (ar_record a); p = at_principal (ar_record a);
            c = (if acquired then release_principal p (release_runner i c) else c);
            c = c\<lparr>ct_active := AList.delete r (ct_active c)\<rparr>;
            c = release_outstanding i p c;
            final = (case ar_terminal_status a of
                       Some st \<Rightarrow> Some st
                     | None \<Rightarrow> map_option at_status (get_attempt (ct_store c) r))
        in c\<lparr>ct_ended := AList.update r (a\<lparr>ar_terminal_status := final, ar_wakeup := True\<rparr>)
                           (ct_ended c)\<rparr>)"

text \<open>The \<^verbatim>\<open>except\<close> clauses of \<^verbatim>\<open>_execute\<close>; an exception of their own goes to \<^verbatim>\<open>finally\<close>.\<close>

definition unknown_and_quarantine ::
  "nat \<Rightarrow> string \<Rightarrow> string \<Rightarrow> string \<Rightarrow> string \<Rightarrow> ctl \<Rightarrow> ctl" where
  "unknown_and_quarantine now i r detail reason c =
     (case finish now r Unknown OutUnknown detail c of
        Inl _ \<Rightarrow> c
      | Inr c' \<Rightarrow> quarantine_run now i r reason c')"

fun handle_exception :: "nat \<Rightarrow> string \<Rightarrow> string \<Rightarrow> exec_exn \<Rightarrow> ctl \<Rightarrow> ctl" where
  "handle_exception now i r TaskCancelled c =
     unknown_and_quarantine now i r ''run task cancelled'' ''run task cancelled'' c"
| "handle_exception now i r (Exn (ERunnerRunRejected code retryable pre)) c =
     (if no_effect code pre
      then (case finish now r Failed Rejected
                   (''runner rejected the run before execution: '' @ code) c of
              Inl _ \<Rightarrow> c | Inr c' \<Rightarrow> c')
      else unknown_and_quarantine now i r (''run failed after execution began: '' @ code)
             (''runner '' @ code) c)"
| "handle_exception now i r (Exn e) c =
     unknown_and_quarantine now i r (''run failed: '' @ exn_name e) (exn_name e) c"

section \<open>Execution, segment by segment\<close>

text \<open>The acquiring task takes the runner slot, or stays in the queue.\<close>

definition acquire_runner :: "operator_config \<Rightarrow> registry \<Rightarrow> string \<Rightarrow> ctl \<Rightarrow> ctl" where
  "acquire_runner cfg g r c =
     (case active_of c r of
        None \<Rightarrow> c
      | Some a \<Rightarrow>
        if ar_phase a \<noteq> Waiting then c
        else
          let i = at_runner_instance (ar_record a); p = at_principal (ar_record a);
              c = principal_sem p (ar_concurrency a) (runner_sem cfg g i c)
          in if sem_free (ct_runner_sems c) i
             then set_phase r HoldRunner
                    (c\<lparr>ct_runner_sems := sem_take i (ct_runner_sems c)\<rparr>)
             else c)"

definition acquire_principal :: "string \<Rightarrow> ctl \<Rightarrow> ctl" where
  "acquire_principal r c =
     (case active_of c r of
        None \<Rightarrow> c
      | Some a \<Rightarrow>
        let p = at_principal (ar_record a)
        in if ar_phase a = HoldRunner \<and> sem_free (ct_principal_sems c) p
           then set_phase r Acquired
                  (c\<lparr>ct_principal_sems := sem_take p (ct_principal_sems c)\<rparr>)
           else c)"

text \<open>The acquiring task failed: \<^verbatim>\<open>TimeoutError\<close> or anything else.\<close>

definition acquire_fails :: "nat \<Rightarrow> bool \<Rightarrow> string \<Rightarrow> ctl \<Rightarrow> ctl" where
  "acquire_fails now timed_out r c =
     (case active_of c r of
        None \<Rightarrow> c
      | Some a \<Rightarrow>
        if ar_phase a \<notin> {Waiting, HoldRunner} then c
        else
          let c = (if ar_phase a = HoldRunner
                   then release_runner (at_runner_instance (ar_record a)) c else c);
              done = (if timed_out
                      then finish now r Failed QueueTimedOut ''queue timeout before dispatch'' c
                      else finish now r Failed Rejected ''dispatch rejected before execution'' c)
          in end_execute False r
               (case done of
                  Inl e \<Rightarrow> handle_exception now (at_runner_instance (ar_record a)) r (Exn e) c
                | Inr c' \<Rightarrow> c'))"

text \<open>The cancel event fired first: the acquiring task is cancelled, nothing was dispatched.\<close>

definition cancelled_in_queue :: "nat \<Rightarrow> string \<Rightarrow> ctl \<Rightarrow> ctl" where
  "cancelled_in_queue now r c =
     (case active_of c r of
        None \<Rightarrow> c
      | Some a \<Rightarrow>
        if ar_phase a \<notin> {Waiting, HoldRunner} \<or> \<not> ar_cancel_event a then c
        else
          let c = (if ar_phase a = HoldRunner
                   then release_runner (at_runner_instance (ar_record a)) c else c)
          in end_execute False r
               (case finish now r Cancelled OutCancelled
                       ''cancelled before driver start; never executed'' c of
                  Inl e \<Rightarrow> handle_exception now (at_runner_instance (ar_record a)) r (Exn e) c
                | Inr c' \<Rightarrow> c'))"

definition mark_starting :: "nat \<Rightarrow> string \<Rightarrow> ctl \<Rightarrow> core_error + ctl" where
  "mark_starting now r c =
     (case get_attempt (ct_store c) r of
        None \<Rightarrow> Inl (EInternal ''AssertionError'')
      | Some a \<Rightarrow>
        if at_status a \<in> {Queued, Reserved, Starting}
        then store_update now r (no_update\<lparr>up_status := Some Starting, up_started_at := Some now\<rparr>) c
        else store_update now r (no_update\<lparr>up_started_at := Some now\<rparr>) c)"

text \<open>
  \<^verbatim>\<open>_execute\<close> resumes with both slots: the quarantine check, \<^verbatim>\<open>_mark_starting\<close>, and into the
  stream. An exception here is handled like one of the stream.
\<close>

definition dispatch :: "nat \<Rightarrow> string \<Rightarrow> ctl \<Rightarrow> ctl" where
  "dispatch now r c =
     (case active_of c r of
        None \<Rightarrow> c
      | Some a \<Rightarrow>
        let i = at_runner_instance (ar_record a)
        in if ar_phase a \<noteq> Acquired then c
           else if get_quarantine (ct_store c) i \<noteq> None
           then end_execute True r
                  (case finish now r Failed Rejected ''runner quarantined before dispatch'' c of
                     Inl e \<Rightarrow> handle_exception now i r (Exn e) c | Inr c' \<Rightarrow> c')
           else (case mark_starting now r c of
                   Inl e \<Rightarrow> end_execute True r (handle_exception now i r (Exn e) c)
                 | Inr c' \<Rightarrow> set_phase r (Streaming start_progress) c'))"

section \<open>The stream\<close>

text \<open>The parameters of the run RPC.\<close>

definition stream_params :: "active_run \<Rightarrow> run_request" where
  "stream_params a =
     (let rec = ar_record a;
          effort = (case at_model_binding rec of None \<Rightarrow> None | Some b \<Rightarrow> be_reasoning_effort b)
      in \<lparr>rq_run_id = at_run_id rec, rq_task_id = at_task_id rec,
          rq_attempt_id = at_attempt_id rec, rq_preset = pc_alias (ar_preset a),
          rq_workspace_id = at_workspace_id rec,
          rq_model_alias = Some (pc_model_id (ar_preset a)),
          rq_messages = ar_messages a, rq_deadline = Some (ar_deadline a),
          rq_execution = at_execution rec, rq_reasoning_effort = effort,
          rq_resolved_model =
            (if effort = None then None
             else map_option be_resolved_model (at_model_binding rec))\<rparr>)"

text \<open>
  \<^verbatim>\<open>len(text.encode("utf-8"))\<close>; the characters of the model are the code points below 256.
\<close>

definition utf8_length :: "string \<Rightarrow> nat" where
  "utf8_length t = sum_list (map (\<lambda>x. if code_of x < 128 then 1 else 2) t)"

fun delta_text :: "event_payload \<Rightarrow> string option" where
  "delta_text (PMessageDelta t) = Some t"
| "delta_text _ = None"

text \<open>
  One turn of the \<^verbatim>\<open>async for\<close>. On an exception the changes made so far stay and the session is
  closed next; the number of events taken, which decides whether a refusal can still count as
  pre-execution, is the one after this event.
\<close>

definition first_event_status :: "nat \<Rightarrow> string \<Rightarrow> bool \<Rightarrow> ctl \<Rightarrow> core_error + ctl" where
  "first_event_status now r is_first c =
     (if \<not> is_first then Inr c
      else (case get_attempt (ct_store c) r of
        None \<Rightarrow> Inl (EInternal ''AssertionError'')
      | Some a \<Rightarrow>
        if at_status a \<in> {Starting, Running}
        then store_update now r (no_update\<lparr>up_status := Some Running\<rparr>) c
        else Inr c))"

definition stream_event :: "operator_config \<Rightarrow> nat \<Rightarrow> string \<Rightarrow> run_event \<Rightarrow> ctl \<Rightarrow> ctl" where
  "stream_event cfg now r e c =
     (case active_of c r of
        None \<Rightarrow> c
      | Some a \<Rightarrow>
        (case ar_phase a of
           Streaming sp \<Rightarrow>
             let lims = api_limits (oc_api cfg);
                 n = sp_events_seen sp + 1;
                 fail = (\<lambda>x. set_phase r (Closing n (Raises (Exn x))))
             in if n > lim_events_per_run lims then fail EUpstreamProtocol c
                else (case append_event r e (ct_store c) of
                  Inl x \<Rightarrow> fail (store_exn x) c
                | Inr s \<Rightarrow>
                  let c = upd_active r (\<lambda>a. a\<lparr>ar_last_event_sequence := ev_sequence e\<rparr>)
                            (c\<lparr>ct_store := s\<rparr>)
                  in (case first_event_status now r (sp_events_seen sp = 0) c of
                    Inl x \<Rightarrow> fail x c
                  | Inr c \<Rightarrow>
                    (case delta_text (ev_payload e) of
                       None \<Rightarrow>
                         set_phase r (Streaming (sp\<lparr>sp_events_seen := n\<rparr>))
                           (upd_active r (\<lambda>a. a\<lparr>ar_wakeup := True\<rparr>) c)
                     | Some t \<Rightarrow>
                       let bytes = sp_output_bytes sp + utf8_length t
                       in if bytes > lim_output_bytes lims then fail EUpstreamProtocol c
                          else set_phase r (Streaming \<lparr>sp_events_seen = n,
                                 sp_output_bytes = bytes, sp_chunks = sp_chunks sp @ [t]\<rparr>)
                               (upd_active r (\<lambda>a. a\<lparr>ar_wakeup := True\<rparr>) c))))
         | _ \<Rightarrow> c))"

fun status_of_result :: "completion_status \<Rightarrow> status" where
  "status_of_result CCompleted = Completed"
| "status_of_result CFailed = Failed"
| "status_of_result CCancelled = Cancelled"
| "status_of_result CUnknown = Unknown"

fun outcome_of_result :: "sdk_outcome \<Rightarrow> outcome" where
  "outcome_of_result OSucceeded = Succeeded"
| "outcome_of_result OPartial = Partial"
| "outcome_of_result OProviderError = ProviderError"
| "outcome_of_result OCancelled = OutCancelled"
| "outcome_of_result OUnknown = OutUnknown"

text \<open>How writing the artifact file goes.\<close>

datatype file_write = FileExists | WriteRaises string | Written string
  \<comment> \<open>the SHA-256 of the bytes\<close>

definition write_artifact ::
  "operator_config \<Rightarrow> nat \<Rightarrow> string \<Rightarrow> string \<Rightarrow> file_write \<Rightarrow> attempt \<Rightarrow> string \<Rightarrow> ctl \<Rightarrow> core_error + ctl"
  where
  "write_artifact cfg now af path w a txt c =
     (if utf8_length txt > lim_artifact_bytes (api_limits (oc_api cfg)) then Inr c
      else (case w of
        FileExists \<Rightarrow> Inr c
      | WriteRaises n \<Rightarrow> Inl (EInternal n)
      | Written sha \<Rightarrow>
        (case add_artifact \<lparr>af_artifact_id = af, af_run_id = at_run_id a,
                af_principal = at_principal a, af_preset = at_preset a,
                af_workspace_id = at_workspace_id a, af_kind = ''text'',
                af_content_type = ''text/plain; charset=utf-8'', af_size = utf8_length txt,
                af_sha256 = sha, af_path = path, af_created_at = now\<rparr> (ct_store c) of
           Inl e \<Rightarrow> Inl (store_exn e)
         | Inr s \<Rightarrow> Inr (c\<lparr>ct_store := s\<rparr>))))"

definition persist_artifact ::
  "operator_config \<Rightarrow> nat \<Rightarrow> string \<Rightarrow> string \<Rightarrow> file_write \<Rightarrow> attempt \<Rightarrow> string \<Rightarrow> ctl \<Rightarrow>
     core_error option \<times> ctl" where
  "persist_artifact cfg now af path w a txt c =
     (case write_artifact cfg now af path w a txt c of
        Inr c' \<Rightarrow> (None, c')
      | Inl x \<Rightarrow>
        (case get_attempt (ct_store c) (at_run_id a) of
           None \<Rightarrow> (Some (EInternal ''AssertionError''), c)
         | Some current \<Rightarrow>
           let note = ''run completed but the result artifact was not persisted ('' @
                        exn_name x @ '')'';
               detail = (case at_detail current of
                           None \<Rightarrow> note
                         | Some d \<Rightarrow> if d = '''' then note else d @ ''; '' @ note)
           in (case store_update now (at_run_id a) (no_update\<lparr>up_detail := Some detail\<rparr>) c of
                 Inl e \<Rightarrow> (Some e, c)
               | Inr c' \<Rightarrow> (None, c'))))"

text \<open>The end of \<^verbatim>\<open>_stream\<close>: what follows the \<^verbatim>\<open>async for\<close>, with \<^verbatim>\<open>session.last_result\<close>.\<close>

definition stream_summary :: "progress \<Rightarrow> string option" where
  "stream_summary sp = (if sp_chunks sp = [] then None else Some (concat (sp_chunks sp)))"

definition unknown_detail :: "string option \<Rightarrow> string" where
  "unknown_detail d = (case d of
     None \<Rightarrow> ''runner reported an unknown terminal''
   | Some t \<Rightarrow> if t = '''' then ''runner reported an unknown terminal'' else t)"

definition stream_terminal ::
  "operator_config \<Rightarrow> nat \<Rightarrow> string \<Rightarrow> string \<Rightarrow> file_write \<Rightarrow> active_run \<Rightarrow> progress \<Rightarrow> run_result \<Rightarrow>
     ctl \<Rightarrow> core_error option \<times> ctl" where
  "stream_terminal cfg now af path w a sp res c =
     (let r = at_run_id (ar_record a); i = at_runner_instance (ar_record a);
          summary = stream_summary sp; st = status_of_result (rr_status res)
      in if st = Unknown then
           (case finish_run now r (finish_update now Unknown (Some OutUnknown)
                    (Some (unknown_detail (rr_detail res))) (Some (rr_verification res))
                    (Some (rr_usage res)) summary) Unknown c of
              Inl e \<Rightarrow> (Some e, c)
            | Inr c' \<Rightarrow> (None, quarantine_run now i r ''unknown terminal'' c'))
         else
           (case finish_run now r (finish_update now st
                    (Some (outcome_of_result (rr_outcome res))) (rr_detail res)
                    (Some (rr_verification res)) (Some (rr_usage res)) summary) st c of
              Inl e \<Rightarrow> (Some e, c)
            | Inr c' \<Rightarrow>
              (case summary of
                 Some t \<Rightarrow>
                   if st = Completed \<and> t \<noteq> ''''
                   then persist_artifact cfg now af path w (ar_record a) t c'
                   else (None, c')
               | None \<Rightarrow> (None, c'))))"

definition stream_end ::
  "operator_config \<Rightarrow> nat \<Rightarrow> string \<Rightarrow> string \<Rightarrow> file_write \<Rightarrow> string \<Rightarrow> run_result option \<Rightarrow> ctl \<Rightarrow> ctl"
  where
  "stream_end cfg now af path w r result c =
     (case active_of c r of
        None \<Rightarrow> c
      | Some a \<Rightarrow>
        (case ar_phase a of
           Streaming sp \<Rightarrow>
             (case result of
                None \<Rightarrow>
                  set_phase r (Closing (sp_events_seen sp) (Raises (Exn EUpstreamProtocol))) c
              | Some res \<Rightarrow>
                (case stream_terminal cfg now af path w a sp res c of
                   (Some e, c') \<Rightarrow> set_phase r (Closing (sp_events_seen sp) (Raises (Exn e))) c'
                 | (None, c') \<Rightarrow> set_phase r (Closing (sp_events_seen sp) Returns) c'))
         | _ \<Rightarrow> c))"

text \<open>
  The session raises, the outer timeout fires (an \<^verbatim>\<open>UpstreamProtocolError\<close>), or the task is
  cancelled, while the stream is suspended.
\<close>

definition stream_raises :: "exec_exn \<Rightarrow> string \<Rightarrow> ctl \<Rightarrow> ctl" where
  "stream_raises e r c =
     (case active_of c r of
        None \<Rightarrow> c
      | Some a \<Rightarrow>
        (case ar_phase a of
           Streaming sp \<Rightarrow> set_phase r (Closing (sp_events_seen sp) (Raises e)) c
         | _ \<Rightarrow> c))"

text \<open>
  \<^verbatim>\<open>await session.aclose()\<close> is over; an exception of its own replaces what was pending.
\<close>

definition close_session :: "nat \<Rightarrow> exec_exn option \<Rightarrow> string \<Rightarrow> ctl \<Rightarrow> ctl" where
  "close_session now failure r c =
     (case active_of c r of
        None \<Rightarrow> c
      | Some a \<Rightarrow>
        (case ar_phase a of
           Closing n pend \<Rightarrow>
             let i = at_runner_instance (ar_record a);
                 pend = (case failure of None \<Rightarrow> pend | Some e \<Rightarrow> Raises e)
             in end_execute True r
                  (case pend of Returns \<Rightarrow> c | Raises e \<Rightarrow> handle_exception now i r e c)
         | _ \<Rightarrow> c))"

text \<open>
  The run's task is cancelled before the stream. Only \<^verbatim>\<open>cancel_wait\<close> is cancelled with it: the
  acquiring task lives on, and slots it already returned are not given back, because \<^verbatim>\<open>acquired\<close>
  is still false.
\<close>

definition task_cancelled_in_queue :: "nat \<Rightarrow> string \<Rightarrow> ctl \<Rightarrow> ctl" where
  "task_cancelled_in_queue now r c =
     (case active_of c r of
        None \<Rightarrow> c
      | Some a \<Rightarrow>
        if ar_phase a \<notin> {Waiting, HoldRunner, Acquired} then c
        else
          let i = at_runner_instance (ar_record a); p = at_principal (ar_record a);
              c = (if ar_phase a = Acquired then c
                   else c\<lparr>ct_orphans := (i, p, ar_phase a = HoldRunner) # ct_orphans c\<rparr>)
          in end_execute False r (handle_exception now i r TaskCancelled c))"

text \<open>An orphaned acquiring task goes on.\<close>

definition orphan_step :: "string \<Rightarrow> string \<Rightarrow> bool \<Rightarrow> bool \<Rightarrow> ctl \<Rightarrow> ctl" where
  "orphan_step i p held timed_out c =
     (if (i, p, held) \<notin> set (ct_orphans c) then c
      else
        let c' = c\<lparr>ct_orphans := remove1 (i, p, held) (ct_orphans c)\<rparr>
        in if timed_out then (if held then release_runner i c' else c')
           else if held then
             (if sem_free (ct_principal_sems c) p
              then c'\<lparr>ct_principal_sems := sem_take p (ct_principal_sems c)\<rparr> else c)
           else
             (if sem_free (ct_runner_sems c) i
              then c'\<lparr>ct_runner_sems := sem_take i (ct_runner_sems c),
                      ct_orphans := (i, p, True) # remove1 (i, p, held) (ct_orphans c)\<rparr>
              else c))"

section \<open>Cancel\<close>

record cancel_view =
  cv_status :: status
  cv_requested :: bool
  cv_confirmed :: bool
  cv_detail :: string

datatype cancel_result = CancelView cancel_view | CancelWaits

definition cancel_view_of :: "status \<Rightarrow> bool \<Rightarrow> bool \<Rightarrow> string \<Rightarrow> core_error + cancel_result" where
  "cancel_view_of st req conf d =
     Inr (CancelView \<lparr>cv_status = st, cv_requested = req, cv_confirmed = conf, cv_detail = d\<rparr>)"

text \<open>\<^verbatim>\<open>_cancel_dispatched\<close> up to its first \<^verbatim>\<open>await\<close>.\<close>

definition begin_dispatched_cancel ::
  "nat \<Rightarrow> attempt \<Rightarrow> ctl \<Rightarrow> (core_error + cancel_result) \<times> ctl" where
  "begin_dispatched_cancel now rec c =
     (let r = at_run_id rec;
          c = upd_active r (\<lambda>a. a\<lparr>ar_cancel_requested := True\<rparr>) c
      in case store_update now r (no_update\<lparr>up_status := Some Cancelling\<rparr>) c of
           Inl e \<Rightarrow> (Inl e, c)
         | Inr c' \<Rightarrow>
           (Inr CancelWaits,
            c'\<lparr>ct_cancels := ct_cancels c' @
                 [(r, DispatchedWait (at_runner_instance rec) ''cancel requested'')]\<rparr>))"

definition cancel :: "nat \<Rightarrow> string \<Rightarrow> string \<Rightarrow> ctl \<Rightarrow> (core_error + cancel_result) \<times> ctl" where
  "cancel now r who c =
     (case get_attempt (ct_store c) r of
        None \<Rightarrow> (Inl ENotFound, c)
      | Some rec \<Rightarrow>
        if at_principal rec \<noteq> who then (Inl ENotFound, c)
        else if at_status rec \<in> {Queued, Reserved} then
          (case active_of c r of
             None \<Rightarrow>
               (case finish now r Cancelled OutCancelled
                       ''cancelled while queued before dispatch'' c of
                  Inl e \<Rightarrow> (Inl e, c)
                | Inr c' \<Rightarrow> (cancel_view_of Cancelled True True ''never executed'', c'))
           | Some _ \<Rightarrow>
             (Inr CancelWaits,
              (upd_active r (\<lambda>a. a\<lparr>ar_cancel_requested := True, ar_cancel_event := True\<rparr>) c)
                \<lparr>ct_cancels := ct_cancels c @ [(r, QueuedWait)]\<rparr>))
        else if at_status rec \<in> {Starting, Running, Cancelling} then begin_dispatched_cancel now rec c
        else (cancel_view_of (at_status rec) False (at_status rec = Cancelled)
                ''run already reached a terminal state'', c))"

text \<open>The wait of a queued cancel is over: the run's task ended, or the cancel deadline passed.\<close>

definition cancel_queued_resumes :: "nat \<Rightarrow> string \<Rightarrow> ctl \<Rightarrow> (core_error + cancel_result) \<times> ctl" where
  "cancel_queued_resumes now r c0 =
     (let c = c0\<lparr>ct_cancels := remove1 (r, QueuedWait) (ct_cancels c0)\<rparr>
      in case get_attempt (ct_store c) r of
           None \<Rightarrow> (Inl (EInternal ''AssertionError''), c)
         | Some cur \<Rightarrow>
           if active_of c r \<noteq> None then
             (if at_status cur \<in> {Starting, Running, Cancelling}
              then begin_dispatched_cancel now cur c
              else if is_terminal (at_status cur)
              then (cancel_view_of (at_status cur) True (at_status cur = Cancelled)
                      ''run reached a terminal state'', c)
              else (cancel_view_of (at_status cur) True False
                      ''queued cancellation not confirmed'', c))
           else (cancel_view_of (at_status cur) True (at_status cur = Cancelled)
                   (if at_status cur = Cancelled then ''cancelled before driver start''
                    else ''not confirmed''), c))"

text \<open>
  The driver's cancel call returned (with the detail it gave, or the name of what it raised) and
  the wait for the run's task is over.
\<close>

datatype driver_cancel = DriverDetail "string option" | DriverRaised string

fun cancel_detail :: "string \<Rightarrow> driver_cancel \<Rightarrow> string" where
  "cancel_detail d (DriverDetail None) = d"
| "cancel_detail d (DriverDetail (Some t)) = (if t = '''' then d else t)"
| "cancel_detail d (DriverRaised n) = ''cancel call failed: '' @ n"

definition cancel_dispatched_resumes ::
  "nat \<Rightarrow> string \<Rightarrow> string \<Rightarrow> string \<Rightarrow> driver_cancel \<Rightarrow> ctl \<Rightarrow> (core_error + cancel_result) \<times> ctl" where
  "cancel_dispatched_resumes now r i d0 drv c0 =
     (let c = c0\<lparr>ct_cancels := remove1 (r, DispatchedWait i d0) (ct_cancels c0)\<rparr>;
          detail = cancel_detail d0 drv
      in case get_attempt (ct_store c) r of
           None \<Rightarrow> (Inl (EInternal ''AssertionError''), c)
         | Some final \<Rightarrow>
           if is_terminal (at_status final)
           then (cancel_view_of (at_status final) True (at_status final = Cancelled) detail, c)
           else (case finish now r Unknown OutUnknown
                        ''cancellation not confirmed; execution outcome unknown'' c of
                   Inl e \<Rightarrow> (Inl e, c)
                 | Inr c' \<Rightarrow>
                   (cancel_view_of Unknown True False detail,
                    quarantine_run now i r ''cancellation not confirmed'' c')))"

section \<open>Reads\<close>

definition owned_attempt :: "ctl \<Rightarrow> string \<Rightarrow> string \<Rightarrow> core_error + attempt" where
  "owned_attempt c r who =
     (case get_attempt (ct_store c) r of
        None \<Rightarrow> Inl ENotFound
      | Some a \<Rightarrow> if at_principal a \<noteq> who then Inl ENotFound else Inr a)"

definition events_of ::
  "operator_config \<Rightarrow> ctl \<Rightarrow> string \<Rightarrow> string \<Rightarrow> nat \<Rightarrow> nat \<Rightarrow> core_error + attempt \<times> event_row list"
  where
  "events_of cfg c r who after n =
     bindE (owned_attempt c r who) (\<lambda>a.
       Inr (a, list_events (ct_store c) r after
                 (min n (lim_events_returned (api_limits (oc_api cfg))))))"

definition owned_artifact :: "ctl \<Rightarrow> string \<Rightarrow> string \<Rightarrow> core_error + artifact" where
  "owned_artifact c i who =
     (case get_artifact (ct_store c) i of
        None \<Rightarrow> Inl ENotFound
      | Some x \<Rightarrow> if af_principal x \<noteq> who then Inl ENotFound else Inr x)"

section \<open>Restart\<close>

text \<open>The process ends at any point and a new one initializes the same store.\<close>

definition restart :: "nat \<Rightarrow> ctl \<Rightarrow> ctl" where
  "restart now c = initial_ctl (snd (reconcile_restart now (ct_store c)))"

end
