(* ===== verification/StoreProps.thy ===== *)
theory StoreProps
  imports CoreStore "HOL-Library.Multiset"
begin

text \<open>
  The well-formedness invariant of the API store and its preservation by every operation; the
  admission rule of \<^verbatim>\<open>reserve\<close> as an equivalence; restart reconciliation; ordering and paging of
  the durable event log.
\<close>

section \<open>The invariant\<close>

text \<open>
  Retry safety as a partial unique index: per logical task, at most one attempt is not proven
  pre-execution.
\<close>

definition execution_index_ok :: "attempt list \<Rightarrow> bool" where
  "execution_index_ok = index_ok (\<lambda>a. \<not> proven a) at_key"

definition tasks_bound :: "store \<Rightarrow> bool" where
  "tasks_bound s \<longleftrightarrow>
     (\<forall>a\<in>set (st_attempts s). \<exists>k. st_tasks s (at_key a) = Some k \<and>
        tk_request_hash k = at_request_hash a)"

definition events_keyed :: "store \<Rightarrow> bool" where
  "events_keyed s \<longleftrightarrow> distinct (map (\<lambda>x. (er_run_id x, er_sequence x)) (st_events s))"

definition store_ok :: "store \<Rightarrow> bool" where
  "store_ok s \<longleftrightarrow>
     attempts_constraints (st_attempts s) \<and> execution_index_ok (st_attempts s) \<and>
     tasks_bound s \<and> events_keyed s \<and> distinct (map af_artifact_id (st_artifacts s)) \<and>
     distinct (map fst (st_quarantine s))"

lemma store_ok_empty [simp]: "store_ok empty_store"
  by (simp add: store_ok_def empty_store_def attempts_constraints_def lock_index_ok_def
      execution_index_ok_def tasks_bound_def events_keyed_def)

lemma store_okD:
  assumes "store_ok s"
  shows "attempts_constraints (st_attempts s)" "execution_index_ok (st_attempts s)"
    "tasks_bound s" "events_keyed s" "distinct (map at_run_id (st_attempts s))"
    "lock_index_ok (st_attempts s)" "distinct (map at_attempt_id (st_attempts s))"
  using assms by (auto simp: store_ok_def attempts_constraints_def)

lemma get_attempt_unique:
  assumes "store_ok s" "a \<in> set (st_attempts s)"
  shows "get_attempt s (at_run_id a) = Some a"
proof -
  obtain b where b: "get_attempt s (at_run_id a) = Some b"
    using assms(2) by (cases "get_attempt s (at_run_id a)") (auto simp: get_attempt_def find_None_iff)
  then have "b \<in> set (st_attempts s)" "at_run_id b = at_run_id a"
    by (auto dest: get_attempt_SomeD)
  then have "b = a"
    using store_okD(5) [OF assms(1)] assms(2) by (meson distinct_map inj_onD)
  with b show ?thesis by simp
qed

lemma one_unproven_attempt:
  assumes "store_ok s" "a \<in> set (st_attempts s)" "b \<in> set (st_attempts s)"
    "\<not> proven a" "\<not> proven b" "at_key a = at_key b"
  shows "a = b"
  using index_ok_unique [of "\<lambda>a. \<not> proven a" at_key "st_attempts s" a b] assms store_okD(2)
  by (auto simp: execution_index_ok_def)

section \<open>Preservation\<close>

lemma reserve_store_ok [inv_preserved]:
  assumes ok: "store_ok s" and res: "reserve now row policy s = Inr s'"
  shows "store_ok s'"
proof -
  let ?new = "row\<lparr>at_verification := None, at_usage := None, at_created_at := now,
                at_updated_at := now, at_started_at := None\<rparr>"
  note D = reserve_InrD [OF res]
  have key: "at_key ?new = at_key row"
    by (simp add: at_key_def)
  have "execution_index_ok (st_attempts s')"
    using store_okD(2) [OF ok] D(1)
    unfolding execution_index_ok_def D(3) index_ok_snoc key by auto
  moreover have "st_tasks s k = Some x \<Longrightarrow> st_tasks s' k = Some x" for k x
    using res by (auto simp: reserve_def Let_def get_task_def split: if_splits option.splits)
  then have "tasks_bound s'"
    using store_okD(3) [OF ok] D(5) key
    unfolding tasks_bound_def D(3) by (fastforce simp: get_task_def at_key_def)
  ultimately show ?thesis
    using ok D(4,6,7,8) by (simp add: store_ok_def events_keyed_def)
qed

lemma set_attempt_InrD:
  assumes "set_attempt now r u s = Inr s'"
  shows "st_attempts s' = map (update_row r now u) (st_attempts s)"
    and "lock_index_ok (st_attempts s')"
    and "st_tasks s' = st_tasks s" and "st_events s' = st_events s"
    and "st_artifacts s' = st_artifacts s" and "st_quarantine s' = st_quarantine s"
  using assms by (auto simp: set_attempt_def Let_def split: if_splits)

lemma map_update_same [simp]:
  "map at_run_id (map (update_row r now u) rs) = map at_run_id rs"
  "map at_attempt_id (map (update_row r now u) rs) = map at_attempt_id rs"
  by simp_all

text \<open>
  The caller's obligation: the updated attempt was not yet proven pre-execution, or the update
  leaves it proven.
\<close>

lemma set_attempt_store_ok [inv_preserved]:
  assumes ok: "store_ok s" and upd: "set_attempt now r u s = Inr s'"
    and target: "\<And>a. a \<in> set (st_attempts s) \<Longrightarrow> at_run_id a = r \<Longrightarrow>
      proven a \<Longrightarrow> proven (apply_update now u a)"
  shows "store_ok s'"
proof -
  note D = set_attempt_InrD [OF upd]
  have "execution_index_ok (st_attempts s')"
    unfolding D(1) execution_index_ok_def
    by (rule index_ok_map_shrink)
      (use store_okD(2) [OF ok] target in \<open>auto simp: execution_index_ok_def update_row_def
          split: if_splits\<close>, auto simp: at_key_def apply_update_def)
  moreover have "attempts_constraints (st_attempts s')"
    using D(2) store_okD(5,7) [OF ok] unfolding attempts_constraints_def D(1)
    by (simp add: comp_def)
  moreover have "tasks_bound s'"
    using store_okD(3) [OF ok] by (simp add: tasks_bound_def D)
  ultimately show ?thesis
    using ok by (simp add: store_ok_def events_keyed_def D)
qed

text \<open>An update that does not make its target live cannot violate the index.\<close>

lemma set_attempt_total:
  assumes ok: "store_ok s"
    and "\<And>a. a \<in> set (st_attempts s) \<Longrightarrow> at_run_id a = r \<Longrightarrow>
      is_lock (at_status (apply_update now u a)) \<Longrightarrow> is_lock (at_status a)"
  shows "\<exists>s'. set_attempt now r u s = Inr s'"
proof -
  have "lock_index_ok (map (update_row r now u) (st_attempts s))"
    unfolding lock_index_ok_def
    by (rule index_ok_map_shrink)
      (use store_okD(6) [OF ok] assms(2) in \<open>auto simp: lock_index_ok_def update_row_def
          split: if_splits\<close>, auto simp: at_key_def apply_update_def)
  then show ?thesis
    by (simp add: set_attempt_def Let_def)
qed

lemma reconcile_store_ok [inv_preserved]:
  assumes "store_ok s"
  shows "store_ok (snd (reconcile_restart now s))"
proof -
  let ?rs = "map (reconcile_row now) (st_attempts s)"
  have "lock_index_ok ?rs"
    unfolding lock_index_ok_def
    by (rule index_ok_map_shrink)
      (use store_okD(6) [OF assms] reconcile_row_lock in \<open>auto simp: lock_index_ok_def\<close>)
  moreover have "execution_index_ok ?rs"
    unfolding execution_index_ok_def
    by (rule index_ok_map_shrink)
      (use store_okD(2) [OF assms] reconcile_row_proven in
        \<open>auto simp: execution_index_ok_def simp del: reconcile_row_frames(4)\<close>)
  moreover have "at_request_hash (reconcile_row now a) = at_request_hash a" for a
    by (simp add: reconcile_row_def)
  ultimately show ?thesis
    using assms
    by (simp add: store_ok_def reconcile_restart_def attempts_constraints_def tasks_bound_def
        events_keyed_def comp_def)
qed

lemma append_event_InrD:
  assumes "append_event r e s = Inr s'"
  shows "st_events s' = st_events s @
           [\<lparr>er_run_id = r, er_sequence = ev_sequence e, er_kind = ev_kind e, er_event = e,
             er_synthetic = ev_synthetic e, er_timestamp = ev_timestamp e\<rparr>]"
    and "(r, ev_sequence e) \<notin> (\<lambda>x. (er_run_id x, er_sequence x)) ` set (st_events s)"
    and "st_attempts s' = st_attempts s" and "st_tasks s' = st_tasks s"
    and "st_artifacts s' = st_artifacts s" and "st_quarantine s' = st_quarantine s"
  using assms by (auto simp: append_event_def split: if_splits)

lemma append_event_store_ok [inv_preserved]:
  assumes ok: "store_ok s" and app: "append_event r e s = Inr s'"
  shows "store_ok s'"
proof -
  note D = append_event_InrD [OF app]
  have "events_keyed s'"
    using D(2) store_okD(4) [OF ok] by (auto simp: events_keyed_def D(1))
  then show ?thesis
    using ok by (simp add: store_ok_def tasks_bound_def D)
qed

lemma add_artifact_store_ok [inv_preserved]:
  assumes "store_ok s" "add_artifact af s = Inr s'"
  shows "store_ok s'"
  using assms
  by (auto simp: add_artifact_def store_ok_def tasks_bound_def events_keyed_def split: if_splits)

lemma quarantine_store_ok [inv_preserved]:
  "store_ok s \<Longrightarrow> store_ok (quarantine_instance now i reason r s)"
  by (simp add: store_ok_def quarantine_instance_def tasks_bound_def events_keyed_def
      distinct_update)

lemma clear_quarantine_store_ok [inv_preserved]:
  "store_ok s \<Longrightarrow> store_ok (snd (clear_quarantine i s))"
  by (simp add: store_ok_def clear_quarantine_def tasks_bound_def events_keyed_def
      distinct_delete)

lemmas store_ops_ok = reserve_store_ok set_attempt_store_ok reconcile_store_ok
  append_event_store_ok add_artifact_store_ok quarantine_store_ok clear_quarantine_store_ok

section \<open>Restart\<close>

lemma reconcile_inactive:
  "a \<in> set (st_attempts (snd (reconcile_restart now s))) \<Longrightarrow> \<not> is_active (at_status a)"
  using reconcile_row_inactive by (auto simp: reconcile_restart_def)

lemma reconcile_idle: "fst (reconcile_restart now' (snd (reconcile_restart now s))) = 0"
  using reconcile_row_inactive by (auto simp: reconcile_restart_def)

section \<open>The event log\<close>

definition log_of :: "store \<Rightarrow> string \<Rightarrow> event_row list" where
  "log_of s r = sort_key er_sequence (filter (\<lambda>x. er_run_id x = r) (st_events s))"

lemma sort_key_filter: "sort_key f (filter P xs) = filter P (sort_key f xs)"
  by (simp add: filter_sort)

lemma list_events_log: "list_events s r after n = take n (filter (\<lambda>x. after < er_sequence x) (log_of s r))"
proof -
  have "(\<lambda>x. er_run_id x = r \<and> after < er_sequence x) =
      (\<lambda>x. after < er_sequence x \<and> er_run_id x = r)" by auto
  then have "sort_key er_sequence
       (filter (\<lambda>x. er_run_id x = r \<and> after < er_sequence x) (st_events s)) =
      filter (\<lambda>x. after < er_sequence x) (log_of s r)"
    unfolding log_of_def by (simp add: sort_key_filter [symmetric])
  then show ?thesis by (simp add: list_events_def)
qed

lemma log_of_sorted:
  assumes "events_keyed s"
  shows "sorted_wrt (<) (map er_sequence (log_of s r))"
proof -
  have "distinct (map (\<lambda>x. (er_run_id x, er_sequence x)) (filter (\<lambda>x. er_run_id x = r) (st_events s)))"
    using assms unfolding events_keyed_def by (rule distinct_map_filter)
  moreover have "map (\<lambda>x. (er_run_id x, er_sequence x)) (filter (\<lambda>x. er_run_id x = r) (st_events s)) =
      map (Pair r) (map er_sequence (filter (\<lambda>x. er_run_id x = r) (st_events s)))"
    by (induction "st_events s") auto
  ultimately have "distinct (map er_sequence (filter (\<lambda>x. er_run_id x = r) (st_events s)))"
    by (simp only: distinct_map) 
  moreover have "mset (map er_sequence (log_of s r)) =
      mset (map er_sequence (filter (\<lambda>x. er_run_id x = r) (st_events s)))"
    by (simp add: log_of_def)
  ultimately have "distinct (map er_sequence (log_of s r))"
    using mset_eq_imp_distinct_iff by blast
  then show ?thesis
    by (simp add: log_of_def strict_sorted_iff)
qed

lemma insort_key_before:
  assumes "f y < f x"
  shows "insort_key f y (xs @ [x]) = insort_key f y xs @ [x]"
  using assms by (induction xs) auto

lemma sort_key_snoc:
  assumes "\<And>y. y \<in> set xs \<Longrightarrow> f y < f x"
  shows "sort_key f (xs @ [x]) = sort_key f xs @ [x]"
  using assms by (induction xs) (auto simp: insort_key_before)

lemma log_of_append:
  assumes "append_event r e s = Inr s'" "\<And>x. x \<in> set (log_of s r) \<Longrightarrow> er_sequence x < ev_sequence e"
  shows "map er_event (log_of s' r) = map er_event (log_of s r) @ [e]"
proof -
  note D = append_event_InrD(1) [OF assms(1)]
  let ?row = "\<lparr>er_run_id = r, er_sequence = ev_sequence e, er_kind = ev_kind e, er_event = e,
             er_synthetic = ev_synthetic e, er_timestamp = ev_timestamp e\<rparr>"
  have small: "\<And>x. x \<in> set (filter (\<lambda>x. er_run_id x = r) (st_events s)) \<Longrightarrow> er_sequence x < ev_sequence e"
    using assms(2) by (simp add: log_of_def)
  have "sort_key er_sequence (filter (\<lambda>x. er_run_id x = r) (st_events s) @ [?row]) =
      sort_key er_sequence (filter (\<lambda>x. er_run_id x = r) (st_events s)) @ [?row]"
    by (rule sort_key_snoc) (use small in simp)
  then show ?thesis
    by (simp add: log_of_def D)
qed

end
