(* ===== verification/ControllerInv.thy ===== *)
theory ControllerInv
  imports Controller StoreProps
begin

text \<open>
  The invariant that ties the in-process state of the controller to the durable store. It is
  stated with a set of exempt runs, because a segment passes through states in which the row of
  the run it works on has moved on and its phase has not.
\<close>

section \<open>Rows\<close>

abbreviation row :: "ctl \<Rightarrow> string \<Rightarrow> attempt option" where
  "row c r \<equiv> get_attempt (ct_store c) r"

definition has_events :: "ctl \<Rightarrow> string \<Rightarrow> bool" where
  "has_events c r \<longleftrightarrow> r \<in> er_run_id ` set (st_events (ct_store c))"

abbreviation active_runs :: "ctl \<Rightarrow> string set" where
  "active_runs c \<equiv> fst ` set (ct_active c)"

lemma get_attempt_run_id: "get_attempt s r = Some a \<Longrightarrow> at_run_id a = r"
  by (auto dest: get_attempt_SomeD)

lemma apply_update_fields [simp]:
  "at_run_id (apply_update now u a) = at_run_id a"
  "at_principal (apply_update now u a) = at_principal a"
  "at_task_id (apply_update now u a) = at_task_id a"
  "at_key (apply_update now u a) = at_key a"
  "at_runner_instance (apply_update now u a) = at_runner_instance a"
  "at_status (apply_update now u a) = override (up_status u) (at_status a)"
  "at_outcome (apply_update now u a) = orelse (up_outcome u) (at_outcome a)"
  "at_started_at (apply_update now u a) = orelse (up_started_at u) (at_started_at a)"
  by (simp_all add: apply_update_def at_key_def)

lemma get_attempt_update:
  "set_attempt now r u s = Inr s' \<Longrightarrow>
     get_attempt s' r' = (if r' = r then map_option (apply_update now u) (get_attempt s r)
                          else get_attempt s r')"
proof -
  assume "set_attempt now r u s = Inr s'"
  then have "st_attempts s' = map (update_row r now u) (st_attempts s)"
    by (rule set_attempt_InrD)
  moreover have "List.find (\<lambda>a. at_run_id a = r') (map (update_row r now u) rs) =
      (if r' = r then map_option (apply_update now u) (List.find (\<lambda>a. at_run_id a = r) rs)
       else List.find (\<lambda>a. at_run_id a = r') rs)" for rs
    by (induction rs) (auto simp: update_row_def)
  ultimately show ?thesis
    by (simp add: get_attempt_def)
qed

lemma no_update_fields [simp]:
  "up_status no_update = None" "up_outcome no_update = None" "up_started_at no_update = None"
  by (simp_all add: no_update_def)

lemma orelse_not_None: "orelse x y \<noteq> None \<longleftrightarrow> x \<noteq> None \<or> y \<noteq> None"
  by (cases x) simp_all

section \<open>The invariant\<close>

fun row_in_phase :: "phase \<Rightarrow> attempt \<Rightarrow> bool" where
  "row_in_phase (Streaming _) a \<longleftrightarrow>
     at_started_at a \<noteq> None \<and> at_status a \<in> {Starting, Running, Cancelling, Unknown}"
| "row_in_phase (Closing _ Returns) a \<longleftrightarrow>
     at_started_at a \<noteq> None \<and> \<not> proven a \<and> is_terminal (at_status a)"
| "row_in_phase (Closing _ (Raises _)) a \<longleftrightarrow>
     at_started_at a \<noteq> None \<and> \<not> proven a \<and> at_status a \<notin> {Queued, Reserved}"
| "row_in_phase _ a \<longleftrightarrow> at_status a = Queued \<and> at_started_at a = None"

fun pre_rejection :: "exec_exn \<Rightarrow> bool" where
  "pre_rejection (Exn (ERunnerRunRejected code rt pre)) = pre"
| "pre_rejection _ = False"

text \<open>A refusal counts as pre-execution only while no event of the run is stored.\<close>

fun silent :: "phase \<Rightarrow> bool" where
  "silent (Streaming sp) \<longleftrightarrow> sp_events_seen sp = 0"
| "silent (Closing n pend) \<longleftrightarrow> n = 0"
| "silent _ \<longleftrightarrow> True"

fun pending_ok :: "phase \<Rightarrow> bool" where
  "pending_ok (Closing n (Raises e)) \<longleftrightarrow> (pre_rejection e \<longrightarrow> n = 0)"
| "pending_ok _ \<longleftrightarrow> True"

definition link_ok :: "ctl \<Rightarrow> string \<Rightarrow> active_run \<Rightarrow> bool" where
  "link_ok c r a \<longleftrightarrow>
     (\<exists>x. row c r = Some x \<and> at_run_id (ar_record a) = r \<and>
        at_principal (ar_record a) = at_principal x \<and>
        at_runner_instance (ar_record a) = at_runner_instance x)"

definition run_ok :: "ctl \<Rightarrow> string \<Rightarrow> phase \<Rightarrow> bool" where
  "run_ok c r ph \<longleftrightarrow>
     (\<exists>x. row c r = Some x \<and> row_in_phase ph x) \<and> (silent ph \<longrightarrow> \<not> has_events c r) \<and> pending_ok ph"

definition cancel_ok :: "ctl \<Rightarrow> string \<times> cancel_wait \<Rightarrow> bool" where
  "cancel_ok c w \<longleftrightarrow>
     (case w of (r, QueuedWait) \<Rightarrow> True
      | (r, DispatchedWait i d) \<Rightarrow>
          (\<exists>x. row c r = Some x \<and> at_started_at x \<noteq> None \<and> at_runner_instance x = i))"

definition core_ok :: "string set \<Rightarrow> ctl \<Rightarrow> bool" where
  "core_ok X c \<longleftrightarrow>
     store_ok (ct_store c) \<and> distinct (map fst (ct_active c)) \<and>
     (\<forall>r a. active_of c r = Some a \<longrightarrow> link_ok c r a \<and> (r \<notin> X \<longrightarrow> run_ok c r (ar_phase a))) \<and>
     (\<forall>r x. row c r = Some x \<longrightarrow> r \<notin> active_runs c \<longrightarrow> is_terminal (at_status x)) \<and>
     (\<forall>r. has_events c r \<longrightarrow> (\<exists>x. row c r = Some x \<and> \<not> proven x)) \<and>
     (\<forall>w\<in>set (ct_cancels c). cancel_ok c w)"

lemma core_okD:
  assumes "core_ok X c"
  shows "store_ok (ct_store c)" "distinct (map fst (ct_active c))"
    and "\<And>r a. active_of c r = Some a \<Longrightarrow> link_ok c r a"
    and "\<And>r a. active_of c r = Some a \<Longrightarrow> r \<notin> X \<Longrightarrow> run_ok c r (ar_phase a)"
    and "\<And>r x. row c r = Some x \<Longrightarrow> r \<notin> active_runs c \<Longrightarrow> is_terminal (at_status x)"
    and "\<And>r. has_events c r \<Longrightarrow> \<exists>x. row c r = Some x \<and> \<not> proven x"
    and "\<And>w. w \<in> set (ct_cancels c) \<Longrightarrow> cancel_ok c w"
  using assms unfolding core_ok_def by blast+

lemma core_ok_mono: "core_ok X c \<Longrightarrow> X \<subseteq> Y \<Longrightarrow> core_ok Y c"
  unfolding core_ok_def by blast

lemma active_of_None: "active_of c r = None \<longleftrightarrow> r \<notin> active_runs c"
  by (simp add: active_of_def map_of_eq_None_iff)

lemma active_of_in: "active_of c r = Some a \<Longrightarrow> r \<in> active_runs c"
  using active_of_None [of c r] by auto

section \<open>Moving between states\<close>

text \<open>
  Two states that differ at most in the row and in the bookkeeping of one run \<open>r\<close>, and in
  components the invariant does not mention.
\<close>

definition same_but :: "string \<Rightarrow> ctl \<Rightarrow> ctl \<Rightarrow> bool" where
  "same_but r c c' \<longleftrightarrow>
     map fst (ct_active c') = map fst (ct_active c) \<and>
     (\<forall>r'. r' \<noteq> r \<longrightarrow> active_of c' r' = active_of c r' \<and> row c' r' = row c r') \<and>
     map_option ar_record (active_of c' r) = map_option ar_record (active_of c r) \<and>
     map_option ar_phase (active_of c' r) = map_option ar_phase (active_of c r) \<and>
     st_events (ct_store c') = st_events (ct_store c) \<and>
     set (ct_cancels c') = set (ct_cancels c) \<and>
     ct_runner_sems c' = ct_runner_sems c \<and> ct_principal_sems c' = ct_principal_sems c \<and>
     ct_runner_out c' = ct_runner_out c \<and> ct_principal_out c' = ct_principal_out c \<and>
     ct_orphans c' = ct_orphans c"

lemma same_but_refl [simp]: "same_but r c c"
  by (simp add: same_but_def)

lemma same_but_trans: "same_but r c c' \<Longrightarrow> same_but r c' c'' \<Longrightarrow> same_but r c c''"
  by (simp add: same_but_def)

lemma same_but_active_runs: "same_but r c c' \<Longrightarrow> active_runs c' = active_runs c"
  by (metis same_but_def set_map)

lemma same_but_events: "same_but r c c' \<Longrightarrow> has_events c' = has_events c"
  by (rule ext) (simp add: same_but_def has_events_def)

lemma core_ok_same_but:
  assumes ok: "core_ok X c" and same: "same_but r c c'" and st: "store_ok (ct_store c')"
    and r: "row c r = Some x" "row c' r = Some x'"
    and frame: "at_principal x' = at_principal x" "at_runner_instance x' = at_runner_instance x"
    and started: "at_started_at x \<noteq> None \<Longrightarrow> at_started_at x' \<noteq> None"
    and events: "has_events c r \<Longrightarrow> \<not> proven x'"
    and exempt: "r \<in> active_runs c \<and> r \<in> X \<or> x' = x"
  shows "core_ok X c'"
proof -
  have keys: "active_runs c' = active_runs c" and ev: "has_events c' = has_events c"
    using same same_but_active_runs same_but_events by auto
  have "link_ok c' r' a \<and> (r' \<notin> X \<longrightarrow> run_ok c' r' (ar_phase a))"
    if a: "active_of c' r' = Some a" for r' a
  proof (cases "r' = r")
    case False
    then have "active_of c r' = Some a" "row c' r' = row c r'"
      using same a by (auto simp: same_but_def)
    then show ?thesis
      using core_okD(3,4) [OF ok] by (auto simp: link_ok_def run_ok_def ev)
  next
    case True
    then obtain a0 where a0: "active_of c r = Some a0" "ar_record a0 = ar_record a"
      "ar_phase a0 = ar_phase a"
      using same a by (cases "active_of c r") (auto simp: same_but_def)
    have "link_ok c' r a"
      using core_okD(3) [OF ok a0(1)] r frame a0(2) by (auto simp: link_ok_def)
    moreover have "run_ok c' r (ar_phase a)" if "r \<notin> X"
      using core_okD(4) [OF ok a0(1) that] r exempt that a0(3) by (auto simp: run_ok_def ev)
    ultimately show ?thesis using True by blast
  qed
  moreover have "is_terminal (at_status y)" if "row c' r' = Some y" "r' \<notin> active_runs c'" for r' y
  proof (cases "r' = r")
    case False
    then show ?thesis
      using same that core_okD(5) [OF ok, of r' y] keys by (simp add: same_but_def)
  next
    case True
    then show ?thesis
      using that core_okD(5) [OF ok r(1)] exempt keys r by auto
  qed
  moreover have "\<exists>y. row c' r' = Some y \<and> \<not> proven y" if "has_events c' r'" for r'
    using core_okD(6) [OF ok, of r'] that same r events ev
    by (cases "r' = r") (auto simp: same_but_def)
  moreover have "cancel_ok c' w" if "w \<in> set (ct_cancels c')" for w
  proof -
    have "cancel_ok c w"
      using core_okD(7) [OF ok] that same by (auto simp: same_but_def)
    then show ?thesis
      using same r frame started
      by (cases "fst w = r") (auto simp: cancel_ok_def same_but_def split: prod.splits cancel_wait.splits)
  qed
  ultimately show ?thesis
    using st core_okD(2) [OF ok] same unfolding core_ok_def same_but_def by auto
qed

section \<open>Updates of the active run\<close>

lemma active_of_put [simp]:
  "active_of (put_active r a c) r' = (if r' = r then Some a else active_of c r')"
  by (simp add: active_of_def put_active_def update_conv')

lemma active_of_upd:
  "active_of (upd_active r f c) r' =
     (if r' = r then map_option f (active_of c r) else active_of c r')"
  by (simp add: upd_active_def split: option.splits)

lemma upd_active_frames [simp]:
  "ct_store (upd_active r f c) = ct_store c" "ct_cancels (upd_active r f c) = ct_cancels c"
  "ct_runner_sems (upd_active r f c) = ct_runner_sems c"
  "ct_principal_sems (upd_active r f c) = ct_principal_sems c"
  "ct_runner_out (upd_active r f c) = ct_runner_out c"
  "ct_principal_out (upd_active r f c) = ct_principal_out c"
  "ct_orphans (upd_active r f c) = ct_orphans c"
  by (simp_all add: upd_active_def put_active_def split: option.splits)

lemma update_keys: "map_of xs r = Some a \<Longrightarrow> map fst (AList.update r b xs) = map fst xs"
  by (induction xs) (auto split: if_splits)

lemma upd_active_keys [simp]: "map fst (ct_active (upd_active r f c)) = map fst (ct_active c)"
  by (auto simp: upd_active_def put_active_def active_of_def update_keys split: option.splits)

lemma upd_active_runs [simp]: "active_runs (upd_active r f c) = active_runs c"
  by (metis upd_active_keys set_map)

lemma same_but_upd:
  assumes "\<And>a. ar_record (f a) = ar_record a" "\<And>a. ar_phase (f a) = ar_phase a"
  shows "same_but r c (upd_active r f c)"
  using assms by (simp add: same_but_def active_of_upd option.map_comp comp_def)

lemma same_but_store:
  assumes "\<And>r'. r' \<noteq> r \<Longrightarrow> get_attempt s r' = row c r'" "st_events s = st_events (ct_store c)"
  shows "same_but r c (c\<lparr>ct_store := s\<rparr>)"
  using assms by (simp add: same_but_def active_of_def)

lemma set_phase_frames [simp]:
  "ct_store (set_phase r ph c) = ct_store c" "ct_cancels (set_phase r ph c) = ct_cancels c"
  "ct_runner_sems (set_phase r ph c) = ct_runner_sems c"
  "ct_principal_sems (set_phase r ph c) = ct_principal_sems c"
  "ct_runner_out (set_phase r ph c) = ct_runner_out c"
  "ct_principal_out (set_phase r ph c) = ct_principal_out c"
  "ct_orphans (set_phase r ph c) = ct_orphans c"
  "map fst (ct_active (set_phase r ph c)) = map fst (ct_active c)"
  "active_runs (set_phase r ph c) = active_runs c"
  "has_events (set_phase r ph c) = has_events c"
  by (simp_all add: set_phase_def has_events_def fun_eq_iff)

lemma active_of_set_phase:
  "active_of (set_phase r ph c) r' =
     (if r' = r then map_option (\<lambda>a. a\<lparr>ar_phase := ph\<rparr>) (active_of c r) else active_of c r')"
  by (simp add: set_phase_def active_of_upd)

lemma cancel_ok_rows: "ct_store c' = ct_store c \<Longrightarrow> cancel_ok c' = cancel_ok c"
  by (rule ext) (simp add: cancel_ok_def split: prod.splits cancel_wait.splits)

lemma set_phase_core_ok:
  assumes ok: "core_ok {r} c" and ph: "run_ok c r ph"
  shows "core_ok {} (set_phase r ph c)"
proof -
  have "link_ok (set_phase r ph c) r' a \<and> run_ok (set_phase r ph c) r' (ar_phase a)"
    if a: "active_of (set_phase r ph c) r' = Some a" for r' a
  proof (cases "r' = r")
    case True
    then obtain a0 where "active_of c r = Some a0" "a = a0\<lparr>ar_phase := ph\<rparr>"
      using a by (auto simp: active_of_set_phase)
    then show ?thesis
      using core_okD(3) [OF ok, of r a0] ph True by (simp add: link_ok_def run_ok_def)
  next
    case False
    then show ?thesis
      using a core_okD(3,4) [OF ok, of r' a]
      by (simp add: active_of_set_phase link_ok_def run_ok_def)
  qed
  then show ?thesis
    using core_okD(1,2,5,6,7) [OF ok] cancel_ok_rows [of "set_phase r ph c" c]
    unfolding core_ok_def by simp
qed

section \<open>Writing the row of the run\<close>

text \<open>
  An attempt that may have executed is the only unproven one of its task, so no update of it can
  collide with another live attempt: the statement goes through.
\<close>

lemma set_attempt_unproven_total:
  assumes ok: "store_ok s" and a: "get_attempt s r = Some a" "\<not> proven a"
  shows "\<exists>s'. set_attempt now r u s = Inr s'"
proof -
  let ?rs = "map (update_row r now u) (st_attempts s)"
  have "index_ok (\<lambda>a. is_lock (at_status a)) at_key ?rs"
  proof (rule index_ok_map_wider)
    show "index_ok (\<lambda>a. \<not> proven a) at_key (st_attempts s)"
      using store_okD(2) [OF ok] by (simp add: execution_index_ok_def)
    show "\<not> proven x" if "x \<in> set (st_attempts s)" "is_lock (at_status (update_row r now u x))" for x
    proof (cases "at_run_id x = r")
      case True
      then have "x = a"
        using get_attempt_unique [OF ok that(1)] a(1) by simp
      with a(2) show ?thesis by simp
    next
      case False
      with that show ?thesis
        using proven_not_lock by fastforce
    qed
  qed simp
  then show ?thesis
    by (simp add: set_attempt_def Let_def lock_index_ok_def)
qed

lemma store_update_core:
  assumes ok: "core_ok {r} c" and a: "row c r = Some a" "\<not> proven a"
    and act: "r \<in> active_runs c"
    and events: "has_events c r \<Longrightarrow> \<not> proven (apply_update now u a)"
  obtains c' where "store_update now r u c = Inr c'" "core_ok {r} c'" "same_but r c c'"
    "row c' r = Some (apply_update now u a)" "st_quarantine (ct_store c') = st_quarantine (ct_store c)"
proof -
  note sok = core_okD(1) [OF ok]
  obtain s where s: "set_attempt now r u (ct_store c) = Inr s"
    using set_attempt_unproven_total [OF sok a] by blast
  let ?c = "c\<lparr>ct_store := s\<rparr>"
  have same: "same_but r c ?c"
    using get_attempt_update [OF s] set_attempt_InrD [OF s] by (intro same_but_store) auto
  have row: "row ?c r = Some (apply_update now u a)"
    using get_attempt_update [OF s] a(1) by simp
  have "store_ok s"
    by (rule set_attempt_store_ok [OF sok s])
      (use get_attempt_unique [OF sok] a in fastforce)
  moreover have "at_started_at a \<noteq> None \<Longrightarrow> at_started_at (apply_update now u a) \<noteq> None"
    by (cases "up_started_at u") simp_all
  ultimately have "core_ok {r} ?c"
    using act events by (intro core_ok_same_but [OF ok same _ a(1) row]) simp_all
  with that [of ?c] s same row set_attempt_InrD(6) [OF s] show ?thesis
    by (simp add: store_update_def)
qed

lemma same_but_quarantine:
  assumes "st_attempts s = st_attempts (ct_store c)" "st_events s = st_events (ct_store c)"
  shows "same_but r c (c\<lparr>ct_store := s\<rparr>)"
  using assms by (intro same_but_store) (simp_all add: get_attempt_def)

lemma row_quarantine [simp]:
  "get_attempt (quarantine_instance now i reason q s) r = get_attempt s r"
  "get_attempt (snd (clear_quarantine i s)) r = get_attempt s r"
  by (simp_all add: get_attempt_def)

lemma core_ok_store_frame:
  assumes ok: "core_ok X c" and s: "store_ok s" "st_attempts s = st_attempts (ct_store c)"
    "st_events s = st_events (ct_store c)"
  shows "core_ok X (c\<lparr>ct_store := s\<rparr>)"
proof -
  have "get_attempt s = get_attempt (ct_store c)"
    using s(2) by (simp add: get_attempt_def fun_eq_iff)
  then show ?thesis
    using ok s(1,3)
    by (simp add: core_ok_def link_ok_def run_ok_def has_events_def active_of_def cancel_ok_def
        cong: prod.case_cong cancel_wait.case_cong)
qed

lemma quarantine_run_core [inv_preserved]:
  "core_ok X c \<Longrightarrow> core_ok X (quarantine_run now i r reason c)"
  using core_ok_store_frame quarantine_store_ok core_okD(1)
  by (simp add: quarantine_run_def)

lemma quarantine_run_same [simp]: "same_but r' c (quarantine_run now i r reason c)"
  unfolding quarantine_run_def by (rule same_but_quarantine) simp_all

lemma reconcile_quarantine_cases:
  "reconcile_quarantine r c = c \<or>
     (\<exists>i. reconcile_quarantine r c = c\<lparr>ct_store := snd (clear_quarantine i (ct_store c))\<rparr>)"
  by (auto simp: reconcile_quarantine_def split: option.splits)

lemma reconcile_quarantine_core [inv_preserved]:
  "core_ok X c \<Longrightarrow> core_ok X (reconcile_quarantine r c)"
  using reconcile_quarantine_cases [of r c] core_ok_store_frame clear_quarantine_store_ok core_okD(1)
  by (metis quarantine_frames(5,7))

lemma reconcile_quarantine_same [simp]: "same_but r' c (reconcile_quarantine r c)"
  using reconcile_quarantine_cases [of r c] same_but_quarantine
  by (metis quarantine_frames(5,7) same_but_refl)

lemma reconcile_quarantine_rows [simp]:
  "row (reconcile_quarantine r c) r' = row c r'"
  using reconcile_quarantine_cases [of r c] by auto

lemma upd_active_core [inv_preserved]:
  assumes "core_ok X c" "\<And>a. ar_record (f a) = ar_record a" "\<And>a. ar_phase (f a) = ar_phase a"
  shows "core_ok X (upd_active r f c)"
proof -
  have "link_ok (upd_active r f c) r' a \<and> (r' \<notin> X \<longrightarrow> run_ok (upd_active r f c) r' (ar_phase a))"
    if a: "active_of (upd_active r f c) r' = Some a" for r' a
  proof -
    obtain a0 where "active_of c r' = Some a0" "ar_record a = ar_record a0" "ar_phase a = ar_phase a0"
      using a assms(2,3) by (auto simp: active_of_upd split: if_splits)
    then show ?thesis
      using core_okD(3,4) [OF assms(1), of r' a0] by (simp add: link_ok_def run_ok_def has_events_def)
  qed
  then show ?thesis
    using core_okD(1,2,5,6,7) [OF assms(1)] cancel_ok_rows [of "upd_active r f c" c]
    unfolding core_ok_def by (simp add: has_events_def)
qed

section \<open>Finishing\<close>

lemma finish_run_core:
  assumes ok: "core_ok {r} c" and a: "row c r = Some a" "\<not> proven a"
    and act: "r \<in> active_runs c"
    and events: "has_events c r \<Longrightarrow> \<not> proven (apply_update now u a)"
  obtains c' where "finish_run now r u st c = Inr c'" "core_ok {r} c'" "same_but r c c'"
    "row c' r = Some (apply_update now u a)"
proof -
  obtain c1 where c1: "store_update now r u c = Inr c1" "core_ok {r} c1" "same_but r c c1"
    "row c1 r = Some (apply_update now u a)"
    using store_update_core [OF ok a act events] by blast
  let ?c2 = "upd_active r (\<lambda>a. a\<lparr>ar_terminal_status := Some st, ar_wakeup := True\<rparr>) c1"
  let ?c3 = "if st \<in> set validated_terminals then reconcile_quarantine r ?c2 else ?c2"
  have "core_ok {r} ?c2" "same_but r c ?c2"
    using c1 upd_active_core same_but_trans [OF c1(3)] same_but_upd
    by (force, force)
  then have "core_ok {r} ?c3" "same_but r c ?c3"
    using reconcile_quarantine_core same_but_trans reconcile_quarantine_same by auto
  with that [of ?c3] c1 show ?thesis
    by (simp add: finish_run_def Let_def)
qed

lemma finish_core:
  assumes ok: "core_ok {r} c" and a: "row c r = Some a" "\<not> proven a"
    and act: "r \<in> active_runs c"
    and events: "has_events c r \<Longrightarrow> \<not> proven_pre_execution st (Some out) (at_started_at a)"
  obtains c' x where "finish now r st out detail c = Inr c'" "core_ok {r} c'" "same_but r c c'"
    "row c' r = Some x" "at_status x = st" "at_outcome x = Some out"
    "at_started_at x = at_started_at a" "at_key x = at_key a"
    "at_runner_instance x = at_runner_instance a"
proof -
  let ?u = "finish_update now st (Some out) (Some detail) None None None"
  have "proven (apply_update now ?u a) = proven_pre_execution st (Some out) (at_started_at a)"
    by (simp add: finish_update_def)
  then obtain c' where "finish_run now r ?u st c = Inr c'" "core_ok {r} c'" "same_but r c c'"
    "row c' r = Some (apply_update now ?u a)"
    using finish_run_core [OF ok a act, of now ?u st] events by blast
  with that [of c' "apply_update now ?u a"] show ?thesis
    by (simp add: finish_def finish_update_def)
qed

lemma unknown_unproven [simp]: "\<not> proven_pre_execution Unknown out t"
  by (simp add: proven_pre_execution_def)

lemma terminal_set [simp]:
  "is_terminal Unknown" "is_terminal Failed" "is_terminal Completed" "is_terminal Cancelled"
  by (simp_all add: status_sets)

text \<open>A run that reached a terminal row, with everything else in order.\<close>

definition settled :: "string \<Rightarrow> ctl \<Rightarrow> ctl \<Rightarrow> bool" where
  "settled r c c' \<longleftrightarrow>
     core_ok {r} c' \<and> same_but r c c' \<and> (\<exists>x. row c' r = Some x \<and> is_terminal (at_status x))"

lemma unknown_and_quarantine_settled:
  assumes "core_ok {r} c" "row c r = Some a" "\<not> proven a" "r \<in> active_runs c"
  shows "settled r c (unknown_and_quarantine now i r detail reason c)"
proof -
  obtain c' x where "finish now r Unknown OutUnknown detail c = Inr c'" "core_ok {r} c'"
    "same_but r c c'" "row c' r = Some x" "at_status x = Unknown"
    by (rule finish_core [OF assms unknown_unproven, of now OutUnknown detail])
  note fin = this
  have "same_but r c (quarantine_run now i r reason c')"
    using same_but_trans [OF fin(3) quarantine_run_same] .
  moreover have "row (quarantine_run now i r reason c') r = Some x"
    using fin(4) by (simp add: quarantine_run_def)
  ultimately show ?thesis
    using quarantine_run_core [OF fin(2)] fin(5)
    by (simp add: settled_def unknown_and_quarantine_def fin(1))
qed

lemma handle_exception_settled:
  assumes ok: "core_ok {r} c" and a: "row c r = Some a" "\<not> proven a" and act: "r \<in> active_runs c"
    and pre: "pre_rejection e \<Longrightarrow> \<not> has_events c r"
  shows "settled r c (handle_exception now i r e c)"
proof (cases "\<exists>code rt pr. e = Exn (ERunnerRunRejected code rt pr) \<and> no_effect code pr")
  case True
  then obtain code rt pr where e: "e = Exn (ERunnerRunRejected code rt pr)" "no_effect code pr"
    by blast
  then have quiet: "\<not> has_events c r"
    using pre no_effect_pre by auto
  obtain c' x where "finish now r Failed Rejected
       (''runner rejected the run before execution: '' @ code) c = Inr c'"
    "core_ok {r} c'" "same_but r c c'" "row c' r = Some x" "at_status x = Failed"
    using finish_core [OF ok a act, of Failed Rejected now] quiet by blast
  then show ?thesis
    by (simp add: e settled_def)
next
  case False
  then have "\<exists>detail reason. handle_exception now i r e c =
      unknown_and_quarantine now i r detail reason c"
    by (cases "(now, i, r, e, c)" rule: handle_exception.cases) auto
  then show ?thesis
    using unknown_and_quarantine_settled [OF ok a act] by metis
qed

section \<open>The end of a run\<close>

lemma end_execute_core [inv_preserved]:
  assumes ok: "core_ok {r} c" and x: "row c r = Some x" "is_terminal (at_status x)"
  shows "core_ok {} (end_execute acquired r c)"
proof (cases "active_of c r")
  case None
  then have "core_ok {} c"
    using ok unfolding core_ok_def by force
  with None show ?thesis by (simp add: end_execute_def)
next
  case (Some a)
  let ?c = "end_execute acquired r c"
  have frames: "ct_store ?c = ct_store c" "ct_cancels ?c = ct_cancels c"
    "ct_active ?c = AList.delete r (ct_active c)"
    by (simp_all add: end_execute_def Some Let_def release_outstanding_def release_runner_def
        release_principal_def)
  have act: "active_of ?c r' = (if r' = r then None else active_of c r')" for r'
    by (simp add: active_of_def frames delete_conv')
  have keys: "active_runs ?c = active_runs c - {r}"
    by (simp add: frames delete_keys flip: set_map)
  have "link_ok ?c r' a' \<and> run_ok ?c r' (ar_phase a')" if "active_of ?c r' = Some a'" for r' a'
    using that core_okD(3,4) [OF ok, of r' a'] act
    by (simp add: link_ok_def run_ok_def has_events_def frames split: if_splits)
  moreover have "is_terminal (at_status y)" if "row ?c r' = Some y" "r' \<notin> active_runs ?c" for r' y
    using that core_okD(5) [OF ok, of r' y] x keys by (cases "r' = r") (auto simp: frames)
  ultimately show ?thesis
    using core_okD(1,2,6,7) [OF ok] cancel_ok_rows [of ?c c]
    unfolding core_ok_def by (simp add: frames has_events_def distinct_delete)
qed

lemma settled_end:
  "settled r c c' \<Longrightarrow> core_ok {} (end_execute acquired r c')"
  using end_execute_core unfolding settled_def by blast

end
