(* ===== verification/ControllerSteps.thy ===== *)
theory ControllerSteps
  imports ControllerInv
begin

text \<open>
  The step relation of the controller and the proof that every segment keeps the invariant, one
  lemma per segment.
\<close>

section \<open>Frames\<close>

lemma core_ok_frame:
  assumes "core_ok X c" "ct_store c' = ct_store c" "ct_active c' = ct_active c"
    "set (ct_cancels c') \<subseteq> set (ct_cancels c)"
  shows "core_ok X c'"
  using assms cancel_ok_rows [OF assms(2)]
  by (auto simp: core_ok_def link_ok_def run_ok_def has_events_def active_of_def)

lemma release_frames [simp]:
  "ct_store (release_runner i c) = ct_store c" "ct_active (release_runner i c) = ct_active c"
  "ct_cancels (release_runner i c) = ct_cancels c"
  "ct_store (runner_sem cfg g i c) = ct_store c" "ct_active (runner_sem cfg g i c) = ct_active c"
  "ct_cancels (runner_sem cfg g i c) = ct_cancels c"
  "ct_store (principal_sem p n c) = ct_store c" "ct_active (principal_sem p n c) = ct_active c"
  "ct_cancels (principal_sem p n c) = ct_cancels c"
  by (simp_all add: release_runner_def runner_sem_def principal_sem_def split: option.splits)

lemma active_of_frame: "ct_active c' = ct_active c \<Longrightarrow> active_of c' = active_of c"
  by (simp add: active_of_def fun_eq_iff)

lemma run_ok_frame: "ct_store c' = ct_store c \<Longrightarrow> run_ok c' r ph = run_ok c r ph"
  by (simp add: run_ok_def has_events_def)

lemma active_row:
  assumes "core_ok {} c" "active_of c r = Some a"
  obtains x where "row c r = Some x" "row_in_phase (ar_phase a) x" "at_run_id (ar_record a) = r"
    "at_principal (ar_record a) = at_principal x"
    "at_runner_instance (ar_record a) = at_runner_instance x"
    "silent (ar_phase a) \<longrightarrow> \<not> has_events c r" "pending_ok (ar_phase a)" "r \<in> active_runs c"
    "core_ok {r} c" "\<not> proven x"
proof -
  from core_okD(3,4) [OF assms] obtain x where
    "row c r = Some x" "row_in_phase (ar_phase a) x" "at_run_id (ar_record a) = r"
    "at_principal (ar_record a) = at_principal x"
    "at_runner_instance (ar_record a) = at_runner_instance x"
    "silent (ar_phase a) \<longrightarrow> \<not> has_events c r" "pending_ok (ar_phase a)"
    by (auto simp: link_ok_def run_ok_def)
  moreover from this(2) have "\<not> proven x"
    by (cases "(ar_phase a, x)" rule: row_in_phase.cases) (auto simp: proven_pre_execution_def)
  ultimately show ?thesis
    using that core_ok_mono [OF assms(1), of "{r}"] active_of_in [OF assms(2)] by blast
qed

lemma set_phase_keeps:
  assumes ok: "core_ok {} c" and a: "active_of c r = Some a"
    and ph: "run_ok c r (ar_phase a) \<Longrightarrow> run_ok c r ph"
  shows "core_ok {} (set_phase r ph c)"
  using set_phase_core_ok core_ok_mono [OF ok, of "{r}"] ph core_okD(4) [OF ok a] by blast

section \<open>Waiting for slots\<close>

lemma acquire_runner_core [inv_preserved]:
  assumes ok: "core_ok {} c"
  shows "core_ok {} (acquire_runner cfg g r c)"
proof (cases "active_of c r")
  case None
  with ok show ?thesis by (simp add: acquire_runner_def)
next
  case (Some a)
  let ?c = "principal_sem (at_principal (ar_record a)) (ar_concurrency a)
              (runner_sem cfg g (at_runner_instance (ar_record a)) c)"
  have sems: "core_ok {} (?c\<lparr>ct_runner_sems := s\<rparr>)" "core_ok {} ?c" for s
    by (rule core_ok_frame [OF ok]; simp)+
  have "core_ok {} (set_phase r HoldRunner (?c\<lparr>ct_runner_sems := s\<rparr>))"
    if "ar_phase a = Waiting" for s
    by (rule set_phase_keeps [OF sems(1), where a = a])
      (use Some that in \<open>simp_all add: active_of_def run_ok_def has_events_def\<close>)
  with Some ok sems show ?thesis
    by (simp add: acquire_runner_def Let_def)
qed

lemma acquire_principal_core [inv_preserved]:
  assumes ok: "core_ok {} c"
  shows "core_ok {} (acquire_principal r c)"
proof (cases "active_of c r")
  case None
  with ok show ?thesis by (simp add: acquire_principal_def)
next
  case (Some a)
  have sems: "core_ok {} (c\<lparr>ct_principal_sems := s\<rparr>)" for s
    by (rule core_ok_frame [OF ok]) simp_all
  have "core_ok {} (set_phase r Acquired (c\<lparr>ct_principal_sems := s\<rparr>))"
    if "ar_phase a = HoldRunner" for s
    by (rule set_phase_keeps [OF sems, where a = a])
      (use Some that in \<open>simp_all add: active_of_def run_ok_def has_events_def\<close>)
  with Some ok show ?thesis
    by (simp add: acquire_principal_def Let_def)
qed

text \<open>A run that never got its slots is finished as safe to retry, or as cancelled.\<close>

lemma finish_or_handle_settled:
  assumes ok: "core_ok {r} c" and a: "row c r = Some a" "\<not> proven a" and act: "r \<in> active_runs c"
    and quiet: "\<not> has_events c r" and st: "is_terminal st"
  shows "settled r c (case finish now r st out detail c of
      Inl e \<Rightarrow> handle_exception now i r (Exn e) c | Inr c' \<Rightarrow> c')"
proof -
  obtain c' x where "finish now r st out detail c = Inr c'" "core_ok {r} c'" "same_but r c c'"
    "row c' r = Some x" "at_status x = st"
    by (rule finish_core [OF ok a act, of st out now detail]) (use quiet in blast)+
  with st show ?thesis
    by (auto simp: settled_def)
qed

lemma queued_end_core:
  assumes ok: "core_ok {} c" and a: "active_of c r = Some a"
    and ph: "ar_phase a \<in> {Waiting, HoldRunner, Acquired}" and st: "is_terminal st"
    and frame: "ct_store d = ct_store c" "ct_active d = ct_active c" "ct_cancels d = ct_cancels c"
  shows "core_ok {} (end_execute acq r (case finish now r st out detail d of
      Inl e \<Rightarrow> handle_exception now i r (Exn e) d | Inr c' \<Rightarrow> c'))"
proof -
  obtain x where x: "row c r = Some x" "\<not> proven x" "silent (ar_phase a) \<longrightarrow> \<not> has_events c r"
    "r \<in> active_runs c" "core_ok {r} c"
    by (rule active_row [OF ok a])
  have "core_ok {r} d"
    by (rule core_ok_frame [OF x(5)]) (simp_all add: frame)
  moreover have "\<not> has_events d r"
    using x(3) ph frame(1) by (auto simp: has_events_def)
  ultimately show ?thesis
    using x(1,2,4) frame st by (intro settled_end [OF finish_or_handle_settled]) simp_all
qed

lemma acquire_fails_core [inv_preserved]:
  assumes ok: "core_ok {} c"
  shows "core_ok {} (acquire_fails now timed_out r c)"
  using ok by (auto simp: acquire_fails_def Let_def split: option.splits intro!: queued_end_core)

lemma cancelled_in_queue_core [inv_preserved]:
  assumes ok: "core_ok {} c"
  shows "core_ok {} (cancelled_in_queue now r c)"
  using ok by (auto simp: cancelled_in_queue_def Let_def split: option.splits intro!: queued_end_core)

lemma task_cancelled_core [inv_preserved]:
  assumes ok: "core_ok {} c"
  shows "core_ok {} (task_cancelled_in_queue now r c)"
proof (cases "active_of c r")
  case None
  with ok show ?thesis by (simp add: task_cancelled_in_queue_def)
next
  case (Some a)
  show ?thesis
  proof (cases "ar_phase a \<in> {Waiting, HoldRunner, Acquired}")
    case False
    with Some ok show ?thesis by (simp add: task_cancelled_in_queue_def)
  next
    case True
    obtain x where x: "row c r = Some x" "\<not> proven x" "r \<in> active_runs c" "core_ok {r} c"
      by (rule active_row [OF ok Some])
    have "core_ok {} (end_execute False r (handle_exception now i r TaskCancelled d))"
      if "ct_store d = ct_store c" "ct_active d = ct_active c" "ct_cancels d = ct_cancels c" for d i
    proof -
      have "core_ok {r} d"
        by (rule core_ok_frame [OF x(4)]) (simp_all add: that)
      then show ?thesis
        using x that by (intro settled_end [OF handle_exception_settled]) simp_all
    qed
    then show ?thesis
      using Some True by (simp add: task_cancelled_in_queue_def Let_def)
  qed
qed

lemma orphan_step_core [inv_preserved]:
  assumes "core_ok {} c"
  shows "core_ok {} (orphan_step i p held timed_out c)"
  by (rule core_ok_frame [OF assms])
    (simp_all add: orphan_step_def Let_def release_runner_def)

section \<open>Dispatch\<close>

lemma dispatch_core [inv_preserved]:
  assumes ok: "core_ok {} c"
  shows "core_ok {} (dispatch now r c)"
proof (cases "active_of c r")
  case None
  with ok show ?thesis by (simp add: dispatch_def)
next
  case (Some a)
  show ?thesis
  proof (cases "ar_phase a = Acquired")
    case False
    with Some ok show ?thesis by (simp add: dispatch_def)
  next
    case True
    obtain x where x: "row c r = Some x" "\<not> proven x" "silent (ar_phase a) \<longrightarrow> \<not> has_events c r"
      "r \<in> active_runs c" "core_ok {r} c" "row_in_phase (ar_phase a) x"
      by (rule active_row [OF ok Some])
    have quiet: "\<not> has_events c r"
      using x(3) True by simp
    let ?u = "no_update\<lparr>up_status := Some Starting, up_started_at := Some now\<rparr>"
    obtain c1 where c1: "store_update now r ?u c = Inr c1" "core_ok {r} c1" "same_but r c c1"
      "row c1 r = Some (apply_update now ?u x)"
      by (rule store_update_core [OF x(5,1,2,4), of now ?u]) (use quiet in auto)
    have mark: "mark_starting now r c = Inr c1"
      using c1(1) x(1,6) True by (simp add: mark_starting_def)
    have "\<not> has_events c1 r"
      using same_but_events [OF c1(3)] quiet by simp
    then have "core_ok {} (set_phase r (Streaming start_progress) c1)"
      using c1(4) by (intro set_phase_core_ok [OF c1(2)]) (simp add: run_ok_def)
    moreover have "core_ok {} (end_execute True r
        (case finish now r Failed Rejected ''runner quarantined before dispatch'' c of
           Inl e \<Rightarrow> handle_exception now i r (Exn e) c | Inr c' \<Rightarrow> c'))" for i
      by (rule queued_end_core [OF ok Some]) (use True in auto)
    ultimately show ?thesis
      using Some True mark by (simp add: dispatch_def Let_def)
  qed
qed

section \<open>The stream\<close>

lemma append_event_rows:
  "append_event r e s = Inr s' \<Longrightarrow> get_attempt s' = get_attempt s"
  using append_event_InrD(3) [of r e s s'] by (simp add: get_attempt_def fun_eq_iff)

lemma append_event_core:
  assumes ok: "core_ok {r} c" and app: "append_event r e (ct_store c) = Inr s"
    and x: "row c r = Some x" "\<not> proven x"
  shows "core_ok {r} (c\<lparr>ct_store := s\<rparr>)"
proof -
  let ?c = "c\<lparr>ct_store := s\<rparr>"
  note rows = append_event_rows [OF app]
  have ev: "has_events ?c r' \<longleftrightarrow> r' = r \<or> has_events c r'" for r'
    using append_event_InrD(1) [OF app] by (auto simp: has_events_def)
  have "link_ok ?c r' a \<and> (r' \<notin> {r} \<longrightarrow> run_ok ?c r' (ar_phase a))"
    if "active_of ?c r' = Some a" for r' a
    using that core_okD(3,4) [OF ok, of r' a]
    by (auto simp: active_of_def link_ok_def run_ok_def rows ev)
  moreover have "\<exists>y. row ?c r' = Some y \<and> \<not> proven y" if "has_events ?c r'" for r'
    using that core_okD(6) [OF ok, of r'] x by (auto simp: ev rows)
  moreover have "cancel_ok ?c = cancel_ok c"
    by (rule ext) (simp add: cancel_ok_def rows split: prod.splits cancel_wait.splits)
  ultimately show ?thesis
    using core_okD(1,2,5,7) [OF ok] append_event_store_ok [OF _ app]
    unfolding core_ok_def by (simp add: rows)
qed

lemma streaming_unproven: "row_in_phase (Streaming sp) x \<Longrightarrow> \<not> proven x"
  by (auto simp: proven_pre_execution_def)

lemma first_event_status_core:
  assumes ok: "core_ok {r} c" and x: "row c r = Some x" "row_in_phase (Streaming sp) x"
    and act: "r \<in> active_runs c"
  obtains c' y where "first_event_status now r b c = Inr c'" "core_ok {r} c'" "same_but r c c'"
    "row c' r = Some y" "row_in_phase (Streaming sp) y"
proof (cases "b \<and> at_status x \<in> {Starting, Running}")
  case True
  let ?u = "no_update\<lparr>up_status := Some Running\<rparr>"
  obtain c1 where c1: "store_update now r ?u c = Inr c1" "core_ok {r} c1" "same_but r c c1"
    "row c1 r = Some (apply_update now ?u x)"
    by (rule store_update_core [OF ok x(1) streaming_unproven [OF x(2)] act, of now ?u])
      (simp_all add: proven_pre_execution_def)
  with that [of c1 "apply_update now ?u x"] x True show ?thesis
    by (simp add: first_event_status_def)
next
  case False
  with that [of c x] ok x show ?thesis
    by (auto simp: first_event_status_def)
qed

lemma stream_to_closing:
  assumes "row c r = Some x" "row_in_phase (Streaming sp) x" "n > 0" "\<not> pre_rejection e"
  shows "run_ok c r (Closing n (Raises e))"
  using assms by (auto simp: run_ok_def proven_pre_execution_def)

lemma stream_event_core [inv_preserved]:
  assumes ok: "core_ok {} c"
  shows "core_ok {} (stream_event cfg now r e c)"
proof (cases "\<exists>a sp. active_of c r = Some a \<and> ar_phase a = Streaming sp")
  case False
  with ok show ?thesis
    by (auto simp: stream_event_def split: option.splits phase.splits)
next
  case True
  then obtain a sp where a: "active_of c r = Some a" "ar_phase a = Streaming sp" by blast
  obtain x where x: "row c r = Some x" "row_in_phase (ar_phase a) x" "r \<in> active_runs c"
    "core_ok {r} c" "\<not> proven x"
    by (rule active_row [OF ok a(1)])
  note str = x(2) [unfolded a(2)]
  let ?n = "sp_events_seen sp + 1"
  have fail: "core_ok {} (set_phase r (Closing ?n (Raises (Exn err))) d)"
    if "core_ok {r} d" "row d r = Some y" "row_in_phase (Streaming sp) y" "\<not> pre_rejection (Exn err)"
    for d y err
    using that stream_to_closing [of d r y sp ?n "Exn err"] by (intro set_phase_core_ok) auto
  have go: "core_ok {} (set_phase r (Streaming sp') d)"
    if "core_ok {r} d" "row d r = Some y" "row_in_phase (Streaming sp) y" "sp_events_seen sp' = ?n"
    for d y sp'
    using that by (intro set_phase_core_ok) (auto simp: run_ok_def)
  show ?thesis
  proof (cases "append_event r e (ct_store c)")
    case (Inl err)
    then have "err = UpstreamProtocolError"
      by (auto simp: append_event_def split: if_splits)
    with Inl a show ?thesis
      using fail [OF x(4,1) str, of EUpstreamProtocol] by (simp add: stream_event_def Let_def)
  next
    case (Inr s)
    let ?c1 = "upd_active r (\<lambda>a. a\<lparr>ar_last_event_sequence := ev_sequence e\<rparr>) (c\<lparr>ct_store := s\<rparr>)"
    have c1: "core_ok {r} ?c1"
      by (rule upd_active_core [OF append_event_core [OF x(4) Inr x(1,5)]]) simp_all
    have c1': "row ?c1 r = Some x" "r \<in> active_runs ?c1"
      using append_event_rows [OF Inr] x(1,3) by simp_all
    obtain c2 y where c2: "first_event_status now r (sp_events_seen sp = 0) ?c1 = Inr c2"
      "core_ok {r} c2" "row c2 r = Some y" "row_in_phase (Streaming sp) y"
      by (rule first_event_status_core [OF c1 c1'(1) str c1'(2)])
    have c3: "core_ok {r} (upd_active r (\<lambda>a. a\<lparr>ar_wakeup := True\<rparr>) c2)"
      using c2(2) by (rule upd_active_core) simp_all
    show ?thesis
      using a Inr c2(1) fail [OF x(4,1) str, of EUpstreamProtocol]
        fail [OF c2(2,3,4), of EUpstreamProtocol] go [OF c3 _ c2(4)] c2(3)
      by (simp add: stream_event_def Let_def split: option.splits)
  qed
qed

lemma outcome_of_result_unsafe:
  "\<not> proven_pre_execution st (Some (outcome_of_result o')) (Some t)"
  by (cases o') (auto simp: proven_pre_execution_def preexecution_safe_outcomes_def)

lemma add_artifact_frames:
  "add_artifact x s = Inr s' \<Longrightarrow> st_attempts s' = st_attempts s \<and> st_events s' = st_events s \<and>
     (store_ok s \<longrightarrow> store_ok s')"
  using add_artifact_store_ok by (auto simp: add_artifact_def split: if_splits)

lemma write_artifact_frames:
  "write_artifact cfg now af path w a txt c = Inr c' \<Longrightarrow> \<exists>s. c' = c\<lparr>ct_store := s\<rparr> \<and>
     st_attempts s = st_attempts (ct_store c) \<and> st_events s = st_events (ct_store c) \<and>
     (store_ok (ct_store c) \<longrightarrow> store_ok s)"
proof (cases "c' = c")
  case False
  assume "write_artifact cfg now af path w a txt c = Inr c'"
  with False obtain x s where "add_artifact x (ct_store c) = Inr s" "c' = c\<lparr>ct_store := s\<rparr>"
    by (auto simp: write_artifact_def split: if_splits file_write.splits sum.splits)
  then show ?thesis
    using add_artifact_frames by blast
qed (auto intro: exI [of _ "ct_store c"])

text \<open>What the end of the stream leaves: a row fit for the closing phase, and no refusal.\<close>

lemma persist_artifact_core:
  assumes ok: "core_ok {r} c" and x: "row c r = Some x" "\<not> proven x" and act: "r \<in> active_runs c"
    and a: "at_run_id a = r"
  obtains c' y where "persist_artifact cfg now af path w a txt c = (None, c')" "core_ok {r} c'"
    "row c' r = Some y" "at_status y = at_status x" "at_started_at y = at_started_at x"
    "at_outcome y = at_outcome x" "has_events c' = has_events c"
proof (cases "write_artifact cfg now af path w a txt c")
  case (Inr c')
  then obtain s where s: "c' = c\<lparr>ct_store := s\<rparr>" "st_attempts s = st_attempts (ct_store c)"
    "st_events s = st_events (ct_store c)" "store_ok s"
    using write_artifact_frames core_okD(1) [OF ok] by blast
  have "core_ok {r} c'"
    using core_ok_store_frame [OF ok s(4,2,3)] s(1) by simp
  moreover have "row c' r = Some x" "has_events c' = has_events c"
    using s(1-3) x(1) by (simp_all add: get_attempt_def has_events_def fun_eq_iff)
  ultimately show ?thesis
    using that Inr by (simp add: persist_artifact_def)
next
  case (Inl err)
  obtain d where d: "persist_artifact cfg now af path w a txt c =
      (case store_update now r (no_update\<lparr>up_detail := Some d\<rparr>) c of
         Inl e \<Rightarrow> (Some e, c) | Inr c' \<Rightarrow> (None, c'))"
    using Inl x(1) a by (simp add: persist_artifact_def Let_def)
  let ?u = "no_update\<lparr>up_detail := Some d\<rparr>"
  obtain c1 where "store_update now r ?u c = Inr c1" "core_ok {r} c1" "same_but r c c1"
    "row c1 r = Some (apply_update now ?u x)"
    by (rule store_update_core [OF ok x act, of now ?u]) (use x(2) in auto)
  with that d same_but_events show ?thesis
    by simp
qed

lemma stream_terminal_core:
  assumes ok: "core_ok {r} c" and x: "row c r = Some x" "row_in_phase (Streaming sp) x"
    and act: "r \<in> active_runs c" and a: "at_run_id (ar_record a) = r"
  obtains c' y where "stream_terminal cfg now af path w a sp res c = (None, c')" "core_ok {r} c'"
    "row c' r = Some y" "\<forall>n. row_in_phase (Closing n Returns) y" "has_events c' = has_events c"
proof -
  obtain t where t: "at_started_at x = Some t"
    using x(2) by auto
  note np = streaming_unproven [OF x(2)]
  let ?summary = "stream_summary sp"
  let ?st = "status_of_result (rr_status res)"
  let ?u1 = "finish_update now Unknown (Some OutUnknown) (Some (unknown_detail (rr_detail res)))
      (Some (rr_verification res)) (Some (rr_usage res)) ?summary"
  let ?u2 = "finish_update now ?st (Some (outcome_of_result (rr_outcome res))) (rr_detail res)
      (Some (rr_verification res)) (Some (rr_usage res)) ?summary"
  have u1: "\<not> proven (apply_update now ?u1 x)" and u2: "\<not> proven (apply_update now ?u2 x)"
    by (simp_all add: finish_update_def t outcome_of_result_unsafe)
  obtain c1 where c1: "finish_run now r ?u1 Unknown c = Inr c1" "core_ok {r} c1" "same_but r c c1"
    "row c1 r = Some (apply_update now ?u1 x)"
    by (rule finish_run_core [OF ok x(1) np act u1])
  obtain c2 where c2: "finish_run now r ?u2 ?st c = Inr c2" "core_ok {r} c2" "same_but r c c2"
    "row c2 r = Some (apply_update now ?u2 x)"
    by (rule finish_run_core [OF ok x(1) np act u2])
  have closing: "row_in_phase (Closing n Returns) y"
    if "at_status y = ?st" "at_started_at y = Some t"
      "at_outcome y = Some (outcome_of_result (rr_outcome res))" for y n
    using that outcome_of_result_unsafe by (cases "rr_status res") auto
  show ?thesis
  proof (cases "?st = Unknown")
    case True
    let ?c = "quarantine_run now (at_runner_instance (ar_record a)) r ''unknown terminal'' c1"
    have "stream_terminal cfg now af path w a sp res c = (None, ?c)"
      using True c1(1) a by (simp add: stream_terminal_def Let_def)
    moreover have "row ?c r = Some (apply_update now ?u1 x)" "has_events ?c = has_events c"
      using c1(4) same_but_events [OF c1(3)] by (simp_all add: quarantine_run_def has_events_def fun_eq_iff)
    ultimately show ?thesis
      using that quarantine_run_core [OF c1(2)] u1 by (simp add: finish_update_def t)
  next
    case False
    show ?thesis
    proof (cases "\<exists>txt. ?summary = Some txt \<and> ?st = Completed \<and> txt \<noteq> ''''")
      case True
      then obtain body where body: "?summary = Some body" "?st = Completed" "body \<noteq> ''''" by blast
      have act2: "r \<in> active_runs c2"
        using act same_but_active_runs [OF c2(3)] by simp
      obtain c' y where PA: "persist_artifact cfg now af path w (ar_record a) body c2 = (None, c')"
        "core_ok {r} c'" "row c' r = Some y" "at_status y = at_status (apply_update now ?u2 x)"
        "at_started_at y = at_started_at (apply_update now ?u2 x)"
        "at_outcome y = at_outcome (apply_update now ?u2 x)" "has_events c' = has_events c2"
        by (rule persist_artifact_core [OF c2(2,4) u2 act2 a])
      have "stream_terminal cfg now af path w a sp res c = (None, c')"
        using body c2(1) a PA(1) by (simp add: stream_terminal_def Let_def)
      moreover have "row_in_phase (Closing n Returns) y" for n
        using PA(4-6) by (intro closing) (simp_all add: finish_update_def t)
      ultimately show ?thesis
        using that PA(2,3,7) same_but_events [OF c2(3)] by metis
    next
      case no_text: False
      have "stream_terminal cfg now af path w a sp res c = (None, c2)"
        using False no_text c2(1) a by (auto simp: stream_terminal_def Let_def split: option.splits)
      moreover have "row_in_phase (Closing n Returns) (apply_update now ?u2 x)" for n
        by (intro closing) (simp_all add: finish_update_def t)
      ultimately show ?thesis
        using that c2(2,4) same_but_events [OF c2(3)] by metis
    qed
  qed
qed

lemma stream_end_core [inv_preserved]:
  assumes ok: "core_ok {} c"
  shows "core_ok {} (stream_end cfg now af path w r result c)"
proof (cases "\<exists>a sp. active_of c r = Some a \<and> ar_phase a = Streaming sp")
  case False
  with ok show ?thesis
    by (auto simp: stream_end_def split: option.splits phase.splits)
next
  case True
  then obtain a sp where a: "active_of c r = Some a" "ar_phase a = Streaming sp" by blast
  obtain x where x: "row c r = Some x" "row_in_phase (ar_phase a) x" "r \<in> active_runs c"
    "core_ok {r} c" "\<not> proven x" "at_run_id (ar_record a) = r"
    "silent (ar_phase a) \<longrightarrow> \<not> has_events c r"
    by (rule active_row [OF ok a(1)])
  note str = x(2) [unfolded a(2)]
  show ?thesis
  proof (cases result)
    case None
    have "run_ok c r (Closing (sp_events_seen sp) (Raises (Exn EUpstreamProtocol)))"
      using x a(2) by (auto simp: run_ok_def)
    with None a set_phase_core_ok [OF x(4)] show ?thesis by (simp add: stream_end_def)
  next
    case (Some res)
    obtain c' y where T: "stream_terminal cfg now af path w a sp res c = (None, c')" "core_ok {r} c'"
      "row c' r = Some y" "\<forall>n. row_in_phase (Closing n Returns) y" "has_events c' = has_events c"
      by (rule stream_terminal_core [OF x(4,1) str x(3,6), where cfg = cfg and now = now
          and af = af and path = path and w = w and res = res])
    have "run_ok c' r (Closing (sp_events_seen sp) Returns)"
      using T(3-5) x(7) a(2) by (auto simp: run_ok_def)
    with set_phase_core_ok [OF T(2)] a Some T(1) show ?thesis
      by (simp add: stream_end_def)
  qed
qed

text \<open>
  The contract of the session: a refusal is marked pre-execution exactly while no event has been
  delivered.
\<close>

definition session_contract :: "exec_exn \<Rightarrow> string \<Rightarrow> ctl \<Rightarrow> bool" where
  "session_contract e r c \<longleftrightarrow>
     (\<forall>a sp. active_of c r = Some a \<longrightarrow> ar_phase a = Streaming sp \<longrightarrow>
        pre_rejection e \<longrightarrow> sp_events_seen sp = 0)"

lemma stream_raises_core [inv_preserved]:
  assumes ok: "core_ok {} c" and contract: "session_contract e r c"
  shows "core_ok {} (stream_raises e r c)"
proof (cases "\<exists>a sp. active_of c r = Some a \<and> ar_phase a = Streaming sp")
  case False
  with ok show ?thesis
    by (auto simp: stream_raises_def split: option.splits phase.splits)
next
  case True
  then obtain a sp where a: "active_of c r = Some a" "ar_phase a = Streaming sp" by blast
  obtain x where x: "row c r = Some x" "row_in_phase (ar_phase a) x" "core_ok {r} c" "\<not> proven x"
    "silent (ar_phase a) \<longrightarrow> \<not> has_events c r"
    by (rule active_row [OF ok a(1)])
  have "run_ok c r (Closing (sp_events_seen sp) (Raises e))"
    using x a contract by (auto simp: run_ok_def session_contract_def)
  with set_phase_core_ok [OF x(3)] a show ?thesis
    by (simp add: stream_raises_def)
qed

lemma close_session_core [inv_preserved]:
  assumes ok: "core_ok {} c" and failure: "\<And>e. failure = Some e \<Longrightarrow> \<not> pre_rejection e"
  shows "core_ok {} (close_session now failure r c)"
proof (cases "\<exists>a n pend. active_of c r = Some a \<and> ar_phase a = Closing n pend")
  case False
  with ok show ?thesis
    by (auto simp: close_session_def split: option.splits phase.splits)
next
  case True
  then obtain a n pend where a: "active_of c r = Some a" "ar_phase a = Closing n pend" by blast
  obtain x where x: "row c r = Some x" "row_in_phase (ar_phase a) x" "r \<in> active_runs c"
    "core_ok {r} c" "\<not> proven x" "silent (ar_phase a) \<longrightarrow> \<not> has_events c r"
    "pending_ok (ar_phase a)"
    by (rule active_row [OF ok a(1)])
  let ?pend = "case failure of None \<Rightarrow> pend | Some e \<Rightarrow> Raises e"
  show ?thesis
  proof (cases ?pend)
    case (Raises e)
    have "\<not> has_events c r" if "pre_rejection e"
    proof (cases failure)
      case None
      with Raises that x(6,7) a(2) show ?thesis by simp
    next
      case (Some e')
      with Raises that failure show ?thesis by simp
    qed
    then have "core_ok {} (end_execute True r (handle_exception now i r e c))" for i
      using x by (intro settled_end [OF handle_exception_settled]) auto
    with Raises a show ?thesis
      by (simp add: close_session_def Let_def)
  next
    case Returns
    then have "pend = Returns"
      by (cases failure) simp_all
    text \<open>Only the end of the stream leaves \<open>Returns\<close>, and it leaves a terminal row.\<close>
    then have "is_terminal (at_status x)"
      using x(2) a(2) by simp
    with Returns a end_execute_core [OF x(4,1)] show ?thesis
      by (simp add: close_session_def Let_def)
  qed
qed

section \<open>Cancel calls\<close>

lemma cancel_ok_add:
  assumes "core_ok X c" "cancel_ok c w"
  shows "core_ok X (c\<lparr>ct_cancels := ct_cancels c @ [w]\<rparr>)"
proof -
  have "cancel_ok (c\<lparr>ct_cancels := ws\<rparr>) = cancel_ok c" for ws
    by (rule cancel_ok_rows) simp
  then show ?thesis
    using assms
    by (auto simp: core_ok_def link_ok_def run_ok_def has_events_def active_of_def)
qed

text \<open>
  A cancel of a dispatched run moves its row inside the set of rows of its phase, and a queued row
  has no dispatched cancel.
\<close>

lemma dispatched_active:
  assumes ok: "core_ok {} c" and x: "row c r = Some x" "\<not> is_terminal (at_status x)"
  obtains a where "active_of c r = Some a" "row_in_phase (ar_phase a) x"
    "at_runner_instance (ar_record a) = at_runner_instance x" "r \<in> active_runs c" "core_ok {r} c"
    "\<not> proven x" "run_ok c r (ar_phase a)"
proof -
  have "r \<in> active_runs c"
    using core_okD(5) [OF ok x(1)] x(2) by blast
  then obtain a where a: "active_of c r = Some a"
    using active_of_None [of c r] by blast
  obtain x' where "row c r = Some x'" "row_in_phase (ar_phase a) x'"
    "at_runner_instance (ar_record a) = at_runner_instance x'" "r \<in> active_runs c" "core_ok {r} c"
    "\<not> proven x'"
    by (rule active_row [OF ok a])
  then show ?thesis
    using that a x(1) core_okD(4) [OF ok a] by auto
qed

lemma row_change_keeps:
  assumes ok: "core_ok {r} c'" and same: "same_but r c c'" and a: "active_of c r = Some a"
    and run: "run_ok c r (ar_phase a)" and y: "row c' r = Some y" "row_in_phase (ar_phase a) y"
  shows "core_ok {} c'"
proof -
  have "has_events c' = has_events c"
    using same_but_events [OF same] .
  then have "run_ok c' r (ar_phase a)"
    using run y by (simp add: run_ok_def)
  moreover obtain a' where "active_of c' r = Some a'" "ar_phase a' = ar_phase a"
    using same a by (cases "active_of c' r") (auto simp: same_but_def)
  ultimately show ?thesis
    using ok unfolding core_ok_def by force
qed

lemma cancelling_in_phase:
  assumes "row_in_phase ph x" "at_status x \<in> {Starting, Running, Cancelling}"
    "at_status y = st" "at_started_at y = at_started_at x" "st \<in> {Cancelling, Unknown}"
  shows "row_in_phase ph y"
  using assms
  by (cases "(ph, x)" rule: row_in_phase.cases) (auto simp: proven_pre_execution_def status_sets)

lemma begin_dispatched_cancel_core [inv_preserved]:
  assumes ok: "core_ok {} c" and x: "row c (at_run_id x) = Some x"
    and st: "at_status x \<in> {Starting, Running, Cancelling}"
  shows "core_ok {} (snd (begin_dispatched_cancel now x c))"
proof -
  let ?r = "at_run_id x"
  let ?c = "upd_active ?r (\<lambda>a. a\<lparr>ar_cancel_requested := True\<rparr>) c"
  have ok1: "core_ok {} ?c"
    by (rule upd_active_core [OF ok]) simp_all
  have x1: "row ?c ?r = Some x" "\<not> is_terminal (at_status x)"
    using x st by (auto simp: status_sets)
  obtain a where a: "active_of ?c ?r = Some a" "row_in_phase (ar_phase a) x"
    "?r \<in> active_runs ?c" "core_ok {?r} ?c" "\<not> proven x" "run_ok ?c ?r (ar_phase a)"
    by (rule dispatched_active [OF ok1 x1])
  let ?u = "no_update\<lparr>up_status := Some Cancelling\<rparr>"
  obtain c2 where c2: "store_update now ?r ?u ?c = Inr c2" "core_ok {?r} c2" "same_but ?r ?c c2"
    "row c2 ?r = Some (apply_update now ?u x)"
    by (rule store_update_core [OF a(4) x1(1) a(5,3), of now ?u])
      (simp_all add: proven_pre_execution_def)
  have "row_in_phase (ar_phase a) (apply_update now ?u x)"
    by (rule cancelling_in_phase [OF a(2) st, of _ Cancelling]) simp_all
  then have ok2: "core_ok {} c2"
    by (rule row_change_keeps [OF c2(2,3) a(1,6) c2(4)])
  have "at_started_at x \<noteq> None"
    using a(2) st by (cases "(ar_phase a, x)" rule: row_in_phase.cases) auto
  then have "cancel_ok c2 (?r, DispatchedWait (at_runner_instance x) ''cancel requested'')"
    using c2(4) by (simp add: cancel_ok_def)
  from cancel_ok_add [OF ok2 this] c2(1) show ?thesis
    by (simp add: begin_dispatched_cancel_def Let_def)
qed

lemma cancel_core [inv_preserved]:
  assumes ok: "core_ok {} c"
  shows "core_ok {} (snd (cancel now r who c))"
proof (cases "row c r")
  case None
  with ok show ?thesis by (simp add: cancel_def)
next
  case (Some x)
  have rid: "at_run_id x = r"
    using Some by (rule get_attempt_run_id)
  show ?thesis
  proof (cases "at_principal x \<noteq> who \<or> at_status x \<notin> {Queued, Reserved}")
    case True
    have "core_ok {} (snd (begin_dispatched_cancel now x c))"
      if "at_status x \<in> {Starting, Running, Cancelling}"
      using begin_dispatched_cancel_core [OF ok _ that] Some rid by simp
    with True Some ok show ?thesis
      by (auto simp: cancel_def)
  next
    case False
    then have "\<not> is_terminal (at_status x)"
      by (auto simp: status_sets)
    then obtain a where a: "active_of c r = Some a"
      by (rule dispatched_active [OF ok Some])
    let ?c = "upd_active r (\<lambda>a. a\<lparr>ar_cancel_requested := True, ar_cancel_event := True\<rparr>) c"
    have "core_ok {} ?c"
      by (rule upd_active_core [OF ok]) simp_all
    then have "core_ok {} (?c\<lparr>ct_cancels := ct_cancels ?c @ [(r, QueuedWait)]\<rparr>)"
      by (rule cancel_ok_add) (simp add: cancel_ok_def)
    with False Some a show ?thesis
      by (auto simp: cancel_def)
  qed
qed

lemma remove_cancel_core: "core_ok X c \<Longrightarrow> core_ok X (c\<lparr>ct_cancels := remove1 w (ct_cancels c)\<rparr>)"
  by (erule core_ok_frame) (simp_all add: set_remove1_subset)

lemma cancel_queued_resumes_core [inv_preserved]:
  assumes ok: "core_ok {} c"
  shows "core_ok {} (snd (cancel_queued_resumes now r c))"
proof -
  let ?c = "c\<lparr>ct_cancels := remove1 (r, QueuedWait) (ct_cancels c)\<rparr>"
  have ok1: "core_ok {} ?c"
    using ok by (rule remove_cancel_core)
  have "core_ok {} (snd (begin_dispatched_cancel now x ?c))"
    if "row c r = Some x" "at_status x \<in> {Starting, Running, Cancelling}" for x
    using begin_dispatched_cancel_core [OF ok1 _ that(2)] that(1) get_attempt_run_id [OF that(1)]
    by simp
  with ok1 show ?thesis
    by (auto simp: cancel_queued_resumes_def Let_def split: option.splits)
qed

lemma cancel_dispatched_resumes_core [inv_preserved]:
  assumes ok: "core_ok {} c" and w: "(r, DispatchedWait i d0) \<in> set (ct_cancels c)"
  shows "core_ok {} (snd (cancel_dispatched_resumes now r i d0 drv c))"
proof -
  let ?c = "c\<lparr>ct_cancels := remove1 (r, DispatchedWait i d0) (ct_cancels c)\<rparr>"
  have ok1: "core_ok {} ?c"
    using ok by (rule remove_cancel_core)
  obtain x where x: "row c r = Some x" "at_started_at x \<noteq> None"
    using core_okD(7) [OF ok w] by (auto simp: cancel_ok_def)
  show ?thesis
  proof (cases "is_terminal (at_status x)")
    case True
    with ok1 x show ?thesis
      by (simp add: cancel_dispatched_resumes_def Let_def)
  next
    case False
    have x1: "row ?c r = Some x"
      using x(1) by simp
    obtain a where a: "active_of ?c r = Some a" "row_in_phase (ar_phase a) x"
      "r \<in> active_runs ?c" "core_ok {r} ?c" "\<not> proven x" "run_ok ?c r (ar_phase a)"
      by (rule dispatched_active [OF ok1 x1 False])
    have st: "at_status x \<in> {Starting, Running, Cancelling}"
      using a(2) x(2) False
      by (cases "(ar_phase a, x)" rule: row_in_phase.cases; cases "at_status x")
        (auto simp: status_sets)
    obtain c2 y where c2: "finish now r Unknown OutUnknown
        ''cancellation not confirmed; execution outcome unknown'' ?c = Inr c2"
      "core_ok {r} c2" "same_but r ?c c2" "row c2 r = Some y" "at_status y = Unknown"
      "at_started_at y = at_started_at x"
      by (rule finish_core [OF a(4) x1 a(5,3) unknown_unproven])
    have "row_in_phase (ar_phase a) y"
      by (rule cancelling_in_phase [OF a(2) st c2(5,6)]) simp
    then have "core_ok {} c2"
      by (rule row_change_keeps [OF c2(2,3) a(1,6) c2(4)])
    then have "core_ok {} (quarantine_run now i r ''cancellation not confirmed'' c2)"
      by (rule quarantine_run_core)
    with False x c2(1) show ?thesis
      by (simp add: cancel_dispatched_resumes_def Let_def)
  qed
qed

section \<open>Submission\<close>

lemma reserve_rows:
  assumes res: "reserve now q policy s = Inr s'"
  shows "get_attempt s (at_run_id q) = None"
    and "get_attempt s' r = (if r = at_run_id q
       then Some (q\<lparr>at_verification := None, at_usage := None, at_created_at := now,
                at_updated_at := now, at_started_at := None\<rparr>)
       else get_attempt s r)"
proof -
  let ?new = "q\<lparr>at_verification := None, at_usage := None, at_created_at := now,
                at_updated_at := now, at_started_at := None\<rparr>"
  note D = reserve_InrD(3,4) [OF res]
  have fresh: "at_run_id q \<notin> at_run_id ` set (st_attempts s)"
    using D(2) unfolding D(1) by (simp add: attempts_constraints_def)
  show none: "get_attempt s (at_run_id q) = None"
  proof (cases "get_attempt s (at_run_id q)")
    case (Some a)
    then show ?thesis
      using fresh get_attempt_SomeD [OF Some] by (metis image_eqI)
  qed
  have "List.find P (xs @ [y]) = (case List.find P xs of None \<Rightarrow> if P y then Some y else None
      | Some x \<Rightarrow> Some x)" for P and xs :: "attempt list" and y
    by (induction xs) auto
  then show "get_attempt s' r = (if r = at_run_id q then Some ?new else get_attempt s r)"
    using none by (auto simp: get_attempt_def D(1) split: option.splits)
qed

lemma update_fresh: "r \<notin> fst ` set xs \<Longrightarrow> AList.update r a xs = xs @ [(r, a)]"
  by (induction xs) auto

lemma new_active_fields [simp]:
  "ar_record (new_active cfg q a) = a" "ar_phase (new_active cfg q a) = Waiting"
  by (simp_all add: new_active_def)

lemma reservation_core:
  assumes ok: "core_ok {} c"
    and res: "reserve now (reservation_row g runner rid aid digest q) policy (ct_store c) = Inr s"
    and rec: "get_attempt s rid = Some new_row"
  shows "core_ok {} (c\<lparr>ct_store := s, ct_runner_out := ro, ct_principal_out := po,
      ct_active := AList.update rid (new_active cfg q new_row) (ct_active c)\<rparr>)" (is "core_ok {} ?c")
proof -
  note R = reserve_rows [OF res, unfolded reservation_row_def, simplified]
  have fresh: "row c rid = None"
    using R(1) by simp
  have new: "at_status new_row = Queued" "at_started_at new_row = None" "at_run_id new_row = rid"
    using rec R(2) [of rid] by auto
  have others: "r \<noteq> rid \<Longrightarrow> get_attempt s r = row c r" for r
    using R(2) [of r] by simp
  have quiet: "has_events ?c = has_events c"
    using reserve_InrD(6) [OF res] by (simp add: has_events_def fun_eq_iff)
  have notin: "rid \<notin> active_runs c"
  proof
    assume "rid \<in> active_runs c"
    then obtain a where "active_of c rid = Some a"
      using active_of_None [of c rid] by blast
    then show False
      using core_okD(3) [OF ok] fresh by (fastforce simp: link_ok_def)
  qed
  have silent_new: "\<not> has_events c rid"
    using core_okD(6) [OF ok, of rid] fresh by auto
  have act: "active_of ?c r = (if r = rid then Some (new_active cfg q new_row) else active_of c r)" for r
    by (simp add: active_of_def update_conv')
  have "link_ok ?c r a \<and> run_ok ?c r (ar_phase a)" if "active_of ?c r = Some a" for r a
  proof (cases "r = rid")
    case True
    then have "a = new_active cfg q new_row"
      using that act by simp
    then show ?thesis
      using True rec new silent_new by (simp add: link_ok_def run_ok_def quiet)
  next
    case False
    then show ?thesis
      using that act core_okD(3,4) [OF ok, of r a]
      by (simp add: link_ok_def run_ok_def quiet others)
  qed
  moreover have "is_terminal (at_status x)" if "row ?c r = Some x" "r \<notin> active_runs ?c" for r x
    using that core_okD(5) [OF ok, of r x] others [of r] by (auto simp: dom_update)
  moreover have "\<exists>x. row ?c r = Some x \<and> \<not> proven x" if "has_events ?c r" for r
    using that core_okD(6) [OF ok, of r] others [of r] fresh by (cases "r = rid") (auto simp: quiet)
  moreover have "cancel_ok ?c w" if w: "w \<in> set (ct_cancels c)" for w
  proof (cases "fst w = rid")
    case True
    then show ?thesis
      using core_okD(7) [OF ok w] fresh
      by (auto simp: cancel_ok_def split: prod.splits cancel_wait.splits)
  next
    case False
    then show ?thesis
      using core_okD(7) [OF ok w] others
      by (auto simp: cancel_ok_def split: prod.splits cancel_wait.splits)
  qed
  moreover have "distinct (map fst (ct_active ?c))"
    using core_okD(2) [OF ok] by (simp add: distinct_update)
  ultimately show ?thesis
    using reserve_store_ok [OF core_okD(1) [OF ok] res] unfolding core_ok_def by simp
qed

lemma submit_core [inv_preserved]:
  assumes ok: "core_ok {} c"
  shows "core_ok {} (snd (submit sha cfg g now rid aid q c))"
proof (cases "snd (submit sha cfg g now rid aid q c) = c")
  case True
  with ok show ?thesis by simp
next
  case False
  then obtain runner s rw ro po where res:
    "reserve now (reservation_row g runner rid aid (request_hash sha q) q)
       (pc_task_policy (su_preset q)) (ct_store c) = Inr s"
    "get_attempt s rid = Some rw"
    "snd (submit sha cfg g now rid aid q c) = c\<lparr>ct_store := s, ct_runner_out := ro,
       ct_principal_out := po,
       ct_active := AList.update rid (new_active cfg q rw) (ct_active c)\<rparr>"
    using reserve_rows(2) [of now "reservation_row g _ rid aid (request_hash sha q) q"
        "pc_task_policy (su_preset q)" "ct_store c" _ rid]
    by (auto simp: submit_def Let_def reservation_row_def
        split: sum.splits option.splits if_splits)
  then show ?thesis
    using reservation_core [OF ok res(1,2)] by simp
qed

section \<open>Restart\<close>

lemma not_active_terminal: "\<not> is_active st \<longleftrightarrow> is_terminal st"
  by (cases st) (auto simp: status_sets)

lemma restart_rows:
  "get_attempt (snd (reconcile_restart now s)) r = map_option (reconcile_row now) (get_attempt s r)"
proof -
  have "List.find (\<lambda>a. at_run_id a = r) (map (reconcile_row now) rs) =
      map_option (reconcile_row now) (List.find (\<lambda>a. at_run_id a = r) rs)" for rs
    by (induction rs) auto
  then show ?thesis
    by (simp add: get_attempt_def reconcile_restart_def)
qed

lemma restart_core [inv_preserved]:
  assumes ok: "core_ok {} c"
  shows "core_ok {} (restart now c)"
proof -
  have ev: "has_events (restart now c) = has_events c"
    by (simp add: has_events_def restart_def initial_ctl_def reconcile_restart_def fun_eq_iff)
  have rows: "row (restart now c) r = map_option (reconcile_row now) (row c r)" for r
    by (simp add: restart_def initial_ctl_def restart_rows)
  have "is_terminal (at_status x)" if "row (restart now c) r = Some x" for r x
    using that reconcile_row_inactive not_active_terminal by (auto simp: rows)
  moreover have "\<exists>x. row (restart now c) r = Some x \<and> \<not> proven x"
    if "has_events (restart now c) r" for r
    using that core_okD(6) [OF ok, of r] reconcile_row_proven
    by (fastforce simp: ev rows simp del: reconcile_row_frames)
  ultimately show ?thesis
    using reconcile_store_ok [OF core_okD(1) [OF ok], of now]
    unfolding core_ok_def by (simp add: restart_def initial_ctl_def active_of_def)
qed

section \<open>The step relation\<close>

inductive ctl_step :: "(hash_payload \<Rightarrow> string) \<Rightarrow> operator_config \<Rightarrow> ctl \<Rightarrow> ctl \<Rightarrow> bool"
  for sha cfg where
  submit: "ctl_step sha cfg c (snd (submit sha cfg g now rid aid q c))"
| runner_slot: "ctl_step sha cfg c (acquire_runner cfg g r c)"
| principal_slot: "ctl_step sha cfg c (acquire_principal r c)"
| no_slot: "ctl_step sha cfg c (acquire_fails now timed_out r c)"
| cancelled_queued: "ctl_step sha cfg c (cancelled_in_queue now r c)"
| task_cancelled: "ctl_step sha cfg c (task_cancelled_in_queue now r c)"
| orphan: "ctl_step sha cfg c (orphan_step i p held timed_out c)"
| dispatch: "ctl_step sha cfg c (dispatch now r c)"
| event: "ctl_step sha cfg c (stream_event cfg now r e c)"
| stream_ends: "ctl_step sha cfg c (stream_end cfg now af path w r result c)"
| raises: "session_contract e r c \<Longrightarrow> ctl_step sha cfg c (stream_raises e r c)"
| closes: "(\<And>e. failure = Some e \<Longrightarrow> \<not> pre_rejection e) \<Longrightarrow>
    ctl_step sha cfg c (close_session now failure r c)"
| cancel: "ctl_step sha cfg c (snd (cancel now r who c))"
| queued_cancel: "(r, QueuedWait) \<in> set (ct_cancels c) \<Longrightarrow>
    ctl_step sha cfg c (snd (cancel_queued_resumes now r c))"
| dispatched_cancel: "(r, DispatchedWait i d0) \<in> set (ct_cancels c) \<Longrightarrow>
    ctl_step sha cfg c (snd (cancel_dispatched_resumes now r i d0 drv c))"
| restart: "ctl_step sha cfg c (restart now c)"

inductive_cases ctl_stepE: "ctl_step sha cfg c c'"

definition ctl_reachable :: "(hash_payload \<Rightarrow> string) \<Rightarrow> operator_config \<Rightarrow> ctl \<Rightarrow> bool" where
  "ctl_reachable sha cfg = (ctl_step sha cfg)\<^sup>*\<^sup>* (initial_ctl empty_store)"

lemma initial_core: "core_ok {} (initial_ctl empty_store)"
  by (simp add: core_ok_def initial_ctl_def active_of_def has_events_def get_attempt_def)
    (simp add: empty_store_def)

lemma ctl_step_core: "ctl_step sha cfg c c' \<Longrightarrow> core_ok {} c \<Longrightarrow> core_ok {} c'"
  by (erule ctl_step.cases) (simp_all add: inv_preserved)

interpretation controller: invariant_system "ctl_step sha cfg" "core_ok {}"
  by unfold_locales (rule ctl_step_core)

lemma reachable_core: "ctl_reachable sha cfg c \<Longrightarrow> core_ok {} c"
  unfolding ctl_reachable_def using controller.steps_inv initial_core by blast

end
