(* ===== verification/ControllerHistory.thy ===== *)
theory ControllerHistory
  imports ControllerSteps
begin

text \<open>
  How one segment may change the row of an attempt: the row stays, its identity is fixed, its
  status only moves forward, and a run that becomes unknown leaves its Runner quarantined in its
  name.
\<close>

section \<open>Forward moves\<close>

fun status_rank :: "status \<Rightarrow> nat" where
  "status_rank Reserved = 0"
| "status_rank Queued = 0"
| "status_rank Starting = 1"
| "status_rank Running = 2"
| "status_rank Cancelling = 3"
| "status_rank _ = 4"

lemma status_rank_max: "status_rank st \<le> 4"
  by (cases st) simp_all

lemma status_rank_terminal: "status_rank st = 4 \<longleftrightarrow> is_terminal st"
  by (cases st) (simp_all add: status_sets)

definition same_identity :: "attempt \<Rightarrow> attempt \<Rightarrow> bool" where
  "same_identity x y \<longleftrightarrow>
     at_run_id y = at_run_id x \<and> at_key y = at_key x \<and> at_attempt_id y = at_attempt_id x \<and>
     at_preset y = at_preset x \<and> at_runner_instance y = at_runner_instance x \<and>
     at_request_hash y = at_request_hash x \<and> at_execution y = at_execution x \<and>
     at_model_binding y = at_model_binding x"

definition quarantined_for :: "store \<Rightarrow> attempt \<Rightarrow> bool" where
  "quarantined_for s y \<longleftrightarrow>
     (\<exists>q. get_quarantine s (at_runner_instance y) = Some q \<and> qr_run_id q = Some (at_run_id y))"

definition evolves :: "bool \<Rightarrow> store \<Rightarrow> store \<Rightarrow> bool" where
  "evolves strict s t \<longleftrightarrow>
     (\<forall>r x. get_attempt s r = Some x \<longrightarrow>
        (\<exists>y. get_attempt t r = Some y \<and> same_identity x y \<and>
           status_rank (at_status x) \<le> status_rank (at_status y) \<and>
           (at_status y = Unknown \<longrightarrow> at_status x = Unknown \<or> (strict \<longrightarrow> quarantined_for t y))))"

lemma same_identity_refl [simp]: "same_identity x x"
  by (simp add: same_identity_def)

lemma same_identity_trans: "same_identity x y \<Longrightarrow> same_identity y z \<Longrightarrow> same_identity x z"
  by (simp add: same_identity_def)

lemma same_identity_update [simp]: "same_identity x (apply_update now u x)"
  by (simp add: same_identity_def apply_update_def at_key_def)

lemma evolves_refl [simp]: "evolves strict s s"
  by (auto simp: evolves_def)

lemma evolves_rows:
  "get_attempt t = get_attempt s \<Longrightarrow> evolves strict s t"
  by (auto simp: evolves_def)

text \<open>
  Only a restart (\<open>strict\<close> false) may leave an unknown run without the quarantine.
\<close>

text \<open>A second move that leaves the quarantine table alone.\<close>

lemma evolves_then:
  assumes "evolves True s t" "evolves True t w" "st_quarantine w = st_quarantine t"
  shows "evolves True s w"
  unfolding evolves_def
proof (intro allI impI)
  fix r x
  assume "get_attempt s r = Some x"
  then obtain y where y: "get_attempt t r = Some y" "same_identity x y"
    "status_rank (at_status x) \<le> status_rank (at_status y)"
    "at_status y = Unknown \<longrightarrow> at_status x = Unknown \<or> quarantined_for t y"
    using assms(1) by (auto simp: evolves_def)
  then obtain z where z: "get_attempt w r = Some z" "same_identity y z"
    "status_rank (at_status y) \<le> status_rank (at_status z)"
    "at_status z = Unknown \<longrightarrow> at_status y = Unknown \<or> quarantined_for w z"
    using assms(2) by (auto simp: evolves_def)
  have "quarantined_for w z" if "quarantined_for t y"
    using that z(2) assms(3) by (auto simp: quarantined_for_def get_quarantine_def same_identity_def)
  with y z same_identity_trans show "\<exists>y. get_attempt w r = Some y \<and> same_identity x y \<and>
      status_rank (at_status x) \<le> status_rank (at_status y) \<and>
      (at_status y = Unknown \<longrightarrow>
         at_status x = Unknown \<or> (True \<longrightarrow> quarantined_for w y))"
    by (metis order_trans)
qed

section \<open>Units\<close>

lemma store_update_quarantine:
  "store_update now r u c = Inr c' \<Longrightarrow> st_quarantine (ct_store c') = st_quarantine (ct_store c)"
  by (auto simp: store_update_def dest: set_attempt_InrD(6) split: sum.splits)

lemma store_update_rows:
  "store_update now r u c = Inr c' \<Longrightarrow>
     row c' r' = (if r' = r then map_option (apply_update now u) (row c r) else row c r')"
  by (auto simp: store_update_def get_attempt_update split: sum.splits)

lemma store_update_evolves:
  assumes "store_update now r u c = Inr c'"
    and "\<And>x. row c r = Some x \<Longrightarrow>
      status_rank (at_status x) \<le> status_rank (override (up_status u) (at_status x))"
    and "up_status u \<noteq> Some Unknown"
  shows "evolves True (ct_store c) (ct_store c')"
proof -
  have "override (up_status u) st = Unknown \<Longrightarrow> st = Unknown" for st
    using assms(3) by (cases "up_status u") auto
  then show ?thesis
    using assms(2) store_update_rows [OF assms(1)] by (auto simp: evolves_def)
qed

lemma finish_run_rows:
  "finish_run now r u st c = Inr c' \<Longrightarrow>
     row c' r' = (if r' = r then map_option (apply_update now u) (row c r) else row c r')"
  by (auto simp: finish_run_def Let_def store_update_rows)

lemma finish_run_evolves:
  assumes "finish_run now r u st c = Inr c'" "up_status u = Some st" "is_terminal st" "st \<noteq> Unknown"
  shows "evolves True (ct_store c) (ct_store c')"
  using assms finish_run_rows [OF assms(1)] status_rank_max status_rank_terminal [of st]
  by (auto simp: evolves_def)

lemma finish_run_unknown_evolves:
  assumes fin: "finish_run now r u Unknown c = Inr c'" and u: "up_status u = Some Unknown"
    and i: "\<And>x. row c r = Some x \<Longrightarrow> at_runner_instance x = i"
  shows "evolves True (ct_store c) (ct_store (quarantine_run now' i r reason c'))"
proof -
  have rows: "row (quarantine_run now' i r reason c') r' =
      (if r' = r then map_option (apply_update now u) (row c r) else row c r')" for r'
    using finish_run_rows [OF fin] by (simp add: quarantine_run_def)
  have "quarantined_for (ct_store (quarantine_run now' i r reason c')) (apply_update now u x)"
    if "row c r = Some x" for x
    using i [OF that] get_attempt_run_id [OF that]
    by (simp add: quarantined_for_def quarantine_run_def quarantine.entry_put)
  then show ?thesis
    using u status_rank_max by (auto simp: evolves_def rows)
qed

lemma finish_evolves:
  assumes "finish now r st out d c = Inr c'" "is_terminal st" "st \<noteq> Unknown"
  shows "evolves True (ct_store c) (ct_store c')"
  using assms(1) unfolding finish_def
  by (rule finish_run_evolves) (simp_all add: finish_update_def assms)

lemma unknown_and_quarantine_evolves:
  assumes "\<And>x. row c r = Some x \<Longrightarrow> at_runner_instance x = i"
  shows "evolves True (ct_store c) (ct_store (unknown_and_quarantine now i r d reason c))"
proof (cases "finish now r Unknown OutUnknown d c")
  case (Inr c')
  then show ?thesis
    using finish_run_unknown_evolves [of now r _ c c' i, OF _ _ assms]
    by (simp add: unknown_and_quarantine_def finish_def finish_update_def)
qed (simp add: unknown_and_quarantine_def)

lemma handle_exception_evolves:
  assumes "\<And>x. row c r = Some x \<Longrightarrow> at_runner_instance x = i"
  shows "evolves True (ct_store c) (ct_store (handle_exception now i r e c))"
  using unknown_and_quarantine_evolves [OF assms] finish_evolves
  by (cases "(now, i, r, e, c)" rule: handle_exception.cases) (auto split: sum.splits)

lemma end_execute_store [simp]: "ct_store (end_execute acq r c) = ct_store c"
  by (simp add: end_execute_def Let_def release_outstanding_def release_runner_def
      release_principal_def split: option.splits)

text \<open>The instance a segment quarantines is the one on the row.\<close>

lemma active_instance:
  assumes "core_ok {} c" "active_of c r = Some a" "row c r = Some x"
  shows "at_runner_instance x = at_runner_instance (ar_record a)"
  using core_okD(3) [OF assms(1,2)] assms(3) by (auto simp: link_ok_def)

lemma finish_or_handle_evolves:
  assumes "is_terminal st" "st \<noteq> Unknown" "\<And>x. row c r = Some x \<Longrightarrow> at_runner_instance x = i"
  shows "evolves True (ct_store c) (ct_store (case finish now r st out d c of
      Inl e \<Rightarrow> handle_exception now i r (Exn e) c | Inr c' \<Rightarrow> c'))"
  using finish_evolves assms(1,2) handle_exception_evolves [OF assms(3)]
  by (auto split: sum.splits)

section \<open>Segments\<close>

lemma acquire_evolves:
  "evolves True (ct_store c) (ct_store (acquire_runner cfg g r c))"
  "evolves True (ct_store c) (ct_store (acquire_principal r c))"
  "evolves True (ct_store c) (ct_store (orphan_step i p held timed_out c))"
  by (simp_all add: acquire_runner_def acquire_principal_def orphan_step_def Let_def
      release_runner_def split: option.splits)

lemma queue_end_evolves:
  assumes ok: "core_ok {} c"
  shows "evolves True (ct_store c) (ct_store (acquire_fails now timed_out r c))"
    and "evolves True (ct_store c) (ct_store (cancelled_in_queue now r c))"
    and "evolves True (ct_store c) (ct_store (task_cancelled_in_queue now r c))"
proof -
  have fin: "evolves True (ct_store c) (ct_store (case finish now r st out d c' of
      Inl e \<Rightarrow> handle_exception now (at_runner_instance (ar_record a)) r (Exn e) c' | Inr c'' \<Rightarrow> c''))"
    if "active_of c r = Some a" "is_terminal st" "st \<noteq> Unknown" "ct_store c' = ct_store c"
    for a st out d c'
    using finish_or_handle_evolves [of st c' r "at_runner_instance (ar_record a)"]
      active_instance [OF ok that(1)] that(2-4) by simp
  show "evolves True (ct_store c) (ct_store (acquire_fails now timed_out r c))"
    by (auto simp: acquire_fails_def Let_def fin split: option.splits)
  show "evolves True (ct_store c) (ct_store (cancelled_in_queue now r c))"
    by (auto simp: cancelled_in_queue_def Let_def fin split: option.splits)
  have "evolves True (ct_store c)
      (ct_store (handle_exception now (at_runner_instance (ar_record a)) r TaskCancelled c'))"
    if "active_of c r = Some a" "ct_store c' = ct_store c" for a c'
    using unknown_and_quarantine_evolves [of c' r "at_runner_instance (ar_record a)"]
      active_instance [OF ok that(1)] that(2) by simp
  then show "evolves True (ct_store c) (ct_store (task_cancelled_in_queue now r c))"
    by (auto simp: task_cancelled_in_queue_def Let_def split: option.splits)
qed

lemma mark_starting_evolves:
  assumes "mark_starting now r c = Inr c'"
  shows "evolves True (ct_store c) (ct_store c')"
proof -
  obtain x u where x: "row c r = Some x" "store_update now r u c = Inr c'"
    "u = no_update\<lparr>up_status := Some Starting, up_started_at := Some now\<rparr> \<and>
       at_status x \<in> {Queued, Reserved, Starting} \<or> u = no_update\<lparr>up_started_at := Some now\<rparr>"
    using assms by (auto simp: mark_starting_def split: option.splits if_splits)
  show ?thesis
    by (rule store_update_evolves [OF x(2)]) (use x(1,3) in auto)
qed

lemma dispatch_evolves:
  assumes ok: "core_ok {} c"
  shows "evolves True (ct_store c) (ct_store (dispatch now r c))"
proof (cases "active_of c r")
  case None
  then show ?thesis by (simp add: dispatch_def)
next
  case (Some a)
  have "evolves True (ct_store c) (ct_store (case finish now r Failed Rejected d c of
      Inl e \<Rightarrow> handle_exception now (at_runner_instance (ar_record a)) r (Exn e) c | Inr c' \<Rightarrow> c'))"
    for d
    by (rule finish_or_handle_evolves) (use active_instance [OF ok Some] in auto)
  moreover have "evolves True (ct_store c)
      (ct_store (handle_exception now (at_runner_instance (ar_record a)) r e c))" for e
    using handle_exception_evolves active_instance [OF ok Some] by blast
  ultimately show ?thesis
    using Some mark_starting_evolves by (auto simp: dispatch_def Let_def split: sum.splits)
qed

lemma append_event_evolves:
  "append_event r e s = Inr s' \<Longrightarrow> evolves True s s' \<and> st_quarantine s' = st_quarantine s"
  using append_event_rows evolves_rows append_event_InrD(6) by metis

lemma first_event_status_evolves:
  assumes "first_event_status now r b c = Inr c'"
  shows "evolves True (ct_store c) (ct_store c') \<and> st_quarantine (ct_store c') = st_quarantine (ct_store c)"
proof (cases "c' = c")
  case False
  then obtain x where x: "row c r = Some x" "at_status x \<in> {Starting, Running}"
    "store_update now r (no_update\<lparr>up_status := Some Running\<rparr>) c = Inr c'"
    using assms by (auto simp: first_event_status_def split: if_splits option.splits)
  have "evolves True (ct_store c) (ct_store c')"
    by (rule store_update_evolves [OF x(3)]) (use x(1,2) in auto)
  then show ?thesis
    using store_update_quarantine [OF x(3)] by blast
qed simp

lemma stream_event_evolves:
  "evolves True (ct_store c) (ct_store (stream_event cfg now r e c))"
proof (cases "\<exists>a sp s. active_of c r = Some a \<and> ar_phase a = Streaming sp \<and>
    append_event r e (ct_store c) = Inr s")
  case False
  then show ?thesis
    by (auto simp: stream_event_def Let_def split: option.splits phase.splits sum.splits)
next
  case True
  then obtain a sp s where a: "active_of c r = Some a" "ar_phase a = Streaming sp"
    "append_event r e (ct_store c) = Inr s" by blast
  let ?c1 = "upd_active r (\<lambda>a. a\<lparr>ar_last_event_sequence := ev_sequence e\<rparr>) (c\<lparr>ct_store := s\<rparr>)"
  note app = append_event_evolves [OF a(3)]
  have "evolves True (ct_store c) (ct_store c2)"
    if "first_event_status now r b ?c1 = Inr c2" for b c2
    using evolves_then [of "ct_store c" s "ct_store c2"] app first_event_status_evolves [OF that]
    by simp
  with a app show ?thesis
    by (auto simp: stream_event_def Let_def split: sum.splits option.splits)
qed

lemma persist_artifact_evolves:
  assumes "persist_artifact cfg now af path w a t c = (e, c')"
  shows "evolves True (ct_store c) (ct_store c') \<and> st_quarantine (ct_store c') = st_quarantine (ct_store c)"
proof (cases "write_artifact cfg now af path w a t c")
  case (Inr d)
  then have "c' = d"
    using assms by (simp add: persist_artifact_def)
  moreover have "get_attempt (ct_store d) = row c" "st_quarantine (ct_store d) = st_quarantine (ct_store c)"
    using Inr by (auto simp: write_artifact_def add_artifact_def get_attempt_def fun_eq_iff
        split: if_splits file_write.splits)
  ultimately show ?thesis
    using evolves_rows by metis
next
  case (Inl x)
  show ?thesis
  proof (cases "c' = c")
    case False
    then obtain d where d: "store_update now (at_run_id a) (no_update\<lparr>up_detail := Some d\<rparr>) c = Inr c'"
      using assms Inl by (auto simp: persist_artifact_def Let_def split: option.splits sum.splits)
    have "evolves True (ct_store c) (ct_store c')"
      by (rule store_update_evolves [OF d]) simp_all
    then show ?thesis
      using store_update_quarantine [OF d] by blast
  qed simp
qed

lemma status_of_result_terminal: "is_terminal (status_of_result st)"
  by (cases st) simp_all

lemma stream_terminal_evolves:
  assumes "stream_terminal cfg now af path w a sp res c = (e, c')"
    and i: "\<And>x. row c (at_run_id (ar_record a)) = Some x \<Longrightarrow>
      at_runner_instance x = at_runner_instance (ar_record a)"
  shows "evolves True (ct_store c) (ct_store c')"
proof (cases "status_of_result (rr_status res) = Unknown")
  case True
  then show ?thesis
    using assms(1) finish_run_unknown_evolves [OF _ _ i]
    by (auto simp: stream_terminal_def Let_def finish_update_def split: sum.splits)
next
  case False
  let ?r = "at_run_id (ar_record a)"
  let ?st = "status_of_result (rr_status res)"
  let ?u = "finish_update now ?st (Some (outcome_of_result (rr_outcome res))) (rr_detail res)
      (Some (rr_verification res)) (Some (rr_usage res)) (stream_summary sp)"
  show ?thesis
  proof (cases "finish_run now ?r ?u ?st c")
    case (Inl x)
    with False assms(1) show ?thesis
      by (simp add: stream_terminal_def Let_def)
  next
    case (Inr d)
    have fin: "evolves True (ct_store c) (ct_store d)"
      by (rule finish_run_evolves [OF Inr])
        (simp_all add: finish_update_def status_of_result_terminal False)
    have "c' = d \<or> (\<exists>t. persist_artifact cfg now af path w (ar_record a) t d = (e, c'))"
      using assms(1) False Inr
      by (auto simp: stream_terminal_def Let_def split: option.splits if_splits)
    then show ?thesis
      using fin evolves_then [OF fin] persist_artifact_evolves by metis
  qed
qed

lemma stream_end_evolves:
  assumes ok: "core_ok {} c"
  shows "evolves True (ct_store c) (ct_store (stream_end cfg now af path w r result c))"
proof (cases "\<exists>a sp res. active_of c r = Some a \<and> ar_phase a = Streaming sp \<and> result = Some res")
  case False
  then show ?thesis
    by (auto simp: stream_end_def split: option.splits phase.splits)
next
  case True
  then obtain a sp res where a: "active_of c r = Some a" "ar_phase a = Streaming sp"
    "result = Some res" by blast
  have "at_run_id (ar_record a) = r"
    using core_okD(3) [OF ok a(1)] by (auto simp: link_ok_def)
  then have "evolves True (ct_store c) (ct_store (snd (stream_terminal cfg now af path w a sp res c)))"
    using stream_terminal_evolves [of cfg now af path w a sp res c] active_instance [OF ok a(1)]
    by (metis prod.collapse)
  with a show ?thesis
    by (auto simp: stream_end_def split: prod.splits option.splits)
qed

lemma close_session_evolves:
  assumes ok: "core_ok {} c"
  shows "evolves True (ct_store c) (ct_store (close_session now failure r c))"
  using handle_exception_evolves active_instance [OF ok]
  by (auto simp: close_session_def Let_def split: option.splits phase.splits pending.splits)

lemma begin_dispatched_cancel_evolves:
  assumes "row c (at_run_id x) = Some x" "at_status x \<in> {Starting, Running, Cancelling}"
  shows "evolves True (ct_store c) (ct_store (snd (begin_dispatched_cancel now x c)))"
proof -
  let ?c = "upd_active (at_run_id x) (\<lambda>a. a\<lparr>ar_cancel_requested := True\<rparr>) c"
  have "evolves True (ct_store ?c) (ct_store d)"
    if "store_update now (at_run_id x) (no_update\<lparr>up_status := Some Cancelling\<rparr>) ?c = Inr d" for d
    by (rule store_update_evolves [OF that]) (use assms in auto)
  then show ?thesis
    by (auto simp: begin_dispatched_cancel_def Let_def split: sum.splits)
qed

lemma cancel_evolves:
  "evolves True (ct_store c) (ct_store (snd (cancel now r who c)))"
proof -
  have "evolves True (ct_store c) (ct_store d)"
    if "finish now r Cancelled OutCancelled t c = Inr d" for t d
    by (rule finish_evolves [OF that]) simp_all
  moreover have "evolves True (ct_store c) (ct_store (snd (begin_dispatched_cancel now x c)))"
    if "row c r = Some x" "at_status x \<in> {Starting, Running, Cancelling}" for x
    using begin_dispatched_cancel_evolves [of c x] that get_attempt_run_id [OF that(1)] by simp
  ultimately show ?thesis
    by (auto simp: cancel_def split: option.splits sum.splits)
qed

lemma cancel_queued_resumes_evolves:
  "evolves True (ct_store c) (ct_store (snd (cancel_queued_resumes now r c)))"
proof -
  let ?c = "c\<lparr>ct_cancels := remove1 (r, QueuedWait) (ct_cancels c)\<rparr>"
  have "evolves True (ct_store c) (ct_store (snd (begin_dispatched_cancel now x ?c)))"
    if "row c r = Some x" "at_status x \<in> {Starting, Running, Cancelling}" for x
    using begin_dispatched_cancel_evolves [of ?c x] that get_attempt_run_id [OF that(1)] by simp
  then show ?thesis
    by (auto simp: cancel_queued_resumes_def Let_def split: option.splits)
qed

lemma cancel_dispatched_resumes_evolves:
  assumes ok: "core_ok {} c" and w: "(r, DispatchedWait i d0) \<in> set (ct_cancels c)"
  shows "evolves True (ct_store c) (ct_store (snd (cancel_dispatched_resumes now r i d0 drv c)))"
proof -
  let ?c = "c\<lparr>ct_cancels := remove1 (r, DispatchedWait i d0) (ct_cancels c)\<rparr>"
  have i: "\<And>x. row ?c r = Some x \<Longrightarrow> at_runner_instance x = i"
    using core_okD(7) [OF ok w] by (auto simp: cancel_ok_def)
  have "evolves True (ct_store c) (ct_store (quarantine_run now i r t d))"
    if "finish now r Unknown OutUnknown t' ?c = Inr d" for t t' d
    using finish_run_unknown_evolves [of now r _ ?c d, OF _ _ i] that
    by (simp add: finish_def finish_update_def)
  then show ?thesis
    by (auto simp: cancel_dispatched_resumes_def Let_def split: option.splits sum.splits)
qed

lemma submit_evolves:
  "evolves True (ct_store c) (ct_store (snd (submit sha cfg g now rid aid q c)))"
proof -
  have "evolves True (ct_store c) s" if "reserve now x policy (ct_store c) = Inr s" for x policy s
    using reserve_rows [OF that] by (auto simp: evolves_def)
  then show ?thesis
    by (auto simp: submit_def Let_def split: sum.splits option.splits)
qed

text \<open>A restart marks runs unknown without a quarantine.\<close>

lemma restart_evolves:
  "evolves False (ct_store c) (ct_store (restart now c))"
  by (auto simp: evolves_def restart_def initial_ctl_def restart_rows reconcile_row_def
      same_identity_def at_key_def status_rank_max)

lemma evolves_weaken: "evolves True s t \<Longrightarrow> evolves False s t"
  unfolding evolves_def by blast

lemmas segment_evolves = submit_evolves acquire_evolves queue_end_evolves dispatch_evolves
  stream_event_evolves stream_end_evolves close_session_evolves cancel_evolves
  cancel_queued_resumes_evolves cancel_dispatched_resumes_evolves

lemma ctl_step_evolves:
  assumes "ctl_step sha cfg c c'" "core_ok {} c"
  shows "evolves True (ct_store c) (ct_store c') \<or> (\<exists>now. c' = restart now c)"
  using assms
proof (cases rule: ctl_step.cases)
  case (raises e r)
  then show ?thesis
    by (auto simp: stream_raises_def split: option.splits phase.splits)
qed (auto simp: segment_evolves)

lemma ctl_step_evolves_weak:
  assumes "ctl_step sha cfg c c'" "core_ok {} c"
  shows "evolves False (ct_store c) (ct_store c')"
  using ctl_step_evolves [OF assms] evolves_weaken restart_evolves by auto

end
