(* ===== verification/ControllerLoad.thy ===== *)
theory ControllerLoad
  imports ControllerHistory
begin

text \<open>
  Bounded admission and bounded concurrency: the outstanding counters count the active runs, and
  a run that has begun to acquire holds a slot of its Runner's semaphore.
\<close>

section \<open>The part of the state that is counted\<close>

definition skel :: "ctl \<Rightarrow> (string \<times> attempt \<times> bool) list" where
  "skel c = map (\<lambda>(r, a). (r, ar_record a, ar_phase a \<noteq> Waiting)) (ct_active c)"

definition on_runner :: "string \<Rightarrow> string \<times> attempt \<times> bool \<Rightarrow> bool" where
  "on_runner i x \<longleftrightarrow> at_runner_instance (fst (snd x)) = i"

definition of_principal :: "string \<Rightarrow> string \<times> attempt \<times> bool \<Rightarrow> bool" where
  "of_principal p x \<longleftrightarrow> at_principal (fst (snd x)) = p"

definition holds_on :: "string \<Rightarrow> string \<times> attempt \<times> bool \<Rightarrow> bool" where
  "holds_on i x \<longleftrightarrow> at_runner_instance (fst (snd x)) = i \<and> snd (snd x)"

definition orphan_on :: "string \<Rightarrow> string \<times> string \<times> bool \<Rightarrow> bool" where
  "orphan_on i x \<longleftrightarrow> fst x = i \<and> snd (snd x)"

definition held_slots :: "(string \<rightharpoonup> semaphore) \<Rightarrow> string \<Rightarrow> nat" where
  "held_slots sems i = (case sems i of None \<Rightarrow> 0 | Some s \<Rightarrow> sm_held s)"

definition runner_cap :: "operator_config \<Rightarrow> nat" where
  "runner_cap cfg = max 1 (cc_per_runner (api_concurrency (oc_api cfg)))"

definition principal_cap :: "operator_config \<Rightarrow> nat" where
  "principal_cap cfg = cc_per_principal (api_concurrency (oc_api cfg)) +
     cc_queued_per_principal (api_concurrency (oc_api cfg))"

definition load_of ::
  "operator_config \<Rightarrow> (string \<times> attempt \<times> bool) list \<Rightarrow> (string \<Rightarrow> nat) \<Rightarrow> (string \<Rightarrow> nat) \<Rightarrow>
     (string \<rightharpoonup> semaphore) \<Rightarrow> (string \<times> string \<times> bool) list \<Rightarrow> bool" where
  "load_of cfg xs ro po sems orphans \<longleftrightarrow>
     distinct (map fst xs) \<and>
     (\<forall>i. ro i = count_where (on_runner i) xs) \<and>
     (\<forall>i. count_where (on_runner i) xs \<le> runner_bound cfg) \<and>
     (\<forall>p. po p = count_where (of_principal p) xs) \<and>
     (\<forall>p. count_where (of_principal p) xs \<le> principal_cap cfg) \<and>
     (\<forall>i s. sems i = Some s \<longrightarrow> sm_held s \<le> sm_limit s \<and> sm_limit s \<le> runner_cap cfg) \<and>
     (\<forall>i. count_where (holds_on i) xs + count_where (orphan_on i) orphans \<le> held_slots sems i)"

definition load_ok :: "operator_config \<Rightarrow> ctl \<Rightarrow> bool" where
  "load_ok cfg c \<longleftrightarrow>
     load_of cfg (skel c) (ct_runner_out c) (ct_principal_out c) (ct_runner_sems c) (ct_orphans c)"

text \<open>Segments that touch none of it.\<close>

definition same_load :: "ctl \<Rightarrow> ctl \<Rightarrow> bool" where
  "same_load c c' \<longleftrightarrow>
     skel c' = skel c \<and> ct_runner_out c' = ct_runner_out c \<and>
     ct_principal_out c' = ct_principal_out c \<and> ct_runner_sems c' = ct_runner_sems c \<and>
     ct_orphans c' = ct_orphans c"

lemma same_load_refl [simp]: "same_load c c"
  by (simp add: same_load_def)

lemma same_load_trans: "same_load c d \<Longrightarrow> same_load d e \<Longrightarrow> same_load c e"
  by (simp add: same_load_def)

lemma same_load_ok: "same_load c c' \<Longrightarrow> load_ok cfg c \<Longrightarrow> load_ok cfg c'"
  by (simp add: same_load_def load_ok_def)

lemma skel_at:
  "map_of (skel c) r = map_option (\<lambda>a. (ar_record a, ar_phase a \<noteq> Waiting)) (active_of c r)"
proof -
  have "map_of (map (\<lambda>(r, a). (r, ar_record a, ar_phase a \<noteq> Waiting)) xs) r =
      map_option (\<lambda>a. (ar_record a, ar_phase a \<noteq> Waiting)) (map_of xs r)" for xs
    by (induction xs) auto
  then show ?thesis
    by (simp add: skel_def active_of_def)
qed

lemma map_update_same_value:
  "map_of xs r = Some a \<Longrightarrow> f (r, b) = f (r, a) \<Longrightarrow> map f (AList.update r b xs) = map f xs"
  by (induction xs) (auto split: if_splits)

lemma skel_upd:
  assumes "\<And>a. active_of c r = Some a \<Longrightarrow>
    ar_record (f a) = ar_record a \<and> (ar_phase (f a) = Waiting \<longleftrightarrow> ar_phase a = Waiting)"
  shows "skel (upd_active r f c) = skel c"
proof (cases "active_of c r")
  case None
  then show ?thesis by (simp add: upd_active_def)
next
  case (Some a)
  then show ?thesis
    using assms [OF Some] unfolding skel_def
    by (simp add: upd_active_def put_active_def)
      (rule map_update_same_value [where a = a], simp_all add: active_of_def)
qed

lemma same_load_upd:
  assumes "\<And>a. active_of c r = Some a \<Longrightarrow>
    ar_record (f a) = ar_record a \<and> (ar_phase (f a) = Waiting \<longleftrightarrow> ar_phase a = Waiting)"
  shows "same_load c (upd_active r f c)"
  using skel_upd [OF assms] by (simp add: same_load_def)

lemma same_load_store [simp]:
  "same_load c (c\<lparr>ct_store := s\<rparr>)" "same_load c (c\<lparr>ct_cancels := ws\<rparr>)"
  "same_load c (c\<lparr>ct_principal_sems := ps\<rparr>)"
  by (simp_all add: same_load_def skel_def)

lemma same_load_set_phase:
  assumes "same_load c d" "active_of c r = Some a" "ar_phase a \<noteq> Waiting" "ph \<noteq> Waiting"
  shows "same_load c (set_phase r ph d)"
proof -
  have "map_of (skel d) r = Some (ar_record a, True)"
    using assms skel_at [of c r] by (simp add: same_load_def)
  then obtain b where "active_of d r = Some b" "ar_phase b \<noteq> Waiting"
    using skel_at [of d r] by (auto split: option.splits)
  then have "same_load d (set_phase r ph d)"
    unfolding set_phase_def by (intro same_load_upd) (simp add: assms(4))
  with assms(1) show ?thesis
    by (rule same_load_trans)
qed

section \<open>Segments that keep the load\<close>

lemma store_update_load: "store_update now r u c = Inr c' \<Longrightarrow> same_load c c'"
  by (auto simp: store_update_def split: sum.splits)

lemma reconcile_quarantine_load: "same_load c (reconcile_quarantine r c)"
  using reconcile_quarantine_cases [of r c] by auto

lemma finish_run_load:
  assumes "finish_run now r u st c = Inr c'"
  shows "same_load c c'"
proof -
  obtain d where d: "store_update now r u c = Inr d"
    "c' = (let d' = upd_active r (\<lambda>a. a\<lparr>ar_terminal_status := Some st, ar_wakeup := True\<rparr>) d
           in if st \<in> set validated_terminals then reconcile_quarantine r d' else d')"
    using assms by (auto simp: finish_run_def Let_def)
  have "same_load c (upd_active r (\<lambda>a. a\<lparr>ar_terminal_status := Some st, ar_wakeup := True\<rparr>) d)"
    by (rule same_load_trans [OF store_update_load [OF d(1)] same_load_upd]) simp
  with d(2) same_load_trans reconcile_quarantine_load show ?thesis
    by (auto simp: Let_def split: if_splits)
qed

lemma quarantine_run_load [simp]: "same_load c (quarantine_run now i r reason c)"
  by (simp add: quarantine_run_def)

lemma finish_load: "finish now r st out d c = Inr c' \<Longrightarrow> same_load c c'"
  unfolding finish_def by (rule finish_run_load)

lemma unknown_and_quarantine_load: "same_load c (unknown_and_quarantine now i r d reason c)"
  by (auto simp: unknown_and_quarantine_def split: sum.splits
      intro: same_load_trans [OF finish_load quarantine_run_load])

lemma handle_exception_load: "same_load c (handle_exception now i r e c)"
  using finish_load unknown_and_quarantine_load
  by (cases "(now, i, r, e, c)" rule: handle_exception.cases) (auto split: sum.splits)

lemma finish_or_handle_load:
  "same_load c (case finish now r st out d c of
      Inl e \<Rightarrow> handle_exception now i r (Exn e) c | Inr c' \<Rightarrow> c')"
  using finish_load handle_exception_load by (auto split: sum.splits)

lemma first_event_status_load: "first_event_status now r b c = Inr c' \<Longrightarrow> same_load c c'"
  using store_update_load by (auto simp: first_event_status_def split: if_splits option.splits)

lemma stream_event_load: "same_load c (stream_event cfg now r e c)"
proof (cases "\<exists>a sp. active_of c r = Some a \<and> ar_phase a = Streaming sp")
  case False
  then show ?thesis
    by (auto simp: stream_event_def split: option.splits phase.splits)
next
  case True
  then obtain a sp where a: "active_of c r = Some a" "ar_phase a = Streaming sp" by blast
  have ph: "same_load c (set_phase r ph d)" if "same_load c d" "ph \<noteq> Waiting" for d ph
    using same_load_set_phase [OF that(1) a(1) _ that(2)] a(2) by simp
  have up: "same_load c (upd_active r f d)"
    if "same_load c d" "\<And>a. ar_record (f a) = ar_record a" "\<And>a. ar_phase (f a) = ar_phase a" for d f
    by (rule same_load_trans [OF that(1) same_load_upd]) (simp add: that)
  have "same_load c d"
    if "first_event_status now r b (upd_active r (\<lambda>a. a\<lparr>ar_last_event_sequence := n\<rparr>)
          (c\<lparr>ct_store := s\<rparr>)) = Inr d" for b n s d
    by (rule same_load_trans [OF up first_event_status_load [OF that]]) simp_all
  then show ?thesis
    using a by (auto simp: stream_event_def Let_def ph up split: sum.splits option.splits)
qed

lemma persist_artifact_load: "persist_artifact cfg now af path w a t c = (e, c') \<Longrightarrow> same_load c c'"
  using store_update_load
  by (auto simp: persist_artifact_def write_artifact_def Let_def
      split: sum.splits option.splits if_splits file_write.splits)

lemma stream_terminal_load:
  assumes "stream_terminal cfg now af path w a sp res c = (e, c')"
  shows "same_load c c'"
  using assms unfolding stream_terminal_def Let_def
  by (auto split: sum.splits option.splits if_splits
      intro: finish_run_load same_load_trans [OF finish_run_load quarantine_run_load]
        same_load_trans [OF finish_run_load persist_artifact_load])

lemma stream_end_load: "same_load c (stream_end cfg now af path w r result c)"
proof (cases "\<exists>a sp. active_of c r = Some a \<and> ar_phase a = Streaming sp")
  case False
  then show ?thesis
    by (auto simp: stream_end_def split: option.splits phase.splits)
next
  case True
  then obtain a sp where a: "active_of c r = Some a" "ar_phase a = Streaming sp" by blast
  have ph: "same_load c (set_phase r ph d)" if "same_load c d" "ph \<noteq> Waiting" for d ph
    using same_load_set_phase [OF that(1) a(1) _ that(2)] a(2) by simp
  show ?thesis
    using a stream_terminal_load
    by (auto simp: stream_end_def ph split: option.splits prod.splits)
qed

lemma stream_raises_load: "same_load c (stream_raises e r c)"
  using same_load_set_phase [OF same_load_refl, of c r]
  by (auto simp: stream_raises_def split: option.splits phase.splits)

lemma begin_dispatched_cancel_load: "same_load c (snd (begin_dispatched_cancel now x c))"
proof -
  let ?c = "upd_active (at_run_id x) (\<lambda>a. a\<lparr>ar_cancel_requested := True\<rparr>) c"
  have c: "same_load c ?c"
    by (rule same_load_upd) simp
  show ?thesis
    using c same_load_trans [OF same_load_trans [OF c store_update_load] same_load_store(2)]
    by (auto simp: begin_dispatched_cancel_def Let_def split: sum.splits)
qed

lemma cancel_load: "same_load c (snd (cancel now r who c))"
proof -
  have "same_load c (upd_active r (\<lambda>a. a\<lparr>ar_cancel_requested := True, ar_cancel_event := True\<rparr>) c)"
    by (rule same_load_upd) simp
  then show ?thesis
    using finish_load begin_dispatched_cancel_load same_load_trans [OF _ same_load_store(2)]
    by (auto simp: cancel_def split: option.splits sum.splits)
qed

lemma cancel_queued_resumes_load: "same_load c (snd (cancel_queued_resumes now r c))"
  using same_load_trans [OF same_load_store(2) begin_dispatched_cancel_load]
  by (auto simp: cancel_queued_resumes_def Let_def split: option.splits)

lemma cancel_dispatched_resumes_load:
  "same_load c (snd (cancel_dispatched_resumes now r i d0 drv c))"
  by (auto simp: cancel_dispatched_resumes_def Let_def split: option.splits sum.splits
      intro: same_load_trans [OF same_load_trans [OF same_load_store(2) finish_load] quarantine_run_load])

lemmas load_frames = stream_event_load stream_end_load stream_raises_load cancel_load
  cancel_queued_resumes_load cancel_dispatched_resumes_load

section \<open>Segments that change the load\<close>

lemma count_delete:
  assumes "distinct (map fst xs)" "map_of xs r = Some v"
  shows "count_where P xs = count_where P (AList.delete r xs) + (if P (r, v) then 1 else 0)"
  using assms
proof (induction xs)
  case (Cons x xs)
  then show ?case
    by (cases "fst x = r") (auto simp: delete_id)
qed simp

lemma skel_delete:
  "ct_active c' = AList.delete r (ct_active c) \<Longrightarrow> skel c' = AList.delete r (skel c)"
  unfolding skel_def by (simp add: AList.delete_eq filter_map comp_def case_prod_unfold)

lemma end_execute_parts:
  assumes "active_of c r = Some a"
  shows "skel (end_execute acq r c) = AList.delete r (skel c)"
    and "ct_runner_out (end_execute acq r c) = (ct_runner_out c)
      (at_runner_instance (ar_record a) := ct_runner_out c (at_runner_instance (ar_record a)) - 1)"
    and "ct_principal_out (end_execute acq r c) = (ct_principal_out c)
      (at_principal (ar_record a) := ct_principal_out c (at_principal (ar_record a)) - 1)"
    and "ct_runner_sems (end_execute acq r c) =
      (if acq then sem_release (at_runner_instance (ar_record a)) (ct_runner_sems c)
       else ct_runner_sems c)"
    and "ct_orphans (end_execute acq r c) = ct_orphans c"
proof -
  have "ct_active (end_execute acq r c) = AList.delete r (ct_active c)"
    by (simp add: end_execute_def assms Let_def release_outstanding_def release_runner_def
        release_principal_def)
  then show "skel (end_execute acq r c) = AList.delete r (skel c)"
    by (rule skel_delete)
qed (simp_all add: end_execute_def assms Let_def release_outstanding_def release_runner_def
      release_principal_def)

lemma held_slots_release:
  "held_slots (sem_release i sems) j = (if j = i then held_slots sems i - 1 else held_slots sems j)"
  by (simp add: held_slots_def sem_release_def split: option.splits)

lemma sem_release_limits:
  assumes "\<forall>i s. sems i = Some s \<longrightarrow> sm_held s \<le> sm_limit s \<and> sm_limit s \<le> k"
  shows "\<forall>i s. sem_release j sems i = Some s \<longrightarrow> sm_held s \<le> sm_limit s \<and> sm_limit s \<le> k"
  using assms by (auto simp: sem_release_def split: if_splits) (meson diff_le_self le_trans)

text \<open>
  Removing a run: \<open>back\<close> says whether its runner slot was given back, \<open>extra\<close> is the orphan that
  keeps it, if any.
\<close>

lemma load_of_remove:
  assumes load: "load_of cfg xs ro po sems orphans" and v: "map_of xs r = Some (rec, w)"
    and ro: "ro' = ro(at_runner_instance rec := ro (at_runner_instance rec) - 1)"
    and po: "po' = po(at_principal rec := po (at_principal rec) - 1)"
    and sems: "sems' = sems \<and> (\<forall>i. count_where (orphan_on i) orphans' \<le>
        count_where (orphan_on i) orphans + (if i = at_runner_instance rec \<and> w then 1 else 0)) \<or>
      sems' = sem_release (at_runner_instance rec) sems \<and> w \<and> orphans' = orphans"
  shows "load_of cfg (AList.delete r xs) ro' po' sems' orphans'"
proof -
  have d: "distinct (map fst xs)"
    using load by (simp add: load_of_def)
  note cnt = count_delete [OF d v]
  have "ro' i = count_where (on_runner i) (AList.delete r xs) \<and>
      count_where (on_runner i) (AList.delete r xs) \<le> runner_bound cfg" for i
  proof -
    have "ro i = count_where (on_runner i) xs" "count_where (on_runner i) xs \<le> runner_bound cfg"
      using load by (simp_all add: load_of_def)
    then show ?thesis
      using cnt [of "on_runner i"] by (simp add: ro on_runner_def split: if_splits)
  qed
  moreover have "po' p = count_where (of_principal p) (AList.delete r xs) \<and>
      count_where (of_principal p) (AList.delete r xs) \<le> principal_cap cfg" for p
  proof -
    have "po p = count_where (of_principal p) xs" "count_where (of_principal p) xs \<le> principal_cap cfg"
      using load by (simp_all add: load_of_def)
    then show ?thesis
      using cnt [of "of_principal p"] by (simp add: po of_principal_def split: if_splits)
  qed
  moreover have "sems' i = Some s \<longrightarrow> sm_held s \<le> sm_limit s \<and> sm_limit s \<le> runner_cap cfg" for i s
    using load sems sem_release_limits unfolding load_of_def by blast
  moreover have "count_where (holds_on i) (AList.delete r xs) + count_where (orphan_on i) orphans' \<le>
      held_slots sems' i" for i
  proof -
    have old: "count_where (holds_on i) xs + count_where (orphan_on i) orphans \<le> held_slots sems i"
      using load by (simp add: load_of_def)
    from sems show ?thesis
    proof (elim disjE conjE)
      assume same: "sems' = sems" and o: "\<forall>i. count_where (orphan_on i) orphans' \<le>
        count_where (orphan_on i) orphans + (if i = at_runner_instance rec \<and> w then 1 else 0)"
      show ?thesis
        using old cnt [of "holds_on i"] spec [OF o, of i]
        by (auto simp: same holds_on_def split: if_splits)
    next
      assume "sems' = sem_release (at_runner_instance rec) sems" "w" "orphans' = orphans"
      then show ?thesis
        using old cnt [of "holds_on i"]
        by (auto simp: holds_on_def held_slots_release split: if_splits)
    qed
  qed
  moreover have "distinct (map fst (AList.delete r xs))"
    using d by (simp add: distinct_delete)
  ultimately show ?thesis
    by (simp add: load_of_def)
qed

lemma end_execute_load:
  assumes ok: "load_ok cfg c" and same: "same_load c d" and a: "active_of c r = Some a"
    and acq: "acq \<Longrightarrow> ar_phase a \<noteq> Waiting"
  shows "load_ok cfg (end_execute acq r d)"
proof -
  have at: "map_of (skel d) r = Some (ar_record a, ar_phase a \<noteq> Waiting)"
    using same a skel_at [of c r] by (simp add: same_load_def)
  then obtain b where b: "active_of d r = Some b" "ar_record b = ar_record a"
    using skel_at [of d r] by (cases "active_of d r") auto
  have "load_of cfg (skel d) (ct_runner_out d) (ct_principal_out d) (ct_runner_sems d) (ct_orphans d)"
    using same_load_ok [OF same ok] by (simp add: load_ok_def)
  from load_of_remove [OF this at refl refl, of
      "if acq then sem_release (at_runner_instance (ar_record a)) (ct_runner_sems d)
       else ct_runner_sems d" "ct_orphans d"] acq
  show ?thesis
    by (auto simp: load_ok_def end_execute_parts [OF b(1)] b(2) split: if_splits)
qed

text \<open>The acquiring task gave its runner slot back before the run ends.\<close>

lemma release_then_end_load:
  assumes ok: "load_ok cfg c" and a: "active_of c r = Some a" and ph: "ar_phase a \<noteq> Waiting"
    and same: "same_load (release_runner (at_runner_instance (ar_record a)) c) d"
  shows "load_ok cfg (end_execute False r d)"
proof -
  let ?i = "at_runner_instance (ar_record a)"
  have skel: "skel d = skel c" "ct_runner_out d = ct_runner_out c"
    "ct_principal_out d = ct_principal_out c" "ct_orphans d = ct_orphans c"
    "ct_runner_sems d = sem_release ?i (ct_runner_sems c)"
    using same by (simp_all add: same_load_def release_runner_def skel_def)
  have at: "map_of (skel c) r = Some (ar_record a, True)"
    using a ph skel_at [of c r] by simp
  then obtain b where b: "active_of d r = Some b" "ar_record b = ar_record a"
    using skel_at [of d r] skel(1) by (cases "active_of d r") auto
  have "load_of cfg (skel c) (ct_runner_out c) (ct_principal_out c) (ct_runner_sems c) (ct_orphans c)"
    using ok by (simp add: load_ok_def)
  from load_of_remove [OF this at refl refl, of "sem_release ?i (ct_runner_sems c)" "ct_orphans c"]
  show ?thesis
    by (simp add: load_ok_def end_execute_parts [OF b(1)] b(2) skel)
qed

section \<open>Every segment keeps the load\<close>

lemma acquire_fails_load_ok [inv_preserved]:
  assumes ok: "load_ok cfg c"
  shows "load_ok cfg (acquire_fails now timed_out r c)"
proof (cases "\<exists>a. active_of c r = Some a \<and> ar_phase a \<in> {Waiting, HoldRunner}")
  case False
  with ok show ?thesis by (auto simp: acquire_fails_def split: option.splits)
next
  case True
  then obtain a where a: "active_of c r = Some a" "ar_phase a \<in> {Waiting, HoldRunner}" by blast
  show ?thesis
  proof (cases "ar_phase a = HoldRunner")
    case hold: True
    then show ?thesis
      using a release_then_end_load [OF ok a(1) _ finish_or_handle_load]
      by (auto simp: acquire_fails_def Let_def)
  next
    case False
    then show ?thesis
      using a end_execute_load [OF ok finish_or_handle_load a(1), of False]
      by (auto simp: acquire_fails_def Let_def)
  qed
qed

lemma cancelled_in_queue_load_ok [inv_preserved]:
  assumes ok: "load_ok cfg c"
  shows "load_ok cfg (cancelled_in_queue now r c)"
proof (cases "\<exists>a. active_of c r = Some a \<and> ar_phase a \<in> {Waiting, HoldRunner} \<and> ar_cancel_event a")
  case False
  with ok show ?thesis by (auto simp: cancelled_in_queue_def split: option.splits)
next
  case True
  then obtain a where a: "active_of c r = Some a" "ar_phase a \<in> {Waiting, HoldRunner}"
    "ar_cancel_event a" by blast
  show ?thesis
  proof (cases "ar_phase a = HoldRunner")
    case hold: True
    then show ?thesis
      using a release_then_end_load [OF ok a(1) _ finish_or_handle_load]
      by (auto simp: cancelled_in_queue_def Let_def)
  next
    case False
    then show ?thesis
      using a end_execute_load [OF ok finish_or_handle_load a(1), of False]
      by (auto simp: cancelled_in_queue_def Let_def)
  qed
qed

lemma dispatch_load_ok [inv_preserved]:
  assumes ok: "load_ok cfg c"
  shows "load_ok cfg (dispatch now r c)"
proof (cases "\<exists>a. active_of c r = Some a \<and> ar_phase a = Acquired")
  case False
  with ok show ?thesis by (auto simp: dispatch_def Let_def split: option.splits)
next
  case True
  then obtain a where a: "active_of c r = Some a" "ar_phase a = Acquired" by blast
  have "same_load c d" if "mark_starting now r c = Inr d" for d
    using that store_update_load by (auto simp: mark_starting_def split: option.splits if_splits)
  then have "load_ok cfg (set_phase r (Streaming start_progress) d)"
    if "mark_starting now r c = Inr d" for d
    using same_load_ok [OF same_load_set_phase [OF _ a(1)] ok] that a(2) by simp
  with a show ?thesis
    using end_execute_load [OF ok finish_or_handle_load a(1)]
      end_execute_load [OF ok handle_exception_load a(1)]
    by (auto simp: dispatch_def Let_def split: sum.splits)
qed

lemma close_session_load_ok [inv_preserved]:
  assumes ok: "load_ok cfg c"
  shows "load_ok cfg (close_session now failure r c)"
proof (cases "\<exists>a n p. active_of c r = Some a \<and> ar_phase a = Closing n p")
  case False
  with ok show ?thesis by (auto simp: close_session_def split: option.splits phase.splits)
next
  case True
  then obtain a n p where a: "active_of c r = Some a" "ar_phase a = Closing n p" by blast
  then show ?thesis
    using end_execute_load [OF ok handle_exception_load a(1)]
      end_execute_load [OF ok same_load_refl a(1)]
    by (auto simp: close_session_def Let_def split: pending.splits)
qed

text \<open>A slot is only ever taken while one is free.\<close>

lemma sem_take_limits:
  assumes "\<forall>i s. sems i = Some s \<longrightarrow> sm_held s \<le> sm_limit s \<and> sm_limit s \<le> k" "sem_free sems j"
  shows "\<forall>i s. sem_take j sems i = Some s \<longrightarrow> sm_held s \<le> sm_limit s \<and> sm_limit s \<le> k"
  using assms by (auto simp: sem_take_def sem_free_def split: if_splits option.splits)

lemma held_slots_take:
  "sem_free sems i \<Longrightarrow>
     held_slots (sem_take i sems) j = (if j = i then held_slots sems i + 1 else held_slots sems j)"
  by (auto simp: held_slots_def sem_take_def sem_free_def split: option.splits)

lemma runner_sem_load [inv_preserved]:
  assumes "load_ok cfg c"
  shows "load_ok cfg (runner_sem cfg g i c)"
proof (cases "ct_runner_sems c i")
  case (Some s)
  with assms show ?thesis by (simp add: runner_sem_def)
next
  case None
  have "runner_sem_limit cfg g i \<le> runner_cap cfg"
    by (simp add: runner_sem_limit_def runner_cap_def)
  moreover have "held_slots ((ct_runner_sems c)(i \<mapsto> \<lparr>sm_limit = n, sm_held = 0\<rparr>)) j =
      held_slots (ct_runner_sems c) j" for n j
    using None by (simp add: held_slots_def)
  ultimately show ?thesis
    using assms None by (auto simp: runner_sem_def load_ok_def load_of_def skel_def split: if_splits)
qed

lemma principal_sem_load [inv_preserved]:
  "load_ok cfg c \<Longrightarrow> load_ok cfg (principal_sem p n c)"
  by (erule same_load_ok [rotated]) (simp add: principal_sem_def split: option.splits)

lemma count_take:
  assumes "distinct (map fst xs)" "map_of xs r = Some (a, False)"
  shows "count_where (holds_on i) (AList.update r (a, True) xs) =
     count_where (holds_on i) xs + (if at_runner_instance a = i then 1 else 0)"
    and "count_where (on_runner i) (AList.update r (a, True) xs) = count_where (on_runner i) xs"
    and "count_where (of_principal p) (AList.update r (a, True) xs) = count_where (of_principal p) xs"
  using assms
proof (induction xs)
  case (Cons x xs)
  {
    case 1
    with Cons show ?case by (cases "fst x = r") (auto simp: holds_on_def)
  next
    case 2
    with Cons show ?case by (cases "fst x = r") (auto simp: on_runner_def)
  next
    case 3
    with Cons show ?case by (cases "fst x = r") (auto simp: of_principal_def)
  }
qed simp_all

lemma take_slot_load:
  assumes ok: "load_ok cfg c" and a: "active_of c r = Some a" "ar_phase a = Waiting"
    and free: "sem_free (ct_runner_sems c) (at_runner_instance (ar_record a))"
  shows "load_ok cfg (set_phase r HoldRunner
    (c\<lparr>ct_runner_sems := sem_take (at_runner_instance (ar_record a)) (ct_runner_sems c)\<rparr>))"
    (is "load_ok cfg ?c")
proof -
  have load: "load_of cfg (skel c) (ct_runner_out c) (ct_principal_out c) (ct_runner_sems c) (ct_orphans c)"
    using ok by (simp add: load_ok_def)
  have at: "map_of (skel c) r = Some (ar_record a, False)" and d: "distinct (map fst (skel c))"
    using a skel_at [of c r] load by (simp_all add: load_of_def)
  have skel: "skel ?c = AList.update r (ar_record a, True) (skel c)"
  proof -
    have "map (\<lambda>(r, a). (r, ar_record a, ar_phase a \<noteq> Waiting))
        (AList.update r (a\<lparr>ar_phase := HoldRunner\<rparr>) xs) =
      AList.update r (ar_record a, True) (map (\<lambda>(r, a). (r, ar_record a, ar_phase a \<noteq> Waiting)) xs)"
      for xs by (induction xs) auto
    then show ?thesis
      using a(1) by (simp add: set_phase_def upd_active_def put_active_def active_of_def skel_def)
  qed
  note cnt = count_take [OF d at]
  have "count_where (holds_on i) (skel ?c) + count_where (orphan_on i) (ct_orphans c) \<le>
      held_slots (sem_take (at_runner_instance (ar_record a)) (ct_runner_sems c)) i" for i
  proof -
    have "count_where (holds_on i) (skel c) + count_where (orphan_on i) (ct_orphans c) \<le>
        held_slots (ct_runner_sems c) i"
      using load by (simp add: load_of_def)
    then show ?thesis
      by (auto simp: skel cnt(1) held_slots_take [OF free])
  qed
  moreover have "distinct (map fst (skel ?c))"
    using d by (simp add: skel distinct_update)
  moreover have "\<forall>i s. sem_take (at_runner_instance (ar_record a)) (ct_runner_sems c) i = Some s \<longrightarrow>
      sm_held s \<le> sm_limit s \<and> sm_limit s \<le> runner_cap cfg"
    using load by (intro sem_take_limits [OF _ free]) (simp add: load_of_def)
  ultimately show ?thesis
    using load unfolding load_ok_def load_of_def skel cnt(2,3) by simp
qed

lemma acquire_runner_load_ok [inv_preserved]:
  assumes ok: "load_ok cfg c"
  shows "load_ok cfg (acquire_runner cfg g r c)"
proof (cases "\<exists>a. active_of c r = Some a \<and> ar_phase a = Waiting")
  case False
  with ok show ?thesis by (auto simp: acquire_runner_def split: option.splits)
next
  case True
  then obtain a where a: "active_of c r = Some a" "ar_phase a = Waiting" by blast
  let ?c = "principal_sem (at_principal (ar_record a)) (ar_concurrency a)
      (runner_sem cfg g (at_runner_instance (ar_record a)) c)"
  have "load_ok cfg ?c"
    using ok by (simp add: inv_preserved)
  moreover have "active_of ?c r = Some a"
    using a by (simp add: active_of_def)
  ultimately show ?thesis
    using a take_slot_load by (simp add: acquire_runner_def Let_def)
qed

lemma acquire_principal_load_ok [inv_preserved]:
  assumes "load_ok cfg c"
  shows "load_ok cfg (acquire_principal r c)"
proof -
  have "same_load c (acquire_principal r c)"
    using same_load_set_phase [OF same_load_store(3), of c r]
    by (auto simp: acquire_principal_def Let_def split: option.splits)
  then show ?thesis
    using assms by (rule same_load_ok)
qed

lemma keep_slot_end_load:
  assumes ok: "load_ok cfg c" and a: "active_of c r = Some a"
    and same: "skel d = skel c" "ct_runner_out d = ct_runner_out c"
    "ct_principal_out d = ct_principal_out c" "ct_runner_sems d = ct_runner_sems c"
    and os: "\<And>i. count_where (orphan_on i) (ct_orphans d) \<le> count_where (orphan_on i) (ct_orphans c) +
      (if i = at_runner_instance (ar_record a) \<and> ar_phase a \<noteq> Waiting then 1 else 0)"
  shows "load_ok cfg (end_execute False r d)"
proof -
  have at: "map_of (skel c) r = Some (ar_record a, ar_phase a \<noteq> Waiting)"
    using a skel_at [of c r] by simp
  then obtain b where b: "active_of d r = Some b" "ar_record b = ar_record a"
    using skel_at [of d r] same(1) by (cases "active_of d r") auto
  have "load_of cfg (skel c) (ct_runner_out c) (ct_principal_out c) (ct_runner_sems c) (ct_orphans c)"
    using ok by (simp add: load_ok_def)
  from load_of_remove [OF this at refl refl, of "ct_runner_sems c" "ct_orphans d"] os
  show ?thesis
    unfolding load_ok_def end_execute_parts [OF b(1)] b(2) same by simp
qed

lemma task_cancelled_load_ok [inv_preserved]:
  assumes ok: "load_ok cfg c"
  shows "load_ok cfg (task_cancelled_in_queue now r c)"
proof (cases "\<exists>a. active_of c r = Some a \<and> ar_phase a \<in> {Waiting, HoldRunner, Acquired}")
  case False
  with ok show ?thesis by (auto simp: task_cancelled_in_queue_def split: option.splits)
next
  case True
  then obtain a where a: "active_of c r = Some a" "ar_phase a \<in> {Waiting, HoldRunner, Acquired}" by blast
  let ?i = "at_runner_instance (ar_record a)"
  let ?o = "(?i, at_principal (ar_record a), ar_phase a = HoldRunner)"
  have "load_ok cfg (end_execute False r (handle_exception now i r TaskCancelled c))" for i
    using handle_exception_load [of c now i r TaskCancelled]
    by (intro keep_slot_end_load [OF ok a(1)]) (simp_all add: same_load_def)
  moreover have "load_ok cfg (end_execute False r
      (handle_exception now i r TaskCancelled (c\<lparr>ct_orphans := ?o # ct_orphans c\<rparr>)))" for i
    using handle_exception_load [of "c\<lparr>ct_orphans := ?o # ct_orphans c\<rparr>" now i r TaskCancelled]
    by (intro keep_slot_end_load [OF ok a(1)]) (simp_all add: same_load_def skel_def orphan_on_def)
  ultimately show ?thesis
    using a by (simp add: task_cancelled_in_queue_def Let_def)
qed

lemma count_remove1:
  "x \<in> set xs \<Longrightarrow> count_where P xs = count_where P (remove1 x xs) + (if P x then 1 else 0)"
  by (induction xs) auto

text \<open>
  The slot inequality is the only clause of \<open>load_of\<close> a step of a left-over acquisition can
  break, since such a step changes only semaphores and left-over acquisitions.
\<close>

lemma load_of_slots:
  assumes "load_of cfg xs ro po sems os"
    and "\<And>i s. sems' i = Some s \<Longrightarrow> sm_held s \<le> sm_limit s \<and> sm_limit s \<le> runner_cap cfg"
    and "\<And>i. count_where (holds_on i) xs + count_where (orphan_on i) os' \<le> held_slots sems' i"
  shows "load_of cfg xs ro po sems' os'"
  using assms unfolding load_of_def by blast

lemma load_of_limits:
  "load_of cfg xs ro po sems os \<Longrightarrow>
     \<forall>i s. sems i = Some s \<longrightarrow> sm_held s \<le> sm_limit s \<and> sm_limit s \<le> runner_cap cfg"
  "load_of cfg xs ro po sems os \<Longrightarrow>
     count_where (holds_on i) xs + count_where (orphan_on i) os \<le> held_slots sems i"
  by (simp_all add: load_of_def)

lemma drop_orphan_load:
  assumes l: "load_of cfg xs ro po sems os" and x: "x \<in> set os"
  shows "load_of cfg xs ro po sems (remove1 x os)"
proof (rule load_of_slots [OF l])
  fix j
  show "count_where (holds_on j) xs + count_where (orphan_on j) (remove1 x os) \<le> held_slots sems j"
    using load_of_limits(2) [OF l, of j] count_remove1 [OF x, of "orphan_on j"] by simp
qed (use load_of_limits(1) [OF l] in blast)

lemma release_orphan_load:
  assumes l: "load_of cfg xs ro po sems os" and x: "(i, p, True) \<in> set os"
  shows "load_of cfg xs ro po (sem_release i sems) (remove1 (i, p, True) os)"
proof (rule load_of_slots [OF l])
  fix j
  show "count_where (holds_on j) xs + count_where (orphan_on j) (remove1 (i, p, True) os)
      \<le> held_slots (sem_release i sems) j"
    using load_of_limits(2) [OF l, of j] count_remove1 [OF x, of "orphan_on j"]
    by (simp add: held_slots_release orphan_on_def split: if_splits)
qed (use sem_release_limits [OF load_of_limits(1) [OF l]] in blast)

lemma take_orphan_load:
  assumes l: "load_of cfg xs ro po sems os" and x: "(i, p, False) \<in> set os"
    and free: "sem_free sems i"
  shows "load_of cfg xs ro po (sem_take i sems) ((i, p, True) # remove1 (i, p, False) os)"
proof (rule load_of_slots [OF l])
  fix j
  show "count_where (holds_on j) xs + count_where (orphan_on j) ((i, p, True) # remove1 (i, p, False) os)
      \<le> held_slots (sem_take i sems) j"
    using load_of_limits(2) [OF l, of j] count_remove1 [OF x, of "orphan_on j"]
    by (cases "j = i") (simp_all add: held_slots_take [OF free] orphan_on_def)
qed (use sem_take_limits [OF load_of_limits(1) [OF l] free] in blast)

lemma orphan_step_load_ok [inv_preserved]:
  assumes ok: "load_ok cfg c"
  shows "load_ok cfg (orphan_step i p held timed_out c)"
proof (cases "(i, p, held) \<in> set (ct_orphans c)")
  case False
  with ok show ?thesis by (simp add: orphan_step_def)
next
  case True
  have l: "load_of cfg (skel c) (ct_runner_out c) (ct_principal_out c) (ct_runner_sems c) (ct_orphans c)"
    using ok by (simp add: load_ok_def)
  show ?thesis
  proof (cases held)
    case h: True
    have "load_of cfg (skel c) (ct_runner_out c) (ct_principal_out c) (ct_runner_sems c)
        (remove1 (i, p, held) (ct_orphans c))"
      "load_of cfg (skel c) (ct_runner_out c) (ct_principal_out c) (sem_release i (ct_runner_sems c))
        (remove1 (i, p, held) (ct_orphans c))"
      using drop_orphan_load [OF l True] release_orphan_load [OF l] True h by simp_all
    then show ?thesis
      using ok True h by (simp add: orphan_step_def Let_def load_ok_def release_runner_def skel_def)
  next
    case h: False
    note d = drop_orphan_load [OF l True]
    show ?thesis
      using ok True h d take_orphan_load [OF l, of i p]
      by (simp add: orphan_step_def Let_def load_ok_def skel_def)
  qed
qed

lemma skel_store: "skel (c\<lparr>ct_store := s\<rparr>) = skel c"
  by (simp add: skel_def)

lemma submit_load_ok [inv_preserved]:
  assumes ok: "load_ok cfg c" and core: "core_ok {} c"
  shows "load_ok cfg (snd (submit sha cfg g now rid aid q c))"
proof (cases "skel (snd (submit sha cfg g now rid aid q c)) = skel c \<and>
    same_load c (snd (submit sha cfg g now rid aid q c))")
  case True
  with ok same_load_ok show ?thesis by blast
next
  case False
  let ?i = "pc_runner_ref (su_preset q)"
  let ?p = "su_principal q"
  from False obtain runner s rw where res:
    "reserve now (reservation_row g runner rid aid (request_hash sha q) q)
       (pc_task_policy (su_preset q)) (ct_store c) = Inr s"
    "get_attempt s rid = Some rw"
    "ct_runner_out c ?i < runner_bound cfg" "ct_principal_out c ?p < principal_bound cfg q"
    "snd (submit sha cfg g now rid aid q c) = c\<lparr>ct_store := s,
       ct_runner_out := (ct_runner_out c)(?i := ct_runner_out c ?i + 1),
       ct_principal_out := (ct_principal_out c)(?p := ct_principal_out c ?p + 1),
       ct_active := AList.update rid (new_active cfg q rw) (ct_active c)\<rparr>"
    by (auto simp: submit_def Let_def not_le same_load_def skel_store
        split: sum.splits option.splits if_splits)
  note R = reserve_rows [OF res(1), unfolded reservation_row_def, simplified]
  have rw: "at_runner_instance rw = ?i" "at_principal rw = ?p"
    using res(2) R(2) [of rid] by auto
  have "rid \<notin> active_runs c"
  proof
    assume "rid \<in> active_runs c"
    then obtain a where "active_of c rid = Some a"
      using active_of_None [of c rid] by blast
    then show False
      using core_okD(3) [OF core] R(1) by (fastforce simp: link_ok_def)
  qed
  then have new: "skel (snd (submit sha cfg g now rid aid q c)) = skel c @ [(rid, rw, False)]"
    and fresh: "rid \<notin> fst ` set (skel c)"
    by (auto simp: res(5) skel_def update_fresh image_iff)
  have "principal_bound cfg q \<le> principal_cap cfg"
    by (simp add: principal_bound_def principal_cap_def effective_principal_def)
  with ok res(3,4) fresh show ?thesis
    unfolding load_ok_def new
    by (auto simp: res(5) load_of_def on_runner_def of_principal_def holds_on_def rw)
qed

lemma restart_load_ok [inv_preserved]: "load_ok cfg (restart now c)"
  by (simp add: load_ok_def load_of_def restart_def initial_ctl_def skel_def held_slots_def)

lemma ctl_step_load:
  assumes "ctl_step sha cfg c c'" "core_ok {} c" "load_ok cfg c"
  shows "load_ok cfg c'"
  using assms(1)
  by (cases rule: ctl_step.cases)
    (simp_all add: inv_preserved assms(2,3) same_load_ok [OF load_frames(1) assms(3)]
      same_load_ok [OF load_frames(2) assms(3)] same_load_ok [OF load_frames(3) assms(3)]
      same_load_ok [OF load_frames(4) assms(3)] same_load_ok [OF load_frames(5) assms(3)]
      same_load_ok [OF load_frames(6) assms(3)])

interpretation bounded_controller: invariant_system "ctl_step sha cfg"
  "\<lambda>c. core_ok {} c \<and> load_ok cfg c"
  by unfold_locales (blast intro: ctl_step_core ctl_step_load)

lemma reachable_load: "ctl_reachable sha cfg c \<Longrightarrow> load_ok cfg c"
proof -
  assume "ctl_reachable sha cfg c"
  moreover have "load_ok cfg (initial_ctl empty_store)"
    by (simp add: load_ok_def load_of_def initial_ctl_def skel_def held_slots_def)
  ultimately show ?thesis
    unfolding ctl_reachable_def using bounded_controller.steps_inv initial_core by blast
qed

end
