(* ===== verification/Schedules.thy ===== *)
theory Schedules
  imports ControllerLoad Samples
begin

text \<open>
  Schedules: lists of controller segments that run in a given order, so that concrete runs of the
  controller are computed and are reachable by construction. The sample run of the witnesses is
  on the deployment of \<^verbatim>\<open>Samples\<close>.
\<close>

section \<open>Schedules\<close>

datatype action =
    DoSubmit registry nat string string submission
  | TakeRunner registry string
  | TakePrincipal string
  | DoDispatch nat string
  | DoEvent nat string run_event
  | DoEnd nat string string file_write string "run_result option"
  | DoClose nat string
  | DoTaskCancelled nat string
  | DoCancel nat string string
  | DoDriverCancel nat string string string driver_cancel
  | DoRestart nat

fun perform :: "(hash_payload \<Rightarrow> string) \<Rightarrow> operator_config \<Rightarrow> action \<Rightarrow> ctl \<Rightarrow> ctl" where
  "perform sha cfg (DoSubmit g now rid aid q) c = snd (submit sha cfg g now rid aid q c)"
| "perform sha cfg (TakeRunner g r) c = acquire_runner cfg g r c"
| "perform sha cfg (TakePrincipal r) c = acquire_principal r c"
| "perform sha cfg (DoDispatch now r) c = dispatch now r c"
| "perform sha cfg (DoEvent now r e) c = stream_event cfg now r e c"
| "perform sha cfg (DoEnd now af path w r res) c = stream_end cfg now af path w r res c"
| "perform sha cfg (DoClose now r) c = close_session now None r c"
| "perform sha cfg (DoTaskCancelled now r) c = task_cancelled_in_queue now r c"
| "perform sha cfg (DoCancel now r who) c = snd (cancel now r who c)"
| "perform sha cfg (DoDriverCancel now r i d0 drv) c =
     (if (r, DispatchedWait i d0) \<in> set (ct_cancels c)
      then snd (cancel_dispatched_resumes now r i d0 drv c) else c)"
| "perform sha cfg (DoRestart now) c = restart now c"

definition schedule :: "(hash_payload \<Rightarrow> string) \<Rightarrow> operator_config \<Rightarrow> action list \<Rightarrow> ctl \<Rightarrow> ctl" where
  "schedule sha cfg = fold (perform sha cfg)"

lemma perform_step: "(ctl_step sha cfg)\<^sup>*\<^sup>* c (perform sha cfg x c)"
  by (cases x) (auto intro!: r_into_rtranclp intro: ctl_step.intros)

lemma schedule_steps: "(ctl_step sha cfg)\<^sup>*\<^sup>* c (schedule sha cfg xs c)"
proof (induction xs arbitrary: c)
  case Nil
  show ?case by (simp add: schedule_def)
next
  case (Cons x xs)
  show ?case
    using rtranclp_trans [OF perform_step [of sha cfg c x] Cons.IH [of "perform sha cfg x c"]]
    by (simp add: schedule_def)
qed

lemma schedule_reachable: "ctl_reachable sha cfg (schedule sha cfg xs (initial_ctl empty_store))"
  unfolding ctl_reachable_def by (rule schedule_steps)

section \<open>Sample runs\<close>

definition sample_sha :: "hash_payload \<Rightarrow> string" where
  "sample_sha p = hp_task_id p @ hp_workspace_id p"

definition sample_submission :: "string \<Rightarrow> submission" where
  "sample_submission t = \<lparr>su_principal = ''alice'', su_concurrency = 2, su_task_id = t,
     su_preset = sample_preset, su_workspace_id = ''ws'', su_messages = [], su_deadline = 60,
     su_execution = None, su_reasoning_effort = None, su_model_binding = None\<rparr>"

definition sample_result :: "completion_status \<Rightarrow> sdk_outcome \<Rightarrow> run_result" where
  "sample_result st out = \<lparr>rr_run_id = ''A'', rr_status = st, rr_outcome = out,
     rr_verification = sample_verification, rr_usage = unknown_usage, rr_terminal_kind = None,
     rr_terminal_sequence = None, rr_events_seen = 0, rr_synthetic = False, rr_detail = None\<rparr>"

definition sample_event :: "string \<Rightarrow> nat \<Rightarrow> run_event" where
  "sample_event r n = \<lparr>ev_run_id = r, ev_sequence = n, ev_timestamp = n, ev_synthetic = False,
     ev_payload = PMessageDelta ''hi''\<rparr>"

text \<open>Submission to dispatch, on the healthy registry.\<close>

definition sample_queue :: "string \<Rightarrow> string \<Rightarrow> action list" where
  "sample_queue r t = [DoSubmit sample_registry 1 r (''a-'' @ r) (sample_submission t)]"

definition sample_start :: "string \<Rightarrow> string \<Rightarrow> action list" where
  "sample_start r t = sample_queue r t @
     [TakeRunner sample_registry r, TakePrincipal r, DoDispatch 2 r]"

definition sample_schedule :: "action list \<Rightarrow> ctl" where
  "sample_schedule xs = schedule sample_sha sample_config xs (initial_ctl empty_store)"

lemma sample_reachable: "ctl_reachable sample_sha sample_config (sample_schedule xs)"
  unfolding sample_schedule_def by (rule schedule_reachable)

end
