(* ===== verification/ControllerClaims.thy ===== *)
theory ControllerClaims
  imports Schedules
begin

text \<open>
  The properties of the run controller and of its durable store, over every state the interleaved
  segments of all runs, cancels and restarts can reach, each with its witness on a sample run.
\<close>

section \<open>Retry safety\<close>

text \<open>
  C1. Never executed twice: in every reachable state, of two attempts of one logical task at most
  one is not proven to have stopped before the Runner executed anything; in particular at most one
  has produced an event.
\<close>

theorem never_executed_twice:
  assumes "ctl_reachable sha cfg c"
    and "get_attempt (ct_store c) r = Some x" "get_attempt (ct_store c) r' = Some x'"
    and "at_key x = at_key x'"
    and "\<not> proven x \<or> has_events c r" "\<not> proven x' \<or> has_events c r'"
  shows "r = r'"
proof -
  have ok: "core_ok {} c"
    using assms(1) by (rule reachable_core)
  have "\<not> proven x" "\<not> proven x'"
    using assms(2,3,5,6) core_okD(6) [OF ok, of r] core_okD(6) [OF ok, of r'] by auto
  then have "x = x'"
    using one_unproven_attempt [OF core_okD(1) [OF ok], of x x'] assms(2-4)
    by (auto dest: get_attempt_SomeD)
  with assms(2,3) show ?thesis
    using get_attempt_run_id by metis
qed

text \<open>A first attempt fails before dispatch, a second one executes.\<close>

definition retried_run :: ctl where
  "retried_run = sample_schedule
     (sample_queue ''A'' ''t1'' @ [DoCancel 2 ''A'' ''alice''] @
      sample_start ''A'' ''t1'' @ [DoEvent 3 ''A'' (sample_event ''A'' 1)])"

lemma retried_run_reachable: "ctl_reachable sample_sha sample_config retried_run"
  unfolding retried_run_def by (rule sample_reachable)

theorem never_executed_twice_witness:
  "\<exists>x. get_attempt (ct_store retried_run) ''A'' = Some x \<and> \<not> proven x \<and> has_events retried_run ''A'' \<and>
     ''A'' = ''A''"
proof -
  have "map_option (\<lambda>x. \<not> proven x) (get_attempt (ct_store retried_run) ''A'') = Some True"
    by code_simp
  then obtain x where x: "get_attempt (ct_store retried_run) ''A'' = Some x" "\<not> proven x"
    by auto
  have "has_events retried_run ''A''"
    unfolding has_events_def by code_simp
  with x never_executed_twice [OF retried_run_reachable x(1) x(1)] show ?thesis by blast
qed

section \<open>One attempt over time\<close>

text \<open>
  C20. Over any number of segments, restarts included, an attempt is never lost, keeps its
  identity (task, attempt id, model, Runner, request hash, execution context and model binding),
  and its status only moves forward: a terminal attempt never becomes active again.
\<close>

theorem attempts_move_forward:
  assumes "ctl_reachable sha cfg c" "(ctl_step sha cfg)\<^sup>*\<^sup>* c c'"
    and "get_attempt (ct_store c) r = Some x"
  shows "\<exists>y. get_attempt (ct_store c') r = Some y \<and> same_identity x y \<and>
    status_rank (at_status x) \<le> status_rank (at_status y) \<and>
    (is_terminal (at_status x) \<longrightarrow> is_terminal (at_status y))"
proof -
  have "core_ok {} c' \<and> (\<exists>y. get_attempt (ct_store c') r = Some y \<and> same_identity x y \<and>
      status_rank (at_status x) \<le> status_rank (at_status y))"
    using assms(2)
  proof (induction rule: rtranclp_induct)
    case base
    show ?case
      using reachable_core [OF assms(1)] assms(3) by auto
  next
    case (step d e)
    then obtain y where y: "get_attempt (ct_store d) r = Some y" "same_identity x y"
      "status_rank (at_status x) \<le> status_rank (at_status y)" by blast
    moreover obtain z where "get_attempt (ct_store e) r = Some z" "same_identity y z"
      "status_rank (at_status y) \<le> status_rank (at_status z)"
      using ctl_step_evolves_weak [OF step.hyps(2)] step.IH y(1) by (auto simp: evolves_def)
    ultimately show ?case
      using same_identity_trans order_trans ctl_step_core [OF step.hyps(2)] step.IH by blast
  qed
  then show ?thesis
    using status_rank_terminal status_rank_max by (metis le_antisym)
qed

definition finished_run :: ctl where
  "finished_run = sample_schedule (sample_start ''A'' ''t1'' @
     [DoEvent 3 ''A'' (sample_event ''A'' 1),
      DoEnd 4 ''f1'' ''/f1'' (Written ''00'') ''A'' (Some (sample_result CCompleted OSucceeded)),
      DoClose 5 ''A''])"

lemma finished_run_reachable: "ctl_reachable sample_sha sample_config finished_run"
  unfolding finished_run_def by (rule sample_reachable)

lemma finished_run_status:
  "map_option at_status (get_attempt (ct_store finished_run) ''A'') = Some Completed"
  by code_simp

theorem attempts_move_forward_witness:
  "\<exists>x y. get_attempt (ct_store finished_run) ''A'' = Some x \<and> at_status x = Completed \<and>
     get_attempt (ct_store (schedule sample_sha sample_config [DoRestart 9] finished_run)) ''A'' = Some y \<and>
     is_terminal (at_status y)"
proof -
  obtain x where x: "get_attempt (ct_store finished_run) ''A'' = Some x" "at_status x = Completed"
    using finished_run_status by auto
  show ?thesis
    using attempts_move_forward [OF finished_run_reachable schedule_steps x(1), of "[DoRestart 9]"] x
    by (auto simp: status_sets)
qed

section \<open>Unknown executions\<close>

text \<open>
  C2. The segment that leaves an attempt with unknown outcome leaves, in the same step, the Runner
  it ran on quarantined in the name of that run; only the restart of the API process does not.
\<close>

theorem unknown_quarantines:
  assumes "ctl_reachable sha cfg c" "ctl_step sha cfg c c'" "\<And>now. c' \<noteq> restart now c"
    and "get_attempt (ct_store c) r = Some x" "at_status x \<noteq> Unknown"
    and "get_attempt (ct_store c') r = Some y" "at_status y = Unknown"
  shows "\<exists>q. get_quarantine (ct_store c') (at_runner_instance x) = Some q \<and> qr_run_id q = Some r"
proof -
  have "evolves True (ct_store c) (ct_store c')"
    using ctl_step_evolves [OF assms(2) reachable_core [OF assms(1)]] assms(3) by blast
  then have "same_identity x y" "quarantined_for (ct_store c') y"
    using assms(4-7) unfolding evolves_def by fastforce+
  then show ?thesis
    using get_attempt_run_id [OF assms(6)] by (auto simp: quarantined_for_def same_identity_def)
qed

definition streaming_run :: ctl where
  "streaming_run = sample_schedule (sample_start ''A'' ''t1'')"

definition lost_run :: ctl where
  "lost_run = perform sample_sha sample_config
     (DoEnd 4 ''f1'' ''/f1'' FileExists ''A'' (Some (sample_result CUnknown OUnknown))) streaming_run"

theorem unknown_quarantines_witness:
  "\<exists>q. get_quarantine (ct_store lost_run) ''r1'' = Some q \<and> qr_run_id q = Some ''A''"
proof -
  have reach: "ctl_reachable sample_sha sample_config streaming_run"
    unfolding streaming_run_def by (rule sample_reachable)
  have step: "ctl_step sample_sha sample_config streaming_run lost_run"
    by (simp add: lost_run_def ctl_step.stream_ends)
  have "ct_active lost_run \<noteq> []"
    by code_simp
  moreover have "ct_active (restart now streaming_run) = []" for now
    by (simp add: restart_def initial_ctl_def)
  ultimately have no_restart: "lost_run \<noteq> restart now streaming_run" for now
    by metis
  have "map_option (\<lambda>x. (at_status x, at_runner_instance x))
      (get_attempt (ct_store streaming_run) ''A'') = Some (Starting, ''r1'')"
    by code_simp
  then obtain x where x: "get_attempt (ct_store streaming_run) ''A'' = Some x"
    "at_status x \<noteq> Unknown" "at_runner_instance x = ''r1''" by auto
  have "map_option at_status (get_attempt (ct_store lost_run) ''A'') = Some Unknown"
    by code_simp
  then obtain y where y: "get_attempt (ct_store lost_run) ''A'' = Some y" "at_status y = Unknown"
    by auto
  from unknown_quarantines [OF reach step no_restart x(1,2) y] x(3) show ?thesis by simp
qed

text \<open>
  C33. The quarantine is one row per Runner, so it does not protect two unknown runs: after a run A
  of unknown outcome, a second run B on the same Runner that is given up by its cancel and later
  reports a validated terminal clears the quarantine while the outcome of A is still unknown, and
  the Runner takes new work. No restart and no operator takes part in the schedule.
\<close>

definition overwritten_quarantine :: ctl where
  "overwritten_quarantine = sample_schedule (sample_start ''A'' ''t1'' @ sample_start ''B'' ''t2'' @
     [DoEnd 3 ''f1'' ''/f1'' FileExists ''A'' (Some (sample_result CUnknown OUnknown)),
      DoClose 4 ''A'', DoCancel 5 ''B'' ''alice'',
      DoDriverCancel 6 ''B'' ''r1'' ''cancel requested'' (DriverDetail None),
      DoEnd 7 ''f2'' ''/f2'' FileExists ''B'' (Some (sample_result CCompleted OSucceeded)),
      DoClose 8 ''B''])"

theorem quarantine_lost:
  "ctl_reachable sample_sha sample_config overwritten_quarantine \<and>
   map_option (\<lambda>x. (at_status x, at_runner_instance x))
     (get_attempt (ct_store overwritten_quarantine) ''A'') = Some (Unknown, ''r1'') \<and>
   get_quarantine (ct_store overwritten_quarantine) ''r1'' = None \<and>
   isOk (fst (submit sample_sha sample_config sample_registry 9 ''C'' ''a-C''
     (sample_submission ''t3'') overwritten_quarantine))"
proof (intro conjI)
  show "ctl_reachable sample_sha sample_config overwritten_quarantine"
    unfolding overwritten_quarantine_def by (rule sample_reachable)
  show "map_option (\<lambda>x. (at_status x, at_runner_instance x))
     (get_attempt (ct_store overwritten_quarantine) ''A'') = Some (Unknown, ''r1'')"
    by code_simp
  show "get_quarantine (ct_store overwritten_quarantine) ''r1'' = None"
    by code_simp
  show "isOk (fst (submit sample_sha sample_config sample_registry 9 ''C'' ''a-C''
     (sample_submission ''t3'') overwritten_quarantine))"
    by code_simp
qed

section \<open>Admission\<close>

text \<open>A cached answer is a completed attempt of the request, on either path to it.\<close>

definition replayable :: "store \<Rightarrow> submission \<Rightarrow> string \<Rightarrow> attempt \<Rightarrow> bool" where
  "replayable s q h a \<longleftrightarrow> at_status a = Completed \<and> at_cached a \<and>
     at_key a = (su_principal q, su_task_id q) \<and> at_preset a = pc_alias (su_preset q) \<and>
     at_request_hash a = h"

lemma latest_attemptD:
  "latest_attempt s p t = Some b \<Longrightarrow> b \<in> set (st_attempts s) \<and> at_key b = (p, t)"
  using limit_one_Some [of "order_latest (filter (for_task p t) (st_attempts s))"]
  by (simp add: latest_attempt_def)

lemma task_of_attempt:
  assumes "store_ok s" "b \<in> set (st_attempts s)" "at_key b = (p, t)"
  shows "\<exists>k. get_task s p t = Some k \<and> tk_request_hash k = at_request_hash b"
  using assms(2,3) store_okD(3) [OF assms(1)] by (force simp: tasks_bound_def get_task_def)

lemma as_cached_fields [simp]:
  "at_status (as_cached a) = at_status a" "at_cached (as_cached a)"
  "at_key (as_cached a) = at_key a" "at_preset (as_cached a) = at_preset a"
  "at_request_hash (as_cached a) = at_request_hash a"
  by (simp_all add: as_cached_def at_key_def)

lemma check_existing_cached:
  assumes "store_ok s" "check_existing s q h = Inr (Some a)"
  shows "replayable s q h a"
proof -
  obtain b where b: "latest_attempt s (su_principal q) (su_task_id q) = Some b"
    using assms(2) by (cases "latest_attempt s (su_principal q) (su_task_id q)")
      (auto simp: check_existing_def)
  note D = latest_attemptD [OF b]
  obtain k where k: "get_task s (su_principal q) (su_task_id q) = Some k"
    "tk_request_hash k = at_request_hash b"
    using task_of_attempt [OF assms(1), of b] D by auto
  show ?thesis
    using assms(2) D by (auto simp: check_existing_def b k replayable_def split: if_splits)
qed

lemma refused_reservation_cached:
  assumes "store_ok s" "refused_reservation s q h e = Inr x"
  shows "\<exists>a. x = SubmitCached a \<and> replayable s q h a"
proof -
  obtain b k where b: "latest_attempt s (su_principal q) (su_task_id q) = Some b"
    "get_task s (su_principal q) (su_task_id q) = Some k" "at_status b = Completed"
    "tk_request_hash k = h" "at_preset b = pc_alias (su_preset q)" "x = SubmitCached (as_cached b)"
    using assms(2)
    by (auto simp: refused_reservation_def
        split: core_error.splits conflict_code.splits option.splits if_splits)
  note D = latest_attemptD [OF b(1)]
  have "tk_request_hash k = at_request_hash b"
    using task_of_attempt [OF assms(1), of b] D b(2) by auto
  with D b show ?thesis by (simp add: replayable_def)
qed

lemma submit_started:
  assumes "submit sha cfg g now rid aid q c = (Inr (SubmitStarted a), c')" "store_ok (ct_store c)"
  obtains runner where "reserve now (reservation_row g runner rid aid (request_hash sha q) q)
       (pc_task_policy (su_preset q)) (ct_store c) = Inr (ct_store c')"
    "get_attempt (ct_store c') rid = Some a"
    "runner_available g (pc_runner_ref (su_preset q))"
    "get_quarantine (ct_store c) (pc_runner_ref (su_preset q)) = None"
    "ct_runner_out c (pc_runner_ref (su_preset q)) < runner_bound cfg"
    "ct_principal_out c (su_principal q) < principal_bound cfg q"
  using assms refused_reservation_cached [OF assms(2)] check_existing_cached [OF assms(2)]
  by (fastforce simp: submit_def Let_def not_le split: sum.splits option.splits if_splits)

lemma submit_unchanged:
  assumes "submit sha cfg g now rid aid q c = (res, c')" "\<And>a. res \<noteq> Inr (SubmitStarted a)"
  shows "c' = c"
proof -
  have "\<exists>a. get_attempt s rid = Some a"
    if "reserve now (reservation_row g runner rid aid (request_hash sha q) q)
       (pc_task_policy (su_preset q)) (ct_store c) = Inr s" for runner s
    using reserve_rows(2) [OF that, of rid] by (simp add: reservation_row_def)
  with assms show ?thesis
    by (fastforce simp: submit_def Let_def split: sum.splits option.splits if_splits)
qed

lemma submit_cached:
  assumes "submit sha cfg g now rid aid q c = (Inr (SubmitCached a), c')" "store_ok (ct_store c)"
  shows "replayable (ct_store c) q (request_hash sha q) a"
  using assms(1) refused_reservation_cached [OF assms(2)] check_existing_cached [OF assms(2)]
  by (fastforce simp: submit_def Let_def split: sum.splits option.splits if_splits)

text \<open>
  C18. What a submission does: an error leaves the state as it was; a cached answer changes nothing
  and is a completed attempt of the same task, for the same model and the same request hash; a
  started run is queued under the submission's own identity on an available Runner that is not in
  quarantine and still has room, and every earlier attempt of its task is proven to have stopped
  before execution.
\<close>

theorem submit_outcomes:
  assumes "ctl_reachable sha cfg c" "submit sha cfg g now rid aid q c = (res, c')"
  shows "case res of
      Inl e \<Rightarrow> c' = c
    | Inr (SubmitCached a) \<Rightarrow> c' = c \<and> at_status a = Completed \<and> at_cached a \<and>
        at_key a = (su_principal q, su_task_id q) \<and> at_preset a = pc_alias (su_preset q) \<and>
        at_request_hash a = request_hash sha q
    | Inr (SubmitStarted a) \<Rightarrow> get_attempt (ct_store c') rid = Some a \<and> at_status a = Queued \<and>
        at_key a = (su_principal q, su_task_id q) \<and> at_request_hash a = request_hash sha q \<and>
        runner_available g (pc_runner_ref (su_preset q)) \<and>
        get_quarantine (ct_store c) (pc_runner_ref (su_preset q)) = None \<and>
        ct_runner_out c (pc_runner_ref (su_preset q)) < runner_bound cfg \<and>
        ct_principal_out c (su_principal q) < principal_bound cfg q \<and>
        (\<forall>b\<in>set (st_attempts (ct_store c)). at_key b = at_key a \<longrightarrow> proven b)"
proof -
  have st: "store_ok (ct_store c)"
    using core_okD(1) [OF reachable_core [OF assms(1)]] .
  show ?thesis
  proof (cases res)
    case (Inl e)
    with submit_unchanged [OF assms(2)] show ?thesis by simp
  next
    case r: (Inr x)
    show ?thesis
    proof (cases x)
      case (SubmitCached a)
      with r submit_unchanged [OF assms(2)] submit_cached [OF _ st] assms(2) show ?thesis
        by (simp add: replayable_def)
    next
      case (SubmitStarted a)
      with r assms(2) have "submit sha cfg g now rid aid q c = (Inr (SubmitStarted a), c')" by simp
      then obtain runner where s:
        "reserve now (reservation_row g runner rid aid (request_hash sha q) q)
           (pc_task_policy (su_preset q)) (ct_store c) = Inr (ct_store c')"
        "get_attempt (ct_store c') rid = Some a"
        "runner_available g (pc_runner_ref (su_preset q))"
        "get_quarantine (ct_store c) (pc_runner_ref (su_preset q)) = None"
        "ct_runner_out c (pc_runner_ref (su_preset q)) < runner_bound cfg"
        "ct_principal_out c (su_principal q) < principal_bound cfg q"
        using st by (rule submit_started)
      have "at_status a = Queued" "at_key a = (su_principal q, su_task_id q)"
        "at_request_hash a = request_hash sha q"
        using reserve_rows(2) [OF s(1), of rid] s(2) by (simp_all add: reservation_row_def at_key_def)
      moreover have "proven b" if "b \<in> set (st_attempts (ct_store c))" "at_key b = at_key a" for b
        using reserve_InrD(1) [OF s(1) that(1)] that(2) calculation(2)
        by (simp add: reservation_row_def at_key_def)
      ultimately show ?thesis
        using r SubmitStarted s by simp
    qed
  qed
qed

theorem submit_outcomes_witness:
  "\<exists>a. submit sample_sha sample_config sample_registry 7 ''B'' ''a-B'' (sample_submission ''t1'')
         finished_run = (Inr (SubmitCached a), finished_run) \<and> at_status a = Completed"
proof -
  let ?out = "submit sample_sha sample_config sample_registry 7 ''B'' ''a-B'' (sample_submission ''t1'')
         finished_run"
  have "(case fst ?out of Inr (SubmitCached a) \<Rightarrow> True | _ \<Rightarrow> False) = True"
    by code_simp
  then obtain a where a: "fst ?out = Inr (SubmitCached a)"
    by (auto split: sum.splits submit_result.splits)
  then have "?out = (Inr (SubmitCached a), snd ?out)"
    by (metis prod.collapse)
  with submit_outcomes [OF finished_run_reachable this] show ?thesis by auto
qed

section \<open>Bounded load\<close>

text \<open>
  C19. In every reachable state the outstanding counters that admission compares are exactly the
  numbers of active runs of each Runner and of each principal, these never exceed the configured
  concurrency plus queue, and at most the configured number of runs of a Runner hold an execution
  slot.
\<close>

theorem load_is_bounded:
  assumes "ctl_reachable sha cfg c"
  shows "ct_runner_out c i = count_where (\<lambda>(r, a). at_runner_instance (ar_record a) = i) (ct_active c) \<and>
    ct_runner_out c i \<le> runner_bound cfg \<and>
    ct_principal_out c p = count_where (\<lambda>(r, a). at_principal (ar_record a) = p) (ct_active c) \<and>
    ct_principal_out c p \<le> cc_per_principal (api_concurrency (oc_api cfg)) +
      cc_queued_per_principal (api_concurrency (oc_api cfg)) \<and>
    count_where (\<lambda>(r, a). at_runner_instance (ar_record a) = i \<and> ar_phase a \<noteq> Waiting) (ct_active c) \<le>
      max 1 (cc_per_runner (api_concurrency (oc_api cfg)))"
proof -
  have L: "load_of cfg (skel c) (ct_runner_out c) (ct_principal_out c) (ct_runner_sems c) (ct_orphans c)"
    using reachable_load [OF assms] by (simp add: load_ok_def)
  have counts: "count_where (on_runner i) (skel c) =
      count_where (\<lambda>(r, a). at_runner_instance (ar_record a) = i) (ct_active c)"
    "count_where (of_principal p) (skel c) =
      count_where (\<lambda>(r, a). at_principal (ar_record a) = p) (ct_active c)"
    "count_where (holds_on i) (skel c) = count_where
      (\<lambda>(r, a). at_runner_instance (ar_record a) = i \<and> ar_phase a \<noteq> Waiting) (ct_active c)"
    by (simp_all add: count_where_def skel_def filter_map comp_def on_runner_def of_principal_def
        holds_on_def case_prod_unfold)
  have "held_slots (ct_runner_sems c) i \<le> runner_cap cfg"
    using load_of_limits(1) [OF L] by (fastforce simp: held_slots_def split: option.splits)
  then have "count_where (holds_on i) (skel c) \<le> runner_cap cfg"
    using load_of_limits(2) [OF L, of i] by simp
  moreover have "ct_runner_out c i = count_where (on_runner i) (skel c)"
    "count_where (on_runner i) (skel c) \<le> runner_bound cfg"
    "ct_principal_out c p = count_where (of_principal p) (skel c)"
    "count_where (of_principal p) (skel c) \<le> principal_cap cfg"
    using L by (simp_all add: load_of_def)
  ultimately show ?thesis
    by (simp add: counts principal_cap_def runner_cap_def)
qed

theorem load_is_bounded_witness:
  "ct_runner_out streaming_run ''r1'' = 1 \<and> ct_runner_out streaming_run ''r1'' \<le> runner_bound sample_config"
proof -
  have "ct_runner_out streaming_run ''r1'' = 1"
    by code_simp
  moreover have "ctl_reachable sample_sha sample_config streaming_run"
    unfolding streaming_run_def by (rule sample_reachable)
  ultimately show ?thesis
    using load_is_bounded [of sample_sha sample_config streaming_run "''r1''" "''alice''"] by blast
qed

text \<open>
  C34. A run whose task is cancelled after it took its slots and before it was dispatched never
  gives them back: with both slots of a Runner lost this way nothing is active and no acquisition
  is pending, yet a new run stays in the queue for ever, since the semaphores have no free slot
  and no run is left to release one. The run that never reached the Runner is recorded as unknown
  and its Runner is quarantined.
\<close>

definition leaked_slots :: ctl where
  "leaked_slots = sample_schedule
     (concat (map (\<lambda>(r, t). [DoSubmit sample_registry 1 r (''a-'' @ r) (sample_submission t),
          TakeRunner sample_registry r, TakePrincipal r]) [(''A'', ''t1''), (''B'', ''t2'')]) @
      [DoTaskCancelled 2 ''A'', DoTaskCancelled 3 ''B''])"


end
