(* ===== verification/ControllerOutcomes.thy ===== *)
theory ControllerOutcomes
  imports Schedules
begin

text \<open>
  What the controller records at the end of a run, what a cancel call answers, what a restart
  leaves, and what a caller that does not own a run can see.
\<close>

section \<open>The end of a failed run\<close>

lemma end_execute_frames [simp]:
  "ct_store (end_execute b r c) = ct_store c" "has_events (end_execute b r c) = has_events c"
  by (auto simp: end_execute_def Let_def release_outstanding_def release_runner_def
      release_principal_def has_events_def fun_eq_iff split: option.splits)

lemma end_execute_gone: "active_of (end_execute b r c) r = None"
  by (auto simp: end_execute_def Let_def release_outstanding_def release_runner_def
      release_principal_def active_of_def delete_conv' split: option.splits)

lemma unknown_and_quarantine_result:
  assumes "core_ok {r} c" "row c r = Some a" "\<not> proven a" "r \<in> active_runs c"
  obtains y where "row (unknown_and_quarantine now i r detail reason c) r = Some y"
    "at_status y = Unknown" "at_runner_instance y = at_runner_instance a"
    "get_quarantine (ct_store (unknown_and_quarantine now i r detail reason c)) i =
       Some \<lparr>qr_reason = reason, qr_since = now, qr_run_id = Some r\<rparr>"
proof -
  obtain c' x where "finish now r Unknown OutUnknown detail c = Inr c'" "core_ok {r} c'"
    "same_but r c c'" "row c' r = Some x" "at_status x = Unknown" "at_outcome x = Some OutUnknown"
    "at_started_at x = at_started_at a" "at_key x = at_key a"
    "at_runner_instance x = at_runner_instance a"
    by (rule finish_core [OF assms unknown_unproven, of now OutUnknown detail])
  with that [of x] show ?thesis
    by (simp add: unknown_and_quarantine_def quarantine_run_def quarantine.entry_put)
qed

definition refused_before_execution :: "exec_exn \<Rightarrow> bool" where
  "refused_before_execution e \<longleftrightarrow>
     (case e of Exn (ERunnerRunRejected code rt pre) \<Rightarrow> no_effect code pre | _ \<Rightarrow> False)"

lemma not_refused_unknown:
  "\<not> refused_before_execution e \<Longrightarrow> \<exists>detail reason. handle_exception now i r e c =
     unknown_and_quarantine now i r detail reason c"
  by (cases "(now, i, r, e, c)" rule: handle_exception.cases)
    (auto simp: refused_before_execution_def)

text \<open>
  C4. A run whose session raises ends in one of two ways. If the Runner refused it with a
  pre-execution rejection, it is recorded as rejected: no event of it is stored, it is proven to
  have executed nothing, so the task can be tried again. Every other failure leaves it unknown,
  with its Runner quarantined in its name. In both cases it is no longer active.
\<close>

theorem failed_session_outcome:
  assumes "ctl_reachable sha cfg c" "active_of c r = Some a" "ar_phase a = Closing n pend"
    and "(case failure of None \<Rightarrow> pend | Some f \<Rightarrow> Raises f) = Raises e"
    and "\<And>f. failure = Some f \<Longrightarrow> \<not> pre_rejection f"
  shows "active_of (close_session now failure r c) r = None \<and>
    (\<exists>y. get_attempt (ct_store (close_session now failure r c)) r = Some y \<and>
      (if refused_before_execution e
       then at_status y = Failed \<and> at_outcome y = Some Rejected \<and> proven y \<and>
         \<not> has_events (close_session now failure r c) r
       else at_status y = Unknown \<and> quarantined_for (ct_store (close_session now failure r c)) y))"
proof -
  have ok: "core_ok {} c"
    using assms(1) by (rule reachable_core)
  let ?i = "at_runner_instance (ar_record a)"
  let ?h = "handle_exception now ?i r e c"
  obtain x where x: "row c r = Some x" "row_in_phase (ar_phase a) x"
    "?i = at_runner_instance x" "silent (ar_phase a) \<longrightarrow> \<not> has_events c r"
    "pending_ok (ar_phase a)" "r \<in> active_runs c" "core_ok {r} c" "\<not> proven x"
    by (rule active_row [OF ok assms(2)])
  have close: "close_session now failure r c = end_execute True r ?h"
    using assms(2-4) by (simp add: close_session_def Let_def)
  have "\<exists>y. row ?h r = Some y \<and>
      (if refused_before_execution e
       then at_status y = Failed \<and> at_outcome y = Some Rejected \<and> proven y \<and> \<not> has_events ?h r
       else at_status y = Unknown \<and> quarantined_for (ct_store ?h) y)"
  proof (cases "refused_before_execution e")
    case False
    then obtain detail reason where h: "?h = unknown_and_quarantine now ?i r detail reason c"
      using not_refused_unknown by blast
    obtain y where "row ?h r = Some y" "at_status y = Unknown" "at_runner_instance y = ?i"
      "get_quarantine (ct_store ?h) ?i = Some \<lparr>qr_reason = reason, qr_since = now, qr_run_id = Some r\<rparr>"
      unfolding h
      by (rule unknown_and_quarantine_result [OF x(7,1,8,6), of now ?i detail reason])
        (use x(3) in auto)
    then show ?thesis
      using False get_attempt_run_id [of "ct_store ?h" r y] by (auto simp: quarantined_for_def)
  next
    case True
    then obtain code rt pr where e: "e = Exn (ERunnerRunRejected code rt pr)" "no_effect code pr"
      by (auto simp: refused_before_execution_def split: exec_exn.splits core_error.splits)
    have "pre_rejection e"
      using e no_effect_pre by simp
    then have quiet: "\<not> has_events c r"
      using assms(3-5) x(4,5) by (cases failure) auto
    obtain c' y where "finish now r Failed Rejected
         (''runner rejected the run before execution: '' @ code) c = Inr c'"
      "core_ok {r} c'" "same_but r c c'" "row c' r = Some y" "at_status y = Failed"
      "at_outcome y = Some Rejected"
      using finish_core [OF x(7,1,8,6), of Failed Rejected now] quiet by blast
    then show ?thesis
      using True quiet same_but_events
      by (auto simp: e proven_pre_execution_def preexecution_safe_outcomes_def)
  qed
  then show ?thesis
    unfolding close end_execute_frames using end_execute_gone by blast
qed

definition refused_run :: ctl where
  "refused_run = stream_raises (Exn (ERunnerRunRejected ''QUEUE_FULL'' True True)) ''A''
     (sample_schedule (sample_start ''A'' ''t1''))"

lemma refused_run_reachable: "ctl_reachable sample_sha sample_config refused_run"
proof -
  have "map_option ar_phase (active_of (sample_schedule (sample_start ''A'' ''t1'')) ''A'') =
      Some (Streaming start_progress)"
    by code_simp
  then have "session_contract (Exn (ERunnerRunRejected ''QUEUE_FULL'' True True)) ''A''
      (sample_schedule (sample_start ''A'' ''t1''))"
    by (auto simp: session_contract_def start_progress_def)
  then have "ctl_step sample_sha sample_config (sample_schedule (sample_start ''A'' ''t1'')) refused_run"
    unfolding refused_run_def by (rule ctl_step.raises)
  then show ?thesis
    using sample_reachable [of "sample_start ''A'' ''t1''"]
    unfolding ctl_reachable_def by (rule rtranclp.rtrancl_into_rtrancl [rotated])
qed

theorem failed_session_outcome_witness:
  "\<exists>y. get_attempt (ct_store (close_session 5 None ''A'' refused_run)) ''A'' = Some y \<and>
     at_status y = Failed \<and> proven y"
proof -
  have "map_option ar_phase (active_of refused_run ''A'') =
      Some (Closing 0 (Raises (Exn (ERunnerRunRejected ''QUEUE_FULL'' True True))))"
    by code_simp
  then obtain a where a: "active_of refused_run ''A'' = Some a"
    "ar_phase a = Closing 0 (Raises (Exn (ERunnerRunRejected ''QUEUE_FULL'' True True)))" by auto
  have "refused_before_execution (Exn (ERunnerRunRejected ''QUEUE_FULL'' True True))"
    by code_simp
  then show ?thesis
    using failed_session_outcome [OF refused_run_reachable a, of None
        "Exn (ERunnerRunRejected ''QUEUE_FULL'' True True)" 5] by auto
qed

section \<open>Cancelling\<close>


definition cancelling_run :: ctl where
  "cancelling_run = sample_schedule (sample_start ''A'' ''t1'' @ [DoCancel 3 ''A'' ''alice''])"


text \<open>
  C32. A caller that does not own a run sees exactly what it sees for a run that does not exist:
  reading it, its events or its artifacts, and cancelling it, answer not-found, and the cancel
  changes nothing.
\<close>

theorem foreign_runs_are_invisible:
  assumes "\<And>x. get_attempt (ct_store c) r = Some x \<Longrightarrow> at_principal x \<noteq> who"
    and "\<And>x. get_artifact (ct_store c) f = Some x \<Longrightarrow> af_principal x \<noteq> who"
  shows "owned_attempt c r who = Inl ENotFound \<and> events_of cfg c r who after n = Inl ENotFound \<and>
    owned_artifact c f who = Inl ENotFound \<and> cancel now r who c = (Inl ENotFound, c)"
  using assms
  by (cases "get_attempt (ct_store c) r"; cases "get_artifact (ct_store c) f")
    (auto simp: owned_attempt_def events_of_def owned_artifact_def cancel_def)

theorem foreign_runs_are_invisible_witness:
  "cancel 9 ''A'' ''bob'' cancelling_run = (Inl ENotFound, cancelling_run)"
proof -
  have "map_option at_principal (get_attempt (ct_store cancelling_run) ''A'') = Some ''alice''"
    by code_simp
  then have p: "at_principal x \<noteq> ''bob''"
    if "get_attempt (ct_store cancelling_run) ''A'' = Some x" for x
    using that by auto
  have "get_artifact (ct_store cancelling_run) ''f'' = None"
    by code_simp
  then have "at_principal x \<noteq> ''bob'' \<and> af_principal y \<noteq> ''bob''"
    if "get_artifact (ct_store cancelling_run) ''f'' = Some y" for x :: attempt and y
    using that by auto
  with foreign_runs_are_invisible [of cancelling_run "''A''" "''bob''" "''f''", OF p]
  show ?thesis by blast
qed

section \<open>Restart\<close>

text \<open>
  C26. After a restart nothing is active, every attempt that had ended is as it was, and every
  attempt that had not is unknown and blocks its task: no later reservation of the same task goes
  through on the restarted store.
\<close>

theorem restart_settles:
  assumes "ctl_reachable sha cfg c" "get_attempt (ct_store c) r = Some x"
  shows "ct_active (restart now c) = [] \<and>
    (\<exists>y. get_attempt (ct_store (restart now c)) r = Some y \<and>
      (if is_terminal (at_status x) then y = x
       else at_status y = Unknown \<and>
         (\<forall>q policy t. at_key q = at_key x \<longrightarrow>
            \<not> isOk (reserve t q policy (ct_store (restart now c))))))"
proof -
  let ?s = "ct_store (restart now c)"
  have rows: "get_attempt ?s r = Some (reconcile_row now x)"
    using assms(2) by (simp add: restart_def initial_ctl_def restart_rows)
  have "\<not> isOk (reserve t q policy ?s)"
    if "\<not> is_terminal (at_status x)" "at_key q = at_key x" for q policy t
  proof -
    have "at_status (reconcile_row now x) = Unknown"
      using that(1) not_active_terminal [of "at_status x"] by (simp add: reconcile_row_def)
    then have "\<exists>e. reserve t q policy ?s = Inl e"
      using reserve_blocked [of "reconcile_row now x" ?s q t policy] rows that(2)
      by (auto dest: get_attempt_SomeD)
    then show ?thesis by auto
  qed
  moreover have "reconcile_row now x = x" if "is_terminal (at_status x)"
    using that not_active_terminal [of "at_status x"] by (simp add: reconcile_row_def)
  moreover have "at_status (reconcile_row now x) = Unknown" if "\<not> is_terminal (at_status x)"
    using that not_active_terminal [of "at_status x"] by (simp add: reconcile_row_def)
  ultimately show ?thesis
    using rows by (simp add: restart_def initial_ctl_def)
qed

theorem restart_settles_witness:
  "\<exists>y. get_attempt (ct_store (restart 9 cancelling_run)) ''A'' = Some y \<and> at_status y = Unknown"
proof -
  have reach: "ctl_reachable sample_sha sample_config cancelling_run"
    unfolding cancelling_run_def by (rule sample_reachable)
  have "map_option at_status (get_attempt (ct_store cancelling_run) ''A'') = Some Cancelling"
    by code_simp
  then obtain x where "get_attempt (ct_store cancelling_run) ''A'' = Some x" "at_status x = Cancelling"
    by auto
  with restart_settles [OF reach this(1), of 9] show ?thesis
    by (auto simp: status_sets)
qed

end
