(* ===== verification/ControllerLog.thy ===== *)
theory ControllerLog
  imports ControllerSteps
begin

text \<open>
  The event log and the local state of the stream: only the stream of a run appends to its log,
  the log never outgrows the configured number of events, and what \<^verbatim>\<open>_stream\<close> has collected is a
  function of the log.
\<close>

section \<open>The log of a run\<close>

definition run_log :: "store \<Rightarrow> string \<Rightarrow> run_event list" where
  "run_log s r = map er_event (filter (\<lambda>x. er_run_id x = r) (st_events s))"

definition log_texts :: "run_event list \<Rightarrow> string list" where
  "log_texts es = List.map_filter (\<lambda>e. delta_text (ev_payload e)) es"

lemma log_texts_snoc:
  "log_texts (es @ [e]) = log_texts es @ (case delta_text (ev_payload e) of None \<Rightarrow> [] | Some t \<Rightarrow> [t])"
  by (simp add: log_texts_def map_filter_def split: option.splits)

lemma log_texts_Nil [simp]: "log_texts [] = []"
  by (simp add: log_texts_def map_filter_def)

lemma utf8_length_append [simp]: "utf8_length (s @ t) = utf8_length s + utf8_length t"
  by (simp add: utf8_length_def)

lemma utf8_length_Nil [simp]: "utf8_length [] = 0"
  by (simp add: utf8_length_def)

lemma run_log_events: "st_events s = st_events s' \<Longrightarrow> run_log s r = run_log s' r"
  by (simp add: run_log_def)

lemma run_log_append:
  "append_event r e s = Inr s' \<Longrightarrow> run_log s' r' = run_log s r' @ (if r' = r then [e] else [])"
  by (simp add: run_log_def append_event_InrD(1))

lemma has_events_log: "has_events c r \<longleftrightarrow> run_log (ct_store c) r \<noteq> []"
  by (auto simp: has_events_def run_log_def filter_empty_conv)

definition streaming_of :: "ctl \<Rightarrow> string \<Rightarrow> progress option" where
  "streaming_of c r =
     (case active_of c r of
        None \<Rightarrow> None
      | Some a \<Rightarrow> (case ar_phase a of Streaming sp \<Rightarrow> Some sp | _ \<Rightarrow> None))"

lemma streaming_of_Some:
  "streaming_of c r = Some sp \<longleftrightarrow> (\<exists>a. active_of c r = Some a \<and> ar_phase a = Streaming sp)"
  by (auto simp: streaming_of_def split: option.splits phase.splits)

lemma streaming_of_set_phase:
  "streaming_of (set_phase r ph c) r' =
     (if r' = r then (case active_of c r of None \<Rightarrow> None
                      | Some a \<Rightarrow> (case ph of Streaming sp \<Rightarrow> Some sp | _ \<Rightarrow> None))
      else streaming_of c r')"
  by (simp add: streaming_of_def active_of_set_phase split: option.splits)

definition progress_ok :: "operator_config \<Rightarrow> run_event list \<Rightarrow> progress \<Rightarrow> bool" where
  "progress_ok cfg es sp \<longleftrightarrow> sp_events_seen sp = length es \<and> sp_chunks sp = log_texts es \<and>
     sp_output_bytes sp = utf8_length (concat (sp_chunks sp)) \<and>
     sp_output_bytes sp \<le> lim_output_bytes (api_limits (oc_api cfg))"

definition log_ok :: "operator_config \<Rightarrow> ctl \<Rightarrow> bool" where
  "log_ok cfg c \<longleftrightarrow>
     (\<forall>r. length (run_log (ct_store c) r) \<le> lim_events_per_run (api_limits (oc_api cfg))) \<and>
     (\<forall>r sp. streaming_of c r = Some sp \<longrightarrow> progress_ok cfg (run_log (ct_store c) r) sp)"

section \<open>Segments that leave the log alone\<close>

definition quiet :: "ctl \<Rightarrow> ctl \<Rightarrow> bool" where
  "quiet c c' \<longleftrightarrow> st_events (ct_store c') = st_events (ct_store c) \<and>
     (\<forall>r sp. streaming_of c' r = Some sp \<longrightarrow> streaming_of c r = Some sp)"

lemma quiet_refl [simp]: "quiet c c"
  by (simp add: quiet_def)

lemma quiet_trans [trans]: "quiet c d \<Longrightarrow> quiet d e \<Longrightarrow> quiet c e"
  by (simp add: quiet_def)

lemma quiet_log_ok:
  assumes "quiet c c'" "log_ok cfg c"
  shows "log_ok cfg c'"
proof -
  have "run_log (ct_store c') = run_log (ct_store c)"
    using assms(1) by (simp add: quiet_def run_log_def fun_eq_iff)
  with assms show ?thesis
    unfolding quiet_def log_ok_def by simp
qed

text \<open>The components of the state that \<open>quiet\<close> does not read.\<close>

lemma quiet_frame:
  assumes "st_events (ct_store c') = st_events (ct_store c)" "ct_active c' = ct_active c"
  shows "quiet c c'"
  using assms by (simp add: quiet_def streaming_of_def active_of_def)

lemma quiet_same_but: "same_but r c c' \<Longrightarrow> quiet c c'"
  unfolding quiet_def
proof (intro conjI allI impI)
  fix r' sp
  assume s: "same_but r c c'" and st: "streaming_of c' r' = Some sp"
  show "streaming_of c r' = Some sp"
  proof (cases "r' = r")
    case True
    from st obtain a' where a': "active_of c' r' = Some a'" "ar_phase a' = Streaming sp"
      by (auto simp: streaming_of_Some)
    then have "map_option ar_phase (active_of c r) = Some (Streaming sp)"
      using s True by (simp add: same_but_def)
    then show ?thesis
      using True by (auto simp: streaming_of_Some)
  next
    case False
    with s st show ?thesis by (simp add: same_but_def streaming_of_def)
  qed
qed (simp add: same_but_def)

lemma quiet_upd:
  assumes "\<And>a. ar_phase (f a) = ar_phase a"
  shows "quiet c (upd_active r f c)"
  using assms by (auto simp: quiet_def streaming_of_def active_of_upd split: if_splits option.splits)

lemma quiet_phase:
  assumes "\<And>sp. ph \<noteq> Streaming sp"
  shows "quiet c (set_phase r ph c)"
  using assms
  by (auto simp: quiet_def streaming_of_def active_of_set_phase split: option.splits phase.splits if_splits)

lemma quiet_then_phase:
  "quiet c d \<Longrightarrow> (\<And>sp. ph \<noteq> Streaming sp) \<Longrightarrow> quiet c (set_phase r ph d)"
  using quiet_trans quiet_phase by blast

lemma store_update_quiet: "store_update now r u c = Inr c' \<Longrightarrow> quiet c c'"
  using set_attempt_InrD(4) by (auto simp: store_update_def split: sum.splits intro!: quiet_frame)

lemma reconcile_quarantine_quiet [simp]: "quiet c (reconcile_quarantine r c)"
  using reconcile_quarantine_same quiet_same_but by blast

lemma finish_run_quiet:
  assumes "finish_run now r u st c = Inr c'"
  shows "quiet c c'"
proof -
  obtain d where d: "store_update now r u c = Inr d"
    "c' = (let d' = upd_active r (\<lambda>a. a\<lparr>ar_terminal_status := Some st, ar_wakeup := True\<rparr>) d
           in if st \<in> set validated_terminals then reconcile_quarantine r d' else d')"
    using assms by (auto simp: finish_run_def Let_def)
  have "quiet c (upd_active r (\<lambda>a. a\<lparr>ar_terminal_status := Some st, ar_wakeup := True\<rparr>) d)"
    by (rule quiet_trans [OF store_update_quiet [OF d(1)] quiet_upd]) simp
  with d(2) quiet_trans reconcile_quarantine_quiet show ?thesis
    by (auto simp: Let_def split: if_splits)
qed

lemma quarantine_run_quiet [simp]: "quiet c (quarantine_run now i r reason c)"
  using quarantine_run_same quiet_same_but by blast

lemma finish_quiet: "finish now r st out d c = Inr c' \<Longrightarrow> quiet c c'"
  unfolding finish_def by (rule finish_run_quiet)

lemma unknown_and_quarantine_quiet: "quiet c (unknown_and_quarantine now i r d reason c)"
  by (auto simp: unknown_and_quarantine_def split: sum.splits
      intro: quiet_trans [OF finish_quiet quarantine_run_quiet])

lemma handle_exception_quiet: "quiet c (handle_exception now i r e c)"
  using finish_quiet unknown_and_quarantine_quiet
  by (cases "(now, i, r, e, c)" rule: handle_exception.cases) (auto split: sum.splits)

lemma finish_or_handle_quiet:
  "quiet c (case finish now r st out d c of
      Inl e \<Rightarrow> handle_exception now i r (Exn e) c | Inr c' \<Rightarrow> c')"
  using finish_quiet handle_exception_quiet by (auto split: sum.splits)

lemma end_execute_quiet: "quiet c (end_execute b r c)"
  by (auto simp: quiet_def end_execute_def Let_def release_outstanding_def release_runner_def
      release_principal_def streaming_of_def active_of_def delete_conv' split: option.splits if_splits)

lemma end_quiet: "quiet c d \<Longrightarrow> quiet c (end_execute b r d)"
  using quiet_trans end_execute_quiet by blast

lemma quiet_release: "quiet (release_runner i c) d \<Longrightarrow> quiet c d"
  by (erule quiet_trans [rotated]) (rule quiet_frame; simp add: release_runner_def)

lemma acquire_quiet:
  "quiet c (acquire_runner cfg g r c)" "quiet c (acquire_principal r c)"
proof -
  have sems: "quiet c (principal_sem p n (runner_sem cfg g i c))" for p n i
    by (rule quiet_frame) (auto simp: principal_sem_def runner_sem_def split: option.splits)
  have take: "quiet c d \<Longrightarrow> quiet c (d\<lparr>ct_runner_sems := ss\<rparr>)"
    "quiet c d \<Longrightarrow> quiet c (d\<lparr>ct_principal_sems := ss\<rparr>)" for d ss
    by (simp_all add: quiet_def streaming_of_def active_of_def)
  show "quiet c (acquire_runner cfg g r c)"
    using sems take by (auto simp: acquire_runner_def Let_def split: option.splits intro!: quiet_then_phase)
  show "quiet c (acquire_principal r c)"
    using take by (auto simp: acquire_principal_def Let_def split: option.splits intro!: quiet_then_phase)
qed

lemma queue_end_quiet:
  "quiet c (acquire_fails now b r c)" "quiet c (cancelled_in_queue now r c)"
  "quiet c (task_cancelled_in_queue now r c)"
proof -
  show "quiet c (acquire_fails now b r c)"
    using quiet_release [OF finish_or_handle_quiet] finish_or_handle_quiet
    by (auto simp: acquire_fails_def Let_def split: option.splits intro!: end_quiet)
  show "quiet c (cancelled_in_queue now r c)"
    using quiet_release [OF finish_or_handle_quiet] finish_or_handle_quiet
    by (auto simp: cancelled_in_queue_def Let_def split: option.splits intro!: end_quiet)
  have "quiet c (handle_exception now i r e (c\<lparr>ct_orphans := os\<rparr>))" for i e os
    by (rule quiet_trans [OF quiet_frame handle_exception_quiet]) simp_all
  then show "quiet c (task_cancelled_in_queue now r c)"
    using handle_exception_quiet
    by (auto simp: task_cancelled_in_queue_def Let_def split: option.splits intro!: end_quiet
        simp del: handle_exception.simps)
qed

lemma orphan_quiet: "quiet c (orphan_step i p held b c)"
  by (rule quiet_frame) (auto simp: orphan_step_def Let_def release_runner_def)

lemma close_session_quiet: "quiet c (close_session now failure r c)"
  using handle_exception_quiet
  by (auto simp: close_session_def Let_def split: option.splits phase.splits pending.splits
      intro!: end_quiet simp del: handle_exception.simps)

lemma stream_raises_quiet: "quiet c (stream_raises e r c)"
  by (auto simp: stream_raises_def quiet_phase split: option.splits phase.splits)

lemma begin_dispatched_cancel_quiet: "quiet c (snd (begin_dispatched_cancel now x c))"
proof -
  let ?c = "upd_active (at_run_id x) (\<lambda>a. a\<lparr>ar_cancel_requested := True\<rparr>) c"
  have upd: "quiet c ?c"
    by (rule quiet_upd) simp
  have "quiet c (d\<lparr>ct_cancels := ws\<rparr>)" if "store_update now r u ?c = Inr d" for d r u ws
    by (rule quiet_trans [OF quiet_trans [OF upd store_update_quiet [OF that]] quiet_frame]) simp_all
  with upd show ?thesis
    by (auto simp: begin_dispatched_cancel_def Let_def split: sum.splits)
qed

lemma cancels_quiet: "quiet (c\<lparr>ct_cancels := ws\<rparr>) d \<Longrightarrow> quiet c d"
  by (erule quiet_trans [rotated]) (rule quiet_frame; simp)

lemma cancel_quiet: "quiet c (snd (cancel now r who c))"
proof -
  have "quiet c (upd_active r (\<lambda>a. a\<lparr>ar_cancel_requested := True, ar_cancel_event := True\<rparr>) c
      \<lparr>ct_cancels := ws\<rparr>)" for ws
    by (rule quiet_trans [OF quiet_upd quiet_frame]) simp_all
  then show ?thesis
    using begin_dispatched_cancel_quiet finish_quiet
    by (auto simp: cancel_def cancel_view_of_def split: option.splits sum.splits)
qed

lemma cancel_queued_resumes_quiet: "quiet c (snd (cancel_queued_resumes now r c))"
  using cancels_quiet [OF begin_dispatched_cancel_quiet] cancels_quiet [OF quiet_refl]
  by (auto simp: cancel_queued_resumes_def Let_def cancel_view_of_def split: option.splits)

lemma cancel_dispatched_resumes_quiet: "quiet c (snd (cancel_dispatched_resumes now r i d0 drv c))"
  using cancels_quiet [OF quiet_trans [OF finish_quiet quarantine_run_quiet]]
    cancels_quiet [OF quiet_refl]
  by (auto simp: cancel_dispatched_resumes_def Let_def cancel_view_of_def split: option.splits sum.splits)

lemma submit_quiet: "quiet c (snd (submit sha cfg g now rid aid q c))"
proof -
  have "quiet c (c\<lparr>ct_store := s, ct_runner_out := ro, ct_principal_out := po,
      ct_active := AList.update rid (new_active cfg q rw) (ct_active c)\<rparr>)"
    "quiet c (c\<lparr>ct_store := s\<rparr>)"
    if "reserve now row policy (ct_store c) = Inr s" for s ro po rw row policy
    using reserve_InrD(6) [OF that]
    by (auto simp: quiet_def streaming_of_def active_of_def update_conv' new_active_def
        split: if_splits)
  then show ?thesis
    by (auto simp: submit_def Let_def split: sum.splits option.splits)
qed

lemma restart_quiet: "quiet c (restart now c)"
  by (simp add: quiet_def restart_def initial_ctl_def streaming_of_def active_of_def
      reconcile_restart_def)

lemma write_artifact_quiet: "write_artifact cfg now af path w a txt c = Inr c' \<Longrightarrow> quiet c c'"
  by (auto simp: write_artifact_def add_artifact_def split: if_splits file_write.splits sum.splits
      intro!: quiet_frame)

lemma persist_artifact_quiet: "quiet c (snd (persist_artifact cfg now af path w a txt c))"
  using write_artifact_quiet store_update_quiet
  by (auto simp: persist_artifact_def Let_def split: sum.splits option.splits)

lemma stream_terminal_quiet: "quiet c (snd (stream_terminal cfg now af path w a sp res c))"
  using quiet_trans [OF finish_run_quiet quarantine_run_quiet]
    quiet_trans [OF finish_run_quiet persist_artifact_quiet] finish_run_quiet
  by (auto simp: stream_terminal_def Let_def split: sum.splits option.splits)

lemma stream_end_quiet: "quiet c (stream_end cfg now af path w r result c)"
proof (cases "\<exists>a sp res. active_of c r = Some a \<and> ar_phase a = Streaming sp \<and> result = Some res")
  case False
  then show ?thesis
    by (auto simp: stream_end_def quiet_phase split: option.splits phase.splits)
next
  case True
  then obtain a sp res where a: "active_of c r = Some a" "ar_phase a = Streaming sp"
    "result = Some res" by blast
  obtain e d where t: "stream_terminal cfg now af path w a sp res c = (e, d)" by force
  then have "quiet c d"
    using stream_terminal_quiet [of c cfg now af path w a sp res] by simp
  then show ?thesis
    by (cases e) (simp_all add: stream_end_def a t quiet_then_phase)
qed

lemmas quiet_segments = submit_quiet acquire_quiet queue_end_quiet orphan_quiet stream_end_quiet
  stream_raises_quiet close_session_quiet cancel_quiet cancel_queued_resumes_quiet
  cancel_dispatched_resumes_quiet restart_quiet

section \<open>Into the stream and along it\<close>

text \<open>A run enters the stream with an empty log.\<close>

lemma dispatch_log_ok:
  assumes core: "core_ok {} c" and ok: "log_ok cfg c"
  shows "log_ok cfg (dispatch now r c)"
proof (cases "\<exists>a d. active_of c r = Some a \<and> ar_phase a = Acquired \<and>
    get_quarantine (ct_store c) (at_runner_instance (ar_record a)) = None \<and>
    mark_starting now r c = Inr d")
  case False
  then have "quiet c (dispatch now r c)"
    using finish_quiet handle_exception_quiet
    by (auto simp: dispatch_def Let_def split: option.splits sum.splits intro!: end_quiet)
  with ok show ?thesis by (rule quiet_log_ok [rotated])
next
  case True
  then obtain a d where a: "active_of c r = Some a" "ar_phase a = Acquired"
    "get_quarantine (ct_store c) (at_runner_instance (ar_record a)) = None"
    "mark_starting now r c = Inr d" by blast
  have "quiet c d"
    using a(4) store_update_quiet by (auto simp: mark_starting_def split: option.splits if_splits)
  then have d: "log_ok cfg d" "run_log (ct_store d) r = run_log (ct_store c) r"
    using ok quiet_log_ok by (auto simp: quiet_def intro: run_log_events)
  have "run_log (ct_store c) r = []"
    using core_okD(4) [OF core a(1)] a(2) by (auto simp: run_ok_def has_events_log)
  have "progress_ok cfg [] start_progress"
    by (simp add: progress_ok_def start_progress_def)
  then have "log_ok cfg (set_phase r (Streaming start_progress) d)"
    using d \<open>run_log (ct_store c) r = []\<close>
    by (simp add: log_ok_def streaming_of_set_phase split: option.splits)
  with a show ?thesis by (simp add: dispatch_def)
qed

lemma first_event_status_quiet: "first_event_status now r b c = Inr c' \<Longrightarrow> quiet c c'"
  using store_update_quiet by (auto simp: first_event_status_def split: if_splits option.splits)

text \<open>One event more: the log, the counter and the collected text grow together.\<close>

lemma streaming_of_upd:
  "(\<And>a. ar_phase (f a) = ar_phase a) \<Longrightarrow> streaming_of (upd_active r f c) r' = streaming_of c r'"
  by (auto simp: streaming_of_def active_of_upd split: option.splits)

lemma first_event_status_frames:
  assumes "first_event_status now r b c = Inr d"
  shows "st_events (ct_store d) = st_events (ct_store c)" "ct_active d = ct_active c"
  using assms set_attempt_InrD(4)
  by (auto simp: first_event_status_def store_update_def split: if_splits option.splits sum.splits)

lemma stream_event_log_ok:
  assumes ok: "log_ok cfg c"
  shows "log_ok cfg (stream_event cfg now r e c)"
proof (cases "\<exists>a sp s. active_of c r = Some a \<and> ar_phase a = Streaming sp \<and>
    sp_events_seen sp + 1 \<le> lim_events_per_run (api_limits (oc_api cfg)) \<and>
    append_event r e (ct_store c) = Inr s")
  case False
  then have "quiet c (stream_event cfg now r e c)"
    by (auto simp: stream_event_def Let_def quiet_phase not_less split: option.splits phase.splits
        sum.splits)
  with ok show ?thesis by (rule quiet_log_ok [rotated])
next
  case True
  then obtain a sp s where a: "active_of c r = Some a" "ar_phase a = Streaming sp"
    "sp_events_seen sp + 1 \<le> lim_events_per_run (api_limits (oc_api cfg))"
    "append_event r e (ct_store c) = Inr s" by blast
  have here: "streaming_of c r = Some sp"
    using a by (simp add: streaming_of_Some)
  then have prog: "progress_ok cfg (run_log (ct_store c) r) sp"
    using ok by (simp add: log_ok_def)
  let ?c = "upd_active r (\<lambda>a. a\<lparr>ar_last_event_sequence := ev_sequence e\<rparr>) (c\<lparr>ct_store := s\<rparr>)"
  have base: "streaming_of ?c r' = streaming_of c r'" "active_of ?c r \<noteq> None" for r'
    using a(1) by (simp_all add: streaming_of_upd active_of_upd)
      (simp_all add: streaming_of_def active_of_def)
  have grown: "log_ok cfg (set_phase r ph d)"
    if "st_events (ct_store d) = st_events s" "\<And>r'. streaming_of d r' = streaming_of c r'"
      "\<And>sp1. ph = Streaming sp1 \<Longrightarrow> progress_ok cfg (run_log (ct_store c) r @ [e]) sp1" for d ph
  proof -
    have "append_event r e (ct_store c) = Inr s" "run_log (ct_store d) = run_log s"
      using a(4) that(1) by (simp_all add: run_log_def fun_eq_iff)
    then have log: "run_log (ct_store d) r' = run_log (ct_store c) r' @ (if r' = r then [e] else [])" for r'
      using run_log_append by metis
    have "length (run_log (ct_store c) r) + 1 \<le> lim_events_per_run (api_limits (oc_api cfg))"
      using a(3) prog by (simp add: progress_ok_def)
    then show ?thesis
      using that(2,3) ok
      by (auto simp: log_ok_def log streaming_of_set_phase
          split: option.splits phase.splits if_splits)
  qed
  have frames: "st_events (ct_store ?c) = st_events s" "st_events (ct_store (upd_active r f d)) = st_events (ct_store d)" for f d
    by simp_all
  show ?thesis
  proof (cases "first_event_status now r (sp_events_seen sp = 0) ?c")
    case (Inl x)
    then have "stream_event cfg now r e c =
        set_phase r (Closing (sp_events_seen sp + 1) (Raises (Exn x))) ?c"
      using a by (simp add: stream_event_def Let_def)
    then show ?thesis
      using grown [of ?c "Closing (sp_events_seen sp + 1) (Raises (Exn x))"] base by simp
  next
    case (Inr d)
    note first_event_status_frames [OF Inr]
    then have d: "st_events (ct_store d) = st_events s" "streaming_of d r' = streaming_of c r'" for r'
      using base by (simp_all add: streaming_of_def active_of_def)
    let ?d = "upd_active r (\<lambda>a. a\<lparr>ar_wakeup := True\<rparr>) d"
    have wake: "st_events (ct_store ?d) = st_events s" "streaming_of ?d r' = streaming_of c r'" for r'
      using d by (simp_all add: streaming_of_upd)
    show ?thesis
    proof (cases "delta_text (ev_payload e)")
      case None
      then have "stream_event cfg now r e c =
          set_phase r (Streaming (sp\<lparr>sp_events_seen := sp_events_seen sp + 1\<rparr>)) ?d"
        using a Inr by (simp add: stream_event_def Let_def)
      moreover have "progress_ok cfg (run_log (ct_store c) r @ [e])
          (sp\<lparr>sp_events_seen := sp_events_seen sp + 1\<rparr>)"
        using prog None by (auto simp: progress_ok_def log_texts_snoc)
      ultimately show ?thesis
        using grown [OF wake, of "Streaming (sp\<lparr>sp_events_seen := sp_events_seen sp + 1\<rparr>)"]
        by simp
    next
      case (Some t)
      let ?bytes = "sp_output_bytes sp + utf8_length t"
      let ?sp = "\<lparr>sp_events_seen = sp_events_seen sp + 1, sp_output_bytes = ?bytes,
          sp_chunks = sp_chunks sp @ [t]\<rparr>"
      show ?thesis
      proof (cases "?bytes > lim_output_bytes (api_limits (oc_api cfg))")
        case True
        then have "stream_event cfg now r e c =
            set_phase r (Closing (sp_events_seen sp + 1) (Raises (Exn EUpstreamProtocol))) d"
          using a Inr Some by (simp add: stream_event_def Let_def)
        then show ?thesis
          using grown [OF d, of "Closing (sp_events_seen sp + 1) (Raises (Exn EUpstreamProtocol))"]
          by simp
      next
        case False
        then have "stream_event cfg now r e c = set_phase r (Streaming ?sp) ?d"
          using a Inr Some by (simp add: stream_event_def Let_def)
        moreover have "progress_ok cfg (run_log (ct_store c) r @ [e]) ?sp"
          using prog Some False by (simp add: progress_ok_def log_texts_snoc)
        ultimately show ?thesis
          using grown [OF wake, of "Streaming ?sp"] by simp
      qed
    qed
  qed
qed

section \<open>Reachable states\<close>

lemma ctl_step_log:
  assumes "ctl_step sha cfg c c'" "core_ok {} c" "log_ok cfg c"
  shows "log_ok cfg c'"
  using assms(1)
  by (cases rule: ctl_step.cases)
    (simp_all add: dispatch_log_ok stream_event_log_ok assms(2,3)
      quiet_segments [THEN quiet_log_ok, OF assms(3)])

interpretation logged_controller: invariant_system "ctl_step sha cfg"
  "\<lambda>c. core_ok {} c \<and> log_ok cfg c"
  by unfold_locales (blast intro: ctl_step_core ctl_step_log)

lemma reachable_log: "ctl_reachable sha cfg c \<Longrightarrow> log_ok cfg c"
proof -
  assume "ctl_reachable sha cfg c"
  moreover have "log_ok cfg (initial_ctl empty_store)"
    by (simp add: log_ok_def run_log_def initial_ctl_def empty_store_def streaming_of_def active_of_def)
  ultimately show ?thesis
    unfolding ctl_reachable_def using logged_controller.steps_inv initial_core by blast
qed

end
