(* ===== verification/LogClaims.thy ===== *)
theory LogClaims
  imports ControllerLog Schedules
begin

text \<open>
  The properties of the durable event log, of the result recorded at the end of a stream, and of
  the store's own operations.
\<close>

section \<open>Admission and its SQL\<close>

text \<open>
  C27. A reservation goes through exactly when the task is new or was created with the same
  request hash, every earlier attempt of the task is proven never to have reached the Runner,
  and the generated run and attempt ids are fresh.
\<close>

theorem reserve_admission:
  assumes ok: "store_ok s"
  shows "(\<exists>s'. reserve now q policy s = Inr s') \<longleftrightarrow>
    (\<forall>k. get_task s (at_principal q) (at_task_id q) = Some k \<longrightarrow>
       tk_request_hash k = at_request_hash q) \<and>
    (\<forall>a\<in>set (st_attempts s). at_key a = at_key q \<longrightarrow> proven a) \<and>
    at_run_id q \<notin> at_run_id ` set (st_attempts s) \<and>
    at_attempt_id q \<notin> at_attempt_id ` set (st_attempts s)" (is "?ok \<longleftrightarrow> ?hash \<and> ?proven \<and> ?ids")
proof
  assume ?ok
  then obtain s' where res: "reserve now q policy s = Inr s'" by blast
  note D = reserve_InrD [OF res]
  have "?ids"
    using D(4) by (auto simp: D(3) attempts_constraints_def)
  moreover have ?hash using D(2) by blast
  moreover have ?proven using D(1) by blast
  ultimately show "?hash \<and> ?proven \<and> ?ids" by blast
next
  assume R: "?hash \<and> ?proven \<and> ?ids"
  let ?new = "q\<lparr>at_verification := None, at_usage := None, at_created_at := now,
                at_updated_at := now, at_started_at := None\<rparr>"
  let ?mine = "filter (for_task (at_principal q) (at_task_id q)) (st_attempts s)"
  have mine: "a \<in> set ?mine \<Longrightarrow> proven a" for a
    using R by (auto simp: at_key_def)
  have lock: "List.find (\<lambda>a. is_lock (at_status a)) ?mine = None"
    using mine proven_not_lock unfolding find_None_iff by blast
  have block: "filter (\<lambda>a. blocker_predicate a = Some True) ?mine = []"
    using mine by (simp add: filter_empty_conv blocker_predicate_iff)
  have "lock_index_ok (st_attempts s @ [?new])"
    using store_okD(6) [OF ok] R proven_not_lock
    by (fastforce simp: lock_index_ok_def index_ok_snoc at_key_def)
  then have "attempts_constraints (st_attempts s @ [?new])"
    using store_okD(5,7) [OF ok] R by (auto simp: attempts_constraints_def)
  then show ?ok
    using R lock block
    by (auto simp: reserve_def Let_def order_latest_def split: option.splits)
qed

definition sample_row :: attempt where
  "sample_row = reservation_row sample_registry sample_runner ''A'' ''a-A'' ''h''
     (sample_submission ''t1'')"

theorem reserve_admission_witness:
  "\<exists>s'. reserve 1 sample_row ''general'' empty_store = Inr s'"
  using reserve_admission [OF store_ok_empty, of 1 sample_row "''general''"]
  by (simp add: empty_store_def get_task_def)

text \<open>
  C29. The SQL retry guard and the Python one agree on every attempt: under SQL's three-valued
  logic \<open>blocker_predicate\<close> is never NULL, and the rows it selects are exactly those for which the
  Python predicate does not prove that nothing was executed.
\<close>

theorem sql_guard_agrees:
  "blocker_predicate a \<noteq> None \<and>
   filter (\<lambda>a. blocker_predicate a = Some True) rows =
     filter (\<lambda>a. \<not> proven_pre_execution (at_status a) (at_outcome a) (at_started_at a)) rows"
  by (simp add: blocker_predicate_iff)

section \<open>The event log\<close>

lemma dispatch_log: "run_log (ct_store (dispatch now r' c)) r = run_log (ct_store c) r"
proof -
  have same: "st_events (ct_store d) = st_events (ct_store c)" if "quiet c d" for d
    using that by (simp add: quiet_def)
  have mark: "quiet c d" if "mark_starting now r' c = Inr d" for d
    using that store_update_quiet by (auto simp: mark_starting_def split: option.splits if_splits)
  have "st_events (ct_store (dispatch now r' c)) = st_events (ct_store c)"
    by (auto simp: dispatch_def Let_def split: option.splits sum.splits
        intro!: same end_quiet intro: mark finish_quiet handle_exception_quiet
        simp del: handle_exception.simps)
  then show ?thesis by (rule run_log_events)
qed

lemma stream_event_log:
  "run_log (ct_store (stream_event cfg now r' e c)) r = run_log (ct_store c) r \<or>
   (\<exists>a sp. active_of c r = Some a \<and> ar_phase a = Streaming sp \<and>
      run_log (ct_store (stream_event cfg now r' e c)) r = run_log (ct_store c) r @ [e])"
proof (cases "\<exists>a sp s. active_of c r' = Some a \<and> ar_phase a = Streaming sp \<and>
    append_event r' e (ct_store c) = Inr s")
  case False
  then have "ct_store (stream_event cfg now r' e c) = ct_store c"
    by (auto simp: stream_event_def Let_def split: option.splits phase.splits sum.splits)
  then show ?thesis by simp
next
  case True
  then obtain a sp s where a: "active_of c r' = Some a" "ar_phase a = Streaming sp"
    "append_event r' e (ct_store c) = Inr s" by blast
  have "st_events (ct_store (stream_event cfg now r' e c)) \<in> {st_events (ct_store c), st_events s}"
    using a first_event_status_frames(1)
    by (auto simp: stream_event_def Let_def split: sum.splits option.splits)
  then have "run_log (ct_store (stream_event cfg now r' e c)) r \<in> {run_log (ct_store c) r, run_log s r}"
    by (auto simp: run_log_def)
  then show ?thesis
    using run_log_append [OF a(3), of r] a(1,2) by (cases "r = r'") auto
qed

text \<open>
  C22. The durable log of a run is append-only and bounded: a segment leaves it as it is or appends
  one event to it, the latter only while the stream of that run is open, so nothing is added once
  the stream has ended; and it never holds more events than configured.
\<close>

theorem log_grows_only_in_stream:
  assumes "ctl_reachable sha cfg c" "ctl_step sha cfg c c'"
  shows "(run_log (ct_store c') r = run_log (ct_store c) r \<or>
      (\<exists>a sp e. active_of c r = Some a \<and> ar_phase a = Streaming sp \<and>
         run_log (ct_store c') r = run_log (ct_store c) r @ [e])) \<and>
    length (run_log (ct_store c') r) \<le> lim_events_per_run (api_limits (oc_api cfg))"
proof
  have same: "run_log (ct_store d) r = run_log (ct_store c) r" if "quiet c d" for d
    using that by (auto simp: quiet_def intro: run_log_events)
  show "run_log (ct_store c') r = run_log (ct_store c) r \<or>
      (\<exists>a sp e. active_of c r = Some a \<and> ar_phase a = Streaming sp \<and>
         run_log (ct_store c') r = run_log (ct_store c) r @ [e])"
    using assms(2)
  proof (cases rule: ctl_step.cases)
    case (event now ra e)
    then show ?thesis
      using stream_event_log [of cfg now ra e c r] by blast
  qed (simp_all add: dispatch_log quiet_segments [THEN same])
  have "ctl_reachable sha cfg c'"
    using assms unfolding ctl_reachable_def by (rule rtranclp.rtrancl_into_rtrancl)
  then show "length (run_log (ct_store c') r) \<le> lim_events_per_run (api_limits (oc_api cfg))"
    using reachable_log by (simp add: log_ok_def)
qed

definition open_stream :: ctl where
  "open_stream = sample_schedule (sample_start ''A'' ''t1'' @ [DoEvent 3 ''A'' (sample_event ''A'' 1)])"

lemma open_stream_reachable: "ctl_reachable sample_sha sample_config open_stream"
  unfolding open_stream_def by (rule sample_reachable)

theorem log_grows_only_in_stream_witness:
  "length (run_log (ct_store (stream_event sample_config 4 ''A'' (sample_event ''A'' 2) open_stream))
      ''A'') \<le> 5"
proof -
  have "lim_events_per_run (api_limits (oc_api sample_config)) = 5"
    by code_simp
  moreover have "ctl_step sample_sha sample_config open_stream
      (stream_event sample_config 4 ''A'' (sample_event ''A'' 2) open_stream)"
    by (rule ctl_step.event)
  ultimately show ?thesis
    using log_grows_only_in_stream [OF open_stream_reachable, of _ "''A''"] by metis
qed

lemma after_last:
  assumes "sorted_wrt (\<lambda>x y. f x < f y) (xs @ ys)" "xs \<noteq> []"
  shows "filter (\<lambda>x. (f (last xs) :: nat) < f x) (xs @ ys) = ys"
proof -
  have "f x \<le> f (last xs)" if "x \<in> set xs" for x
  proof -
    obtain zs where zs: "xs = zs @ [last xs]"
      using assms(2) by (metis append_butlast_last_id)
    have "sorted_wrt (\<lambda>x y. f x < f y) (zs @ [last xs])"
      using assms(1) zs by (simp add: sorted_wrt_append)
    moreover have "x \<in> set zs \<or> x = last xs"
      using that zs by (metis Un_iff empty_iff insert_iff list.set(1,2) set_append)
    ultimately show ?thesis
      by (auto simp: sorted_wrt_append)
  qed
  then have "filter (\<lambda>x. f (last xs) < f x) xs = []"
    by (auto simp: filter_empty_conv not_less)
  moreover have "filter (\<lambda>x. f (last xs) < f x) ys = ys"
    using assms by (auto simp: sorted_wrt_append filter_id_conv)
  ultimately show ?thesis by simp
qed

text \<open>
  C28. Paging is complete: a page of the event log holds, in strictly ascending order, rows of the
  run after the cursor, and the page that follows its last row continues it without gap or repeat,
  so that two pages are one page of their total length.
\<close>

theorem pages_compose:
  assumes "ctl_reachable sha cfg c" "list_events (ct_store c) r after n = p" "p \<noteq> []"
  shows "sorted_wrt (<) (map er_sequence p) \<and> (\<forall>x\<in>set p. er_run_id x = r \<and> after < er_sequence x) \<and>
    p @ list_events (ct_store c) r (er_sequence (last p)) m = list_events (ct_store c) r after (n + m)"
proof -
  let ?f = "filter (\<lambda>x. after < er_sequence x) (log_of (ct_store c) r)"
  have keyed: "events_keyed (ct_store c)"
    using store_okD(4) [OF core_okD(1) [OF reachable_core [OF assms(1)]]] .
  have p: "p = take n ?f"
    using assms(2) by (simp add: list_events_log)
  have "sorted_wrt (\<lambda>x y. er_sequence x < er_sequence y) (log_of (ct_store c) r)"
    using log_of_sorted [OF keyed, of r] by (simp add: sorted_wrt_map)
  then have f: "sorted_wrt (\<lambda>x y. er_sequence x < er_sequence y) ?f"
    by (rule sorted_wrt_filter)
  then have split: "sorted_wrt (\<lambda>x y. er_sequence x < er_sequence y) (p @ drop n ?f)"
    by (simp add: p)
  have sub: "set p \<subseteq> set ?f"
    by (simp add: p set_take_subset del: set_filter)
  then have "last p \<in> set ?f"
    using assms(3) last_in_set by blast
  then have "filter (\<lambda>x. er_sequence (last p) < er_sequence x) (log_of (ct_store c) r) =
      filter (\<lambda>x. er_sequence (last p) < er_sequence x) ?f"
    by (auto intro!: filter_cong)
  also have "?f = p @ drop n ?f"
    by (simp add: p)
  also have "filter (\<lambda>x. er_sequence (last p) < er_sequence x) (p @ drop n ?f) = drop n ?f"
    using split assms(3) by (rule after_last)
  finally have "list_events (ct_store c) r (er_sequence (last p)) m = take m (drop n ?f)"
    by (simp add: list_events_log)
  moreover have "\<forall>x\<in>set p. er_run_id x = r \<and> after < er_sequence x"
    using sub unfolding log_of_def by fastforce
  moreover have "sorted_wrt (<) (map er_sequence p)"
    using split unfolding sorted_wrt_map sorted_wrt_append by blast
  moreover have "p @ take m (drop n ?f) = list_events (ct_store c) r after (n + m)"
    unfolding list_events_log take_add by (simp add: p)
  ultimately show ?thesis by simp
qed

theorem pages_compose_witness:
  "\<exists>x. list_events (ct_store open_stream) ''A'' 0 1 = [x] \<and>
     [x] @ list_events (ct_store open_stream) ''A'' (er_sequence x) 4 =
       list_events (ct_store open_stream) ''A'' 0 5"
proof -
  have "length (list_events (ct_store open_stream) ''A'' 0 1) = 1"
    by code_simp
  then obtain x where x: "list_events (ct_store open_stream) ''A'' 0 1 = [x]"
    by (metis One_nat_def length_0_conv length_Suc_conv)
  from pages_compose [OF open_stream_reachable x, of 4] x show ?thesis by simp
qed

section \<open>The result of a run\<close>

definition result_recorded :: "run_result \<Rightarrow> run_event list \<Rightarrow> attempt \<Rightarrow> bool" where
  "result_recorded res es y \<longleftrightarrow>
     at_status y = status_of_result (rr_status res) \<and>
     at_outcome y = Some (if rr_status res = CUnknown then OutUnknown
                          else outcome_of_result (rr_outcome res)) \<and>
     at_verification y = Some (rr_verification res) \<and> at_usage y = Some (rr_usage res) \<and>
     (log_texts es \<noteq> [] \<longrightarrow> at_summary y = Some (concat (log_texts es)))"

lemma status_of_result_unknown [simp]: "status_of_result st = Unknown \<longleftrightarrow> st = CUnknown"
  by (cases st) simp_all

lemma persist_artifact_result:
  assumes ok: "core_ok {r} c" and x: "row c r = Some x" "\<not> proven x" and act: "r \<in> active_runs c"
    and a: "at_run_id a = r" and res: "result_recorded res es x"
  obtains c' y where "persist_artifact cfg now af path w a txt c = (None, c')"
    "row c' r = Some y" "result_recorded res es y"
    "st_quarantine (ct_store c') = st_quarantine (ct_store c)"
proof (cases "write_artifact cfg now af path w a txt c")
  case (Inr c')
  have "st_quarantine (ct_store c') = st_quarantine (ct_store c)"
    using Inr by (auto simp: write_artifact_def add_artifact_def
        split: if_splits file_write.splits sum.splits)
  moreover have "row c' r = Some x"
    using write_artifact_frames [OF Inr] x(1) by (auto simp: get_attempt_def)
  ultimately show ?thesis
    using that Inr res by (simp add: persist_artifact_def)
next
  case (Inl err)
  obtain d where d: "persist_artifact cfg now af path w a txt c =
      (case store_update now r (no_update\<lparr>up_detail := Some d\<rparr>) c of
         Inl e \<Rightarrow> (Some e, c) | Inr c' \<Rightarrow> (None, c'))"
    using Inl x(1) a by (simp add: persist_artifact_def Let_def)
  let ?u = "no_update\<lparr>up_detail := Some d\<rparr>"
  obtain c1 where c1: "store_update now r ?u c = Inr c1" "row c1 r = Some (apply_update now ?u x)"
    "st_quarantine (ct_store c1) = st_quarantine (ct_store c)"
    by (rule store_update_core [OF ok x act, of now ?u]) (use x(2) in auto)
  have "result_recorded res es (apply_update now ?u x)"
    using res by (simp add: result_recorded_def apply_update_def no_update_def)
  with that d c1 show ?thesis by simp
qed

lemma stream_terminal_result:
  assumes ok: "core_ok {r} c" and x: "row c r = Some x" "row_in_phase (Streaming sp) x"
    and act: "r \<in> active_runs c" and a: "at_run_id (ar_record a) = r"
    and inst: "at_runner_instance (ar_record a) = at_runner_instance x"
    and sp: "sp_chunks sp = log_texts es"
  obtains c' y where "stream_terminal cfg now af path w a sp res c = (None, c')"
    "row c' r = Some y" "result_recorded res es y"
    "rr_status res = CUnknown \<longrightarrow> quarantined_for (ct_store c') y"
proof -
  let ?st = "status_of_result (rr_status res)"
  let ?u1 = "finish_update now Unknown (Some OutUnknown) (Some (unknown_detail (rr_detail res)))
      (Some (rr_verification res)) (Some (rr_usage res)) (stream_summary sp)"
  let ?u2 = "finish_update now ?st (Some (outcome_of_result (rr_outcome res))) (rr_detail res)
      (Some (rr_verification res)) (Some (rr_usage res)) (stream_summary sp)"
  note np = streaming_unproven [OF x(2)]
  have started: "at_started_at x \<noteq> None"
    using x(2) by simp
  then have up: "\<not> proven (apply_update now ?u1 x)" "\<not> proven (apply_update now ?u2 x)"
    by (auto simp: finish_update_def outcome_of_result_unsafe)
  have rec: "rr_status res = CUnknown \<Longrightarrow> result_recorded res es (apply_update now ?u1 x)"
    "rr_status res \<noteq> CUnknown \<Longrightarrow> result_recorded res es (apply_update now ?u2 x)"
    by (simp_all add: result_recorded_def apply_update_def finish_update_def no_update_def
        stream_summary_def sp)
  show ?thesis
  proof (cases "rr_status res = CUnknown")
    case True
    obtain c1 where c1: "finish_run now r ?u1 Unknown c = Inr c1"
      "row c1 r = Some (apply_update now ?u1 x)"
      by (rule finish_run_core [OF ok x(1) np act up(1)])
    let ?c = "quarantine_run now (at_runner_instance (ar_record a)) r ''unknown terminal'' c1"
    have "stream_terminal cfg now af path w a sp res c = (None, ?c)"
      using True c1(1) a by (simp add: stream_terminal_def Let_def)
    moreover have "row ?c r = Some (apply_update now ?u1 x)"
      using c1(2) by (simp add: quarantine_run_def)
    moreover have "quarantined_for (ct_store ?c) (apply_update now ?u1 x)"
      using get_attempt_run_id [OF x(1)]
      by (simp add: quarantined_for_def quarantine_run_def quarantine.entry_put inst)
    ultimately show ?thesis
      using that rec(1) [OF True] by blast
  next
    case False
    obtain c2 where c2: "finish_run now r ?u2 ?st c = Inr c2" "core_ok {r} c2" "same_but r c c2"
      "row c2 r = Some (apply_update now ?u2 x)"
      by (rule finish_run_core [OF ok x(1) np act up(2)])
    have act2: "r \<in> active_runs c2"
      using same_but_active_runs [OF c2(3)] act by blast
    show ?thesis
    proof (cases "\<exists>t. stream_summary sp = Some t \<and> ?st = Completed \<and> t \<noteq> ''''")
      case True
      then obtain t where t: "stream_summary sp = Some t" "?st = Completed" "t \<noteq> ''''" by blast
      obtain c3 y where c3: "persist_artifact cfg now af path w (ar_record a) t c2 = (None, c3)"
        "row c3 r = Some y" "result_recorded res es y"
        by (rule persist_artifact_result [OF c2(2,4) up(2) act2 a rec(2) [OF False]])
      have "stream_terminal cfg now af path w a sp res c = (None, c3)"
        using False t c2(1) a c3(1) by (simp add: stream_terminal_def Let_def)
      then show ?thesis
        using that c3(2,3) False by blast
    next
      case no_artifact: False
      then have "stream_terminal cfg now af path w a sp res c = (None, c2)"
        using False c2(1) a by (auto simp: stream_terminal_def Let_def split: option.splits)
      then show ?thesis
        using that c2(4) rec(2) [OF False] False by blast
    qed
  qed
qed

text \<open>
  C21. At the end of a stream the attempt records exactly what the Runner reported: its status,
  outcome, verification and usage, and as summary the concatenation of the message deltas of the
  run's durable event log; an unknown result quarantines the Runner in the name of the run.
\<close>

theorem stream_end_records:
  assumes "ctl_reachable sha cfg c" "active_of c r = Some a" "ar_phase a = Streaming sp"
    and "run_log (ct_store c) r = es"
    and "stream_end cfg now af path w r (Some res) c = c'"
  shows "\<exists>y. get_attempt (ct_store c') r = Some y \<and>
    at_status y = status_of_result (rr_status res) \<and>
    at_outcome y = Some (if rr_status res = CUnknown then OutUnknown
                         else outcome_of_result (rr_outcome res)) \<and>
    at_verification y = Some (rr_verification res) \<and> at_usage y = Some (rr_usage res) \<and>
    (log_texts es \<noteq> [] \<longrightarrow> at_summary y = Some (concat (log_texts es))) \<and>
    (rr_status res = CUnknown \<longrightarrow> quarantined_for (ct_store c') y)"
proof -
  have ok: "core_ok {} c"
    using assms(1) by (rule reachable_core)
  obtain x where x: "row c r = Some x" "row_in_phase (ar_phase a) x" "at_run_id (ar_record a) = r"
    "at_runner_instance (ar_record a) = at_runner_instance x" "r \<in> active_runs c" "core_ok {r} c"
    by (rule active_row [OF ok assms(2)])
  have "streaming_of c r = Some sp"
    using assms(2,3) by (simp add: streaming_of_Some)
  then have sp: "sp_chunks sp = log_texts es"
    using reachable_log [OF assms(1)] assms(4) by (auto simp: log_ok_def progress_ok_def)
  obtain d y where d: "stream_terminal cfg now af path w a sp res c = (None, d)"
    "row d r = Some y" "result_recorded res es y"
    "rr_status res = CUnknown \<longrightarrow> quarantined_for (ct_store d) y"
    by (rule stream_terminal_result [OF x(6,1) x(2) [unfolded assms(3)] x(5,3,4) sp,
          where cfg = cfg and now = now and af = af and path = path and w = w and res = res])
  have "ct_store c' = ct_store d"
    using assms(2,3,5) d(1) by (auto simp: stream_end_def)
  with d(2-4) show ?thesis
    by (simp add: result_recorded_def)
qed

theorem stream_end_records_witness:
  "\<exists>y. get_attempt (ct_store (stream_end sample_config 4 ''f1'' ''/f1'' (Written ''00'') ''A''
      (Some (sample_result CCompleted OSucceeded)) open_stream)) ''A'' = Some y \<and>
     at_status y = Completed \<and> at_summary y = Some ''hi''"
proof -
  have "map_option (\<lambda>a. case ar_phase a of Streaming _ \<Rightarrow> True | _ \<Rightarrow> False)
      (active_of open_stream ''A'') = Some True"
    by code_simp
  then obtain a where "active_of open_stream ''A'' = Some a"
    "case ar_phase a of Streaming _ \<Rightarrow> True | _ \<Rightarrow> False" by auto
  then obtain sp where a: "active_of open_stream ''A'' = Some a" "ar_phase a = Streaming sp"
    by (cases "ar_phase a") auto
  have "log_texts (run_log (ct_store open_stream) ''A'') = [''hi'']"
    by code_simp
  with stream_end_records [OF open_stream_reachable a refl refl, of 4 "''f1''" "''/f1''"
      "Written ''00''" "sample_result CCompleted OSucceeded"] show ?thesis
    by (auto simp: sample_result_def)
qed

end
