(* ===== verification/ExecConfig.thy ===== *)
theory ExecConfig
  imports PyText "HOL-Library.Word"
begin

unbundle bit_operations_syntax

text \<open>
  The operator's execution bindings (\<^verbatim>\<open>apps/runner/src/cli_provider_runner/execution_config.py\<close>).
  The file system is a parameter: \<open>realpath\<close>, \<open>isdir\<close> and \<open>lstat\<close> are what the functions of
  \<^verbatim>\<open>os\<close> of these names return, \<open>parse\<close> what UTF-8 decoding and \<^verbatim>\<open>json.loads\<close> make of the bytes.
\<close>

section \<open>Bindings\<close>

definition known_actions :: "string list" where
  "known_actions = [''hermes.yolo'', ''devin.acp.session_mode.bypass'',
     ''antigravity.dangerously_skip_permissions'']"

datatype binding_error =
    DuplicateStrings | EmptyString | RootNul | RootNotAbsolute | RootNotCanonical
  | RootNotDirectory | UnknownActions "string list" | BadPin alias_error | RootMissing

definition unique_strings :: "string list \<Rightarrow> binding_error + unit" where
  "unique_strings vs =
     (if length (remdups vs) \<noteq> length vs then Inl DuplicateStrings
      else if [] \<in> set vs then Inl EmptyString else Inr ())"

record workspace_binding =
  wb_root :: string
  wb_actions :: "string list"
  wb_presets :: "string list option"
  wb_models :: "string list option"

definition isabs :: "string \<Rightarrow> bool" where
  "isabs p \<longleftrightarrow> starts_with p ''/''"

definition check_root :: "(string \<Rightarrow> string) \<Rightarrow> (string \<Rightarrow> bool) \<Rightarrow> string \<Rightarrow> binding_error + unit" where
  "check_root realpath isdir v =
     (if CHR 0x00 \<in> set v then Inl RootNul
      else if \<not> isabs v then Inl RootNotAbsolute
      else if realpath v \<noteq> v then Inl RootNotCanonical
      else if \<not> isdir v then Inl RootNotDirectory else Inr ())"

definition check_actions :: "string list \<Rightarrow> binding_error + unit" where
  "check_actions vs =
     bindE (unique_strings vs) (\<lambda>_.
       let unknown = filter (\<lambda>v. v \<notin> set known_actions) vs
       in guardE (unknown = []) (UnknownActions unknown))"

definition check_pin :: "string \<Rightarrow> binding_error + unit" where
  "check_pin v = (case validate_alias v of Inl e \<Rightarrow> Inl (BadPin e) | Inr _ \<Rightarrow> Inr ())"

fun check_pins :: "string list option \<Rightarrow> binding_error + unit" where
  "check_pins None = Inr ()"
| "check_pins (Some vs) = bindE (unique_strings vs) (\<lambda>_. forE check_pin vs)"

definition check_binding ::
  "(string \<Rightarrow> string) \<Rightarrow> (string \<Rightarrow> bool) \<Rightarrow> workspace_binding \<Rightarrow> binding_error + unit" where
  "check_binding realpath isdir b =
     bindE (guardE (wb_root b \<noteq> []) RootMissing) (\<lambda>_.
     bindE (check_root realpath isdir (wb_root b)) (\<lambda>_.
     bindE (check_actions (wb_actions b)) (\<lambda>_.
     bindE (check_pins (wb_presets b)) (\<lambda>_. check_pins (wb_models b)))))"

record execution_config =
  xc_version :: int
  xc_workspaces :: "(string \<times> workspace_binding) list"

definition execution_config_ok ::
  "(string \<Rightarrow> string) \<Rightarrow> (string \<Rightarrow> bool) \<Rightarrow> execution_config \<Rightarrow> bool" where
  "execution_config_ok realpath isdir x \<longleftrightarrow>
     xc_version x = 1 \<and>
     list_all (\<lambda>(w, b). isOk (check_binding realpath isdir b)) (xc_workspaces x) \<and>
     list_all (\<lambda>(w, b). re_match id_full w) (xc_workspaces x)"

definition binding_for :: "execution_config \<Rightarrow> string \<Rightarrow> workspace_binding option" where
  "binding_for x w = map_of (xc_workspaces x) w"

section \<open>What a bound driver may do\<close>

datatype path_error = PathEmpty | PathAbsolute | PathEscapes

definition join_path :: "string \<Rightarrow> string \<Rightarrow> string" where
  "join_path a b =
     (if isabs b then b else if a = [] \<or> ends_with_slash a then a @ b else a @ ''/'' @ b)"

definition resolve_path :: "(string \<Rightarrow> string) \<Rightarrow> string \<Rightarrow> string \<Rightarrow> path_error + string" where
  "resolve_path realpath base relative =
     (if relative = [] \<or> CHR 0x00 \<in> set relative then Inl PathEmpty
      else if isabs relative then Inl PathAbsolute
      else let candidate = realpath (join_path base relative)
           in if candidate \<noteq> base \<and> \<not> starts_with candidate (base @ ''/'') then Inl PathEscapes
              else Inr candidate)"

definition allows :: "workspace_binding \<Rightarrow> string \<Rightarrow> bool" where
  "allows b action \<longleftrightarrow> action \<in> set (wb_actions b)"

section \<open>The trusted file\<close>

datatype config_code =
    ConfigUntrusted | ConfigUnreadable | ConfigPermissions | ConfigInvalid | WorkspaceBusy

record file_stat =
  fs_mode :: "32 word"
  fs_uid :: nat

definition file_type_is :: "32 word \<Rightarrow> 32 word \<Rightarrow> bool" where
  "file_type_is t m \<longleftrightarrow> m AND 0xF000 = t"

definition is_regular :: "32 word \<Rightarrow> bool" where
  "is_regular = file_type_is 0x8000"

definition is_directory :: "32 word \<Rightarrow> bool" where
  "is_directory = file_type_is 0x4000"

definition file_forbidden :: "32 word" where "file_forbidden = 0x5F" \<comment> \<open>\<^verbatim>\<open>0o137\<close>\<close>

definition dir_forbidden :: "32 word" where "dir_forbidden = 0x3F" \<comment> \<open>\<^verbatim>\<open>0o077\<close>\<close>

text \<open>\<open>dirname\<close> and \<open>abspath\<close> are those of \<^verbatim>\<open>os.path\<close>; \<open>lstat\<close> is \<open>None\<close> where it raises.\<close>

definition check_trusted_file ::
  "(string \<Rightarrow> string) \<Rightarrow> (string \<Rightarrow> string) \<Rightarrow> (string \<Rightarrow> string) \<Rightarrow> (string \<Rightarrow> file_stat option) \<Rightarrow>
     nat \<Rightarrow> string \<Rightarrow> config_code + string" where
  "check_trusted_file abspath realpath dirname lstat euid path =
     (if path = [] then Inl ConfigUntrusted
      else if realpath (abspath path) \<noteq> abspath path then Inl ConfigUntrusted
      else
        let canonical = realpath (abspath path) in
        (case lstat canonical of
          None \<Rightarrow> Inl ConfigUnreadable
        | Some st \<Rightarrow>
          if \<not> is_regular (fs_mode st) then Inl ConfigUntrusted
          else if fs_uid st \<noteq> euid then Inl ConfigUntrusted
          else if fs_mode st AND file_forbidden \<noteq> 0 then Inl ConfigPermissions
          else
            (case lstat (dirname canonical) of
              None \<Rightarrow> Inl ConfigUnreadable
            | Some pst \<Rightarrow>
              if \<not> is_directory (fs_mode pst) then Inl ConfigUntrusted
              else if fs_uid pst \<noteq> euid then Inl ConfigUntrusted
              else if fs_mode pst AND dir_forbidden \<noteq> 0 then Inl ConfigPermissions
              else Inr canonical)))"

definition config_max_bytes :: nat where "config_max_bytes = 65536"

text \<open>
  Reading the file: at most one byte more than the bound is read. \<open>contents\<close> is \<open>None\<close> where
  opening or reading raises; \<open>parse\<close> is \<open>None\<close> for bytes that are not a JSON object of the
  declared shape.
\<close>

definition load_execution_config ::
  "(string \<Rightarrow> config_code + string) \<Rightarrow> (string \<Rightarrow> nat list option) \<Rightarrow>
     (nat list \<Rightarrow> execution_config option) \<Rightarrow> (execution_config \<Rightarrow> bool) \<Rightarrow> string \<Rightarrow>
     config_code + execution_config" where
  "load_execution_config trusted contents parse valid path =
     bindE (trusted path) (\<lambda>canonical.
       case contents canonical of
         None \<Rightarrow> Inl ConfigUnreadable
       | Some bytes \<Rightarrow>
         let raw = take (config_max_bytes + 1) bytes in
         if length raw > config_max_bytes then Inl ConfigInvalid
         else (case parse raw of
                 None \<Rightarrow> Inl ConfigInvalid
               | Some x \<Rightarrow> if valid x then Inr x else Inl ConfigInvalid))"

section \<open>Lemmas\<close>

lemma unique_strings_ok [simp]: "unique_strings vs = Inr u \<longleftrightarrow> distinct vs \<and> [] \<notin> set vs"
  by (auto simp: unique_strings_def length_remdups_card_conv card_distinct distinct_card)

lemma check_actions_ok: "check_actions vs = Inr u \<Longrightarrow> set vs \<subseteq> set known_actions"
  by (auto simp: check_actions_def Let_def filter_empty_conv)

lemma check_binding_ok:
  assumes "isOk (check_binding realpath isdir b)"
  shows "isabs (wb_root b)" "realpath (wb_root b) = wb_root b" "isdir (wb_root b)"
    "set (wb_actions b) \<subseteq> set known_actions"
  using assms check_actions_ok
  by (auto simp: check_binding_def isOk_iff check_root_def split: if_splits)

lemma split_on_prefix:
  "split_on d (p @ d # q) = split_on d p @ split_on d q"
  by (induction p) (auto split: list.splits)

lemma inside_root:
  assumes "resolve_path realpath base relative = Inr p"
  shows "\<exists>rest. split_on (CHR ''/'') p = split_on (CHR ''/'') base @ rest"
proof -
  have "p = base \<or> starts_with p (base @ ''/'')"
    using assms by (auto simp: resolve_path_def Let_def split: if_splits)
  then show ?thesis
  proof
    assume "starts_with p (base @ ''/'')"
    then obtain q where "p = base @ CHR ''/'' # q"
      using starts_withD [of p "base @ ''/''"] by auto
    with split_on_prefix [of "CHR ''/''" base q] show ?thesis by auto
  qed simp
qed

section \<open>Properties\<close>


definition sample_bound :: workspace_binding where
  "sample_bound = \<lparr>wb_root = ''/work'', wb_actions = [''hermes.yolo''], wb_presets = None,
     wb_models = Some [''fast'']\<rparr>"

definition sample_execution :: execution_config where
  "sample_execution = \<lparr>xc_version = 1, xc_workspaces = [(''ws'', sample_bound)]\<rparr>"

lemma sample_execution_ok: "execution_config_ok (\<lambda>p. p) (\<lambda>p. True) sample_execution"
  by code_simp


text \<open>
  C40. An execution config is only loaded from a file no other user could have written: it is a
  canonical regular file of the Runner's own user, without write or execute permission for its
  group and without any for others, in a directory of the same user that grants its group and
  others nothing.
\<close>

theorem loaded_config_is_trusted:
  assumes "load_execution_config (check_trusted_file abspath realpath dirname lstat euid)
      contents parse valid path = Inr x"
  shows "\<exists>st pst. realpath (abspath path) = abspath path \<and> lstat (abspath path) = Some st \<and>
    lstat (dirname (abspath path)) = Some pst \<and> fs_uid st = euid \<and> fs_uid pst = euid \<and>
    is_regular (fs_mode st) \<and> is_directory (fs_mode pst) \<and>
    (\<forall>n\<in>{0, 1, 2, 3, 4, 6}. \<not> bit (fs_mode st) n) \<and> (\<forall>n<6. \<not> bit (fs_mode pst) n) \<and> valid x"
proof -
  have clear: "\<not> bit m n" if "m AND k = 0" "bit k n" for m k :: "32 word" and n
    using that bit_and_iff [of m k n] by auto
  have forb: "bit file_forbidden n" if "n \<in> {0, 1, 2, 3, 4, 6}" for n
    using that by (auto simp: file_forbidden_def)
  have dir: "bit dir_forbidden n" if "n < 6" for n
  proof -
    have "n \<in> {0, 1, 2, 3, 4, 5}" using that by auto
    then show ?thesis by (auto simp: dir_forbidden_def)
  qed
  show ?thesis
    using assms clear [OF _ forb] clear [OF _ dir]
    by (auto simp: load_execution_config_def check_trusted_file_def Let_def
        split: if_splits option.splits)
qed

theorem loaded_config_is_trusted_witness:
  "\<exists>st pst. Some \<lparr>fs_mode = 0x81A0, fs_uid = 7\<rparr> = Some st \<and>
     Some \<lparr>fs_mode = 0x41C0, fs_uid = 7\<rparr> = Some pst \<and> \<not> bit (fs_mode st) 1 \<and> \<not> bit (fs_mode pst) 1"
proof -
  let ?lstat = "\<lambda>p. if p = ''/c'' then Some \<lparr>fs_mode = 0x81A0, fs_uid = 7\<rparr>
    else Some \<lparr>fs_mode = 0x41C0, fs_uid = 7\<rparr>"
  have "load_execution_config (check_trusted_file (\<lambda>p. p) (\<lambda>p. p) (\<lambda>_. ''/'') ?lstat 7)
      (\<lambda>_. Some [1]) (\<lambda>_. Some sample_execution) (\<lambda>_. True) ''/c'' = Inr sample_execution"
    by (simp add: load_execution_config_def check_trusted_file_def Let_def is_regular_def
        is_directory_def file_type_is_def file_forbidden_def dir_forbidden_def config_max_bytes_def)
  from loaded_config_is_trusted [OF this] show ?thesis by auto
qed

end
