(* ===== verification/Ndjson.thy ===== *)
theory Ndjson
  imports Prelude "HOL-Library.Word"
begin

text \<open>
  The bounded NDJSON codec (\<^verbatim>\<open>packages/transports/src/cli_provider_transports/ndjson.py\<close>). What
  \<^verbatim>\<open>json.dumps\<close> followed by UTF-8 encoding gives, and what decoding followed by \<^verbatim>\<open>json.loads\<close>
  accepts as an object, are the parameters \<open>dumps\<close> and \<open>loads\<close>; \<open>loads\<close> is \<open>None\<close> for every line
  that is not UTF-8, not JSON, nested too deeply or not an object. A stream is the list of the
  chunks its \<^verbatim>\<open>read\<close> calls return; past its end \<^verbatim>\<open>read\<close> returns the empty chunk.
\<close>

type_synonym byte = "8 word"

datatype frame_error = FrameTooLarge | MalformedFrame

definition newline_byte :: byte where
  "newline_byte = 10"

definition default_max_frame_bytes :: nat where
  "default_max_frame_bytes = 2 ^ 20"

definition encode_frame :: "('m \<Rightarrow> byte list) \<Rightarrow> 'm \<Rightarrow> byte list" where
  "encode_frame dumps m = dumps m @ [newline_byte]"

definition decode_frame :: "(byte list \<Rightarrow> 'm option) \<Rightarrow> byte list \<Rightarrow> nat \<Rightarrow> frame_error + 'm" where
  "decode_frame loads line mx =
     (if length line > mx then Inl FrameTooLarge
      else (case loads line of None \<Rightarrow> Inl MalformedFrame | Some m \<Rightarrow> Inr m))"

text \<open>The bytes before the first newline and those after it.\<close>

fun split_line :: "byte list \<Rightarrow> (byte list \<times> byte list) option" where
  "split_line [] = None"
| "split_line (b # bs) =
     (if b = newline_byte then Some ([], bs)
      else map_option (\<lambda>(l, r). (b # l, r)) (split_line bs))"

text \<open>
  \<^verbatim>\<open>FrameReader.read_bytes\<close>: the result, the buffer it leaves and the chunks not yet read. An
  empty chunk is the end of the stream.
\<close>

definition at_end :: "byte list \<Rightarrow> frame_error + byte list option" where
  "at_end buf = (if buf = [] then Inr None else Inl MalformedFrame)"

fun read_bytes ::
  "nat \<Rightarrow> byte list \<Rightarrow> byte list list \<Rightarrow> (frame_error + byte list option) \<times> byte list \<times> byte list list"
  where
  "read_bytes mx buf [] =
     (case split_line buf of
        Some (line, rest) \<Rightarrow>
          (if length line > mx then Inl FrameTooLarge else Inr (Some line), rest, [])
      | None \<Rightarrow> (if length buf > mx then Inl FrameTooLarge else at_end buf, buf, []))"
| "read_bytes mx buf (chunk # src) =
     (case split_line buf of
        Some (line, rest) \<Rightarrow>
          (if length line > mx then Inl FrameTooLarge else Inr (Some line), rest, chunk # src)
      | None \<Rightarrow>
          if length buf > mx then (Inl FrameTooLarge, buf, chunk # src)
          else if chunk = [] then (at_end buf, buf, src)
          else read_bytes mx (buf @ chunk) src)"

definition read_message ::
  "(byte list \<Rightarrow> 'm option) \<Rightarrow> nat \<Rightarrow> byte list \<Rightarrow> byte list list \<Rightarrow>
     (frame_error + 'm option) \<times> byte list \<times> byte list list" where
  "read_message loads mx buf src =
     (case read_bytes mx buf src of
        (Inl e, st) \<Rightarrow> (Inl e, st)
      | (Inr None, st) \<Rightarrow> (Inr None, st)
      | (Inr (Some line), st) \<Rightarrow>
          (case decode_frame loads line mx of Inl e \<Rightarrow> Inl e | Inr m \<Rightarrow> Inr (Some m), st))"

text \<open>A reader's loop: messages until the end of the stream or an error, at most \<open>n\<close> reads.\<close>

fun read_messages ::
  "nat \<Rightarrow> (byte list \<Rightarrow> 'm option) \<Rightarrow> nat \<Rightarrow> byte list \<Rightarrow> byte list list \<Rightarrow>
     'm list \<times> frame_error option" where
  "read_messages 0 loads mx buf src = ([], None)"
| "read_messages (Suc n) loads mx buf src =
     (case read_message loads mx buf src of
        (Inl e, _) \<Rightarrow> ([], Some e)
      | (Inr None, _) \<Rightarrow> ([], None)
      | (Inr (Some m), buf', src') \<Rightarrow>
          (case read_messages n loads mx buf' src' of (ms, e) \<Rightarrow> (m # ms, e)))"

section \<open>Lines\<close>

lemma split_line_Some:
  "split_line bs = Some (l, r) \<Longrightarrow> bs = l @ newline_byte # r \<and> newline_byte \<notin> set l"
  by (induction bs arbitrary: l) (auto split: if_splits)

lemma split_line_None: "split_line bs = None \<longleftrightarrow> newline_byte \<notin> set bs"
  by (induction bs) auto

lemma split_line_append:
  "newline_byte \<notin> set l \<Longrightarrow> split_line (l @ newline_byte # r) = Some (l, r)"
  by (induction l) auto

lemma split_line_prefix: "split_line bs = Some (l, r) \<Longrightarrow> split_line (bs @ cs) = Some (l, r @ cs)"
  using split_line_Some [of bs l r] split_line_append [of l "r @ cs"] by auto

section \<open>Reading does not depend on how the stream is cut\<close>

text \<open>What one read gives, as a function of the bytes of the stream alone.\<close>

definition frame_spec :: "nat \<Rightarrow> byte list \<Rightarrow> frame_error + byte list option" where
  "frame_spec mx bs =
     (case split_line bs of
        Some (line, _) \<Rightarrow> if length line > mx then Inl FrameTooLarge else Inr (Some line)
      | None \<Rightarrow> if length bs > mx then Inl FrameTooLarge else at_end bs)"

lemma frame_spec_long:
  assumes "split_line buf = None" "length buf > mx"
  shows "frame_spec mx (buf @ bs) = Inl FrameTooLarge"
proof (cases "split_line (buf @ bs)")
  case None
  with assms(2) show ?thesis by (simp add: frame_spec_def)
next
  case (Some lr)
  obtain l r where lr: "lr = (l, r)" by force
  have "buf @ bs = l @ newline_byte # r" "newline_byte \<notin> set buf"
    using split_line_Some Some lr split_line_None assms(1) by auto
  then have "length buf \<le> length l"
    by (metis append_eq_append_conv_if in_set_conv_decomp linorder_le_cases nth_mem
        append_take_drop_id nth_append_length le_neq_implies_less nth_append)
  with assms(2) Some lr show ?thesis by (simp add: frame_spec_def)
qed

lemma read_bytes_spec:
  assumes "[] \<notin> set src"
  shows "fst (read_bytes mx buf src) = frame_spec mx (buf @ concat src)"
  using assms
proof (induction mx buf src rule: read_bytes.induct)
  case (1 mx buf)
  then show ?case by (auto simp: frame_spec_def split: option.splits)
next
  case (2 mx buf chunk src)
  show ?case
  proof (cases "split_line buf")
    case None
    have "chunk \<noteq> []" "[] \<notin> set src"
      using 2(2) by auto
    with 2(1) None frame_spec_long [OF None, of mx] show ?thesis by simp
  next
    case (Some lr)
    obtain l r where "lr = (l, r)" by force
    with Some split_line_prefix [of buf l r] show ?thesis by (simp add: frame_spec_def)
  qed
qed

lemma read_bytes_rest:
  "read_bytes mx buf src = (Inr (Some line), buf', src') \<Longrightarrow> [] \<notin> set src \<Longrightarrow>
     buf @ concat src = line @ newline_byte # buf' @ concat src' \<and> [] \<notin> set src' \<and>
     newline_byte \<notin> set line \<and> length line \<le> mx"
proof (induction mx buf src rule: read_bytes.induct)
  case (1 mx buf)
  then show ?case
    using split_line_Some [of buf] by (auto simp: at_end_def split: option.splits if_splits)
next
  case (2 mx buf chunk src)
  show ?case
  proof (cases "split_line buf")
    case None
    with 2 show ?thesis by (simp split: if_splits)
  next
    case (Some lr)
    obtain l r where "lr = (l, r)" by force
    with Some 2(2,3) split_line_Some [of buf l r] show ?thesis
      by (auto split: if_splits)
  qed
qed

text \<open>The buffer holds at most one frame bound and one chunk.\<close>

lemma read_bytes_buffer:
  assumes "read_bytes mx buf src = (res, buf', src')" "length buf \<le> mx + k"
    and "\<And>c. c \<in> set src \<Longrightarrow> length c \<le> k"
  shows "length buf' \<le> mx + k \<and> set src' \<subseteq> set src"
  using assms
proof (induction mx buf src rule: read_bytes.induct)
  case (1 mx buf)
  then show ?case
    using split_line_Some [of buf] by (auto split: option.splits)
next
  case (2 mx buf chunk src)
  show ?case
  proof (cases "split_line buf")
    case None
    have "length chunk \<le> k" "\<And>c. c \<in> set src \<Longrightarrow> length c \<le> k"
      using 2(4) by simp_all
    with 2(1-3) None show ?thesis by (auto split: if_splits)
  next
    case (Some lr)
    obtain l r where lr: "lr = (l, r)" by force
    with Some 2(2,3) split_line_Some [of buf l r] show ?thesis by auto
  qed
qed

section \<open>Codecs\<close>

text \<open>
  What the readers rely on of JSON: it decodes what it encodes, and compact JSON text has no raw
  newline, because \<^verbatim>\<open>json.dumps\<close> escapes control characters.
\<close>

definition json_codec :: "('m \<Rightarrow> byte list) \<Rightarrow> (byte list \<Rightarrow> 'm option) \<Rightarrow> bool" where
  "json_codec dumps loads \<longleftrightarrow>
     (\<forall>m. loads (dumps m) = Some m) \<and> (\<forall>m. newline_byte \<notin> set (dumps m))"

lemma first_line:
  "json_codec dumps loads \<Longrightarrow> split_line (encode_frame dumps m @ bs) = Some (dumps m, bs)"
  using split_line_append [of "dumps m"] by (simp add: encode_frame_def json_codec_def)

lemma read_first:
  assumes codec: "json_codec dumps loads"
    and "length (dumps m) \<le> mx" "[] \<notin> set src" "buf @ concat src = encode_frame dumps m @ bs"
  obtains buf' src' where "read_message loads mx buf src = (Inr (Some m), buf', src')"
    "buf' @ concat src' = bs" "[] \<notin> set src'"
proof -
  obtain res buf' src' where r: "read_bytes mx buf src = (res, buf', src')"
    by (metis prod.collapse)
  then have "res = Inr (Some (dumps m))"
    using read_bytes_spec [OF assms(3), of mx buf] assms(2) first_line [OF codec, of m bs]
    by (simp add: assms(4) frame_spec_def)
  with r have line: "read_bytes mx buf src = (Inr (Some (dumps m)), buf', src')" by simp
  have "read_message loads mx buf src = (Inr (Some m), buf', src')"
    using line assms(1,2) by (simp add: read_message_def decode_frame_def json_codec_def)
  moreover have "buf' @ concat src' = bs" "[] \<notin> set src'"
    using read_bytes_rest [OF line assms(3)] assms(4) by (simp_all add: encode_frame_def)
  ultimately show ?thesis by (rule that)
qed

section \<open>Properties\<close>

text \<open>
  C37. Messages written as frames are read back exactly, however the stream is cut into chunks:
  when every frame fits the bound, the reader's loop returns the messages in order and then the
  clean end of the stream.
\<close>

theorem frames_read_back:
  assumes "json_codec dumps loads" "\<And>m. m \<in> set ms \<Longrightarrow> length (dumps m) \<le> mx"
    and "[] \<notin> set chunks" "concat chunks = concat (map (encode_frame dumps) ms)"
  shows "read_messages (Suc (length ms)) loads mx [] chunks = (ms, None)"
proof -
  have "read_messages (Suc (length ms)) loads mx buf src = (ms, None)"
    if "[] \<notin> set src" "buf @ concat src = concat (map (encode_frame dumps) ms)" for buf src
    using assms(2) that
  proof (induction ms arbitrary: buf src)
    case Nil
    have "fst (read_bytes mx buf src) = Inr None"
      using read_bytes_spec [OF Nil(2), of mx buf] Nil(3) by (simp add: frame_spec_def at_end_def)
    then show ?case
      by (cases "read_bytes mx buf src") (simp add: read_message_def)
  next
    case (Cons m ms)
    obtain buf' src' where "read_message loads mx buf src = (Inr (Some m), buf', src')"
      "buf' @ concat src' = concat (map (encode_frame dumps) ms)" "[] \<notin> set src'"
      by (rule read_first [OF assms(1), of m mx src buf "concat (map (encode_frame dumps) ms)"])
        (use Cons.prems in auto)
    with Cons.IH [of src' buf'] Cons.prems(1) show ?case by simp
  qed
  from this [of chunks "[]"] assms(3,4) show ?thesis by simp
qed

definition bit_dumps :: "bool \<Rightarrow> byte list" where
  "bit_dumps b = (if b then [49] else [48])"

definition bit_loads :: "byte list \<Rightarrow> bool option" where
  "bit_loads bs = (if bs = [49] then Some True else if bs = [48] then Some False else None)"

theorem frames_read_back_witness:
  "read_messages 3 bit_loads 1 [] [[49], [10, 48], [10]] = ([True, False], None)"
proof -
  have "json_codec bit_dumps bit_loads"
    by (simp add: json_codec_def bit_dumps_def bit_loads_def newline_byte_def)
  from frames_read_back [OF this, of "[True, False]" 1 "[[49], [10, 48], [10]]"] show ?thesis
    by (simp add: bit_dumps_def encode_frame_def newline_byte_def numeral_3_eq_3)
qed

text \<open>
  C38. One read of the reader is a function of the bytes alone: for every way to cut the stream
  into chunks, oversized, unterminated and empty streams included, it gives what the definition on
  the whole byte sequence gives, and its buffer never holds more than one frame bound and one
  chunk.
\<close>

theorem read_is_chunking_independent:
  assumes "[] \<notin> set chunks" "\<And>c. c \<in> set chunks \<Longrightarrow> length c \<le> k"
  shows "fst (read_bytes mx [] chunks) =
      (case split_line (concat chunks) of
         Some (line, _) \<Rightarrow> if length line > mx then Inl FrameTooLarge else Inr (Some line)
       | None \<Rightarrow> if length (concat chunks) > mx then Inl FrameTooLarge
                 else if concat chunks = [] then Inr None else Inl MalformedFrame) \<and>
    length (fst (snd (read_bytes mx [] chunks))) \<le> mx + k"
proof
  show "fst (read_bytes mx [] chunks) =
      (case split_line (concat chunks) of
         Some (line, _) \<Rightarrow> if length line > mx then Inl FrameTooLarge else Inr (Some line)
       | None \<Rightarrow> if length (concat chunks) > mx then Inl FrameTooLarge
                 else if concat chunks = [] then Inr None else Inl MalformedFrame)"
    using read_bytes_spec [OF assms(1), of mx "[]", unfolded frame_spec_def at_end_def append_Nil] .
  show "length (fst (snd (read_bytes mx [] chunks))) \<le> mx + k"
    using read_bytes_buffer [of mx "[]" chunks "fst (read_bytes mx [] chunks)"
        "fst (snd (read_bytes mx [] chunks))" "snd (snd (read_bytes mx [] chunks))" k] assms(2)
    by simp
qed

theorem read_is_chunking_independent_witness:
  "fst (read_bytes 1 [] [[49, 50], [10]]) = Inl FrameTooLarge \<and>
   length (fst (snd (read_bytes 1 [] [[49, 50], [10]]))) \<le> 3"
  using read_is_chunking_independent [of "[[49, 50], [10]]" 2 1] by (auto simp: newline_byte_def)

end
