(* ===== verification/RunnerServer.thy ===== *)
theory RunnerServer
  imports Registry ExecConfig Ndjson
begin

text \<open>
  The Runner process (\<^verbatim>\<open>apps/runner/src/cli_provider_runner\<close>: \<^verbatim>\<open>registry.py\<close>, \<^verbatim>\<open>protocol.py\<close>,
  \<^verbatim>\<open>server.py\<close>). As in the controller every coroutine is cut at its awaits. The driver is a
  parameter: the events it yields, how its stream ends, what its cancel call returns and how long
  either takes are arguments of the segments. Frames are appended to \<open>sv_out\<close> in the order they are
  written; message texts of error frames are left out. Two fields serve the properties only:
  \<open>sv_requests\<close> records the run requests that were received, \<open>sv_invoked\<close> those for which
  \<^verbatim>\<open>driver.execute\<close> was called.
\<close>

section \<open>Loading the driver\<close>

record allowlist_entry =
  al_driver_id :: string
  al_distribution :: string
  al_version :: string

text \<open>An installed entry point: its distribution (name, version) if any, and the manifest its
  driver presents (\<open>None\<close> for a missing or invalid one).\<close>

record entry_point =
  ep_name :: string
  ep_dist :: "(string \<times> string) option"
  ep_manifest :: "driver_manifest option"

datatype load_error = NotAllowlisted | DriverVersionWrong | ManifestInvalid | SdkUnsupported

text \<open>\<^verbatim>\<open>name.replace("_", "-").lower()\<close>, for ASCII names.\<close>

definition lower_char :: "char \<Rightarrow> char" where
  "lower_char x = (if 65 \<le> code_of x \<and> code_of x \<le> 90 then char_of (code_of x + 32) else x)"

definition normalize_distribution :: "string \<Rightarrow> string" where
  "normalize_distribution n = map lower_char (map (\<lambda>x. if x = CHR ''_'' then CHR ''-'' else x) n)"

definition validate_manifest :: "driver_manifest option \<Rightarrow> string option \<Rightarrow> load_error + driver_manifest"
  where
  "validate_manifest m driver_id =
     (case m of
        None \<Rightarrow> Inl ManifestInvalid
      | Some x \<Rightarrow>
        if \<not> manifest_valid x then Inl ManifestInvalid
        else if mf_sdk_version x \<noteq> sdk_version then Inl SdkUnsupported
        else if opt_all (\<lambda>d. mf_driver_id x = d) driver_id then Inr x else Inl ManifestInvalid)"

definition load_driver :: "entry_point list \<Rightarrow> allowlist_entry \<Rightarrow> load_error + driver_manifest" where
  "load_driver eps entry =
     (case List.find (\<lambda>e. ep_name e = al_driver_id entry) eps of
        None \<Rightarrow> Inl NotAllowlisted
      | Some e \<Rightarrow>
        (case ep_dist e of
          None \<Rightarrow> Inl NotAllowlisted
        | Some (name, version) \<Rightarrow>
          if normalize_distribution name \<noteq> normalize_distribution (al_distribution entry)
          then Inl NotAllowlisted
          else if version \<noteq> al_version entry then Inl DriverVersionWrong
          else validate_manifest (ep_manifest e) (Some (al_driver_id entry))))"

section \<open>The wire\<close>

datatype rpc_method =
  MManifest | MProbe | MDiscoverModels | MRuntime | MRun | MCancel | MShutdown

fun method_text :: "rpc_method \<Rightarrow> string" where
  "method_text MManifest = ''manifest''"
| "method_text MProbe = ''probe''"
| "method_text MDiscoverModels = ''discover_models''"
| "method_text MRuntime = ''runtime''"
| "method_text MRun = ''run''"
| "method_text MCancel = ''cancel''"
| "method_text MShutdown = ''shutdown''"

datatype error_code_rpc =
    MalformedRequest | FrameTooLargeRpc | UnknownMethod | InvalidParams | DriverUnavailable
  | QueueFullRpc | RunAlreadyActive | RunNotFound | ProtocolErrorRpc | InternalErrorRpc

fun rpc_code_text :: "error_code_rpc \<Rightarrow> string" where
  "rpc_code_text MalformedRequest = ''MALFORMED_REQUEST''"
| "rpc_code_text FrameTooLargeRpc = ''FRAME_TOO_LARGE''"
| "rpc_code_text UnknownMethod = ''UNKNOWN_METHOD''"
| "rpc_code_text InvalidParams = ''INVALID_PARAMS''"
| "rpc_code_text DriverUnavailable = ''DRIVER_UNAVAILABLE''"
| "rpc_code_text QueueFullRpc = ''QUEUE_FULL''"
| "rpc_code_text RunAlreadyActive = ''RUN_ALREADY_ACTIVE''"
| "rpc_code_text RunNotFound = ''RUN_NOT_FOUND''"
| "rpc_code_text ProtocolErrorRpc = ''PROTOCOL_ERROR''"
| "rpc_code_text InternalErrorRpc = ''INTERNAL_ERROR''"

record cancel_reply =
  cx_run_id :: string
  cx_requested :: bool
  cx_requested_at :: nat
  cx_confirmed :: bool
  cx_confirmed_at :: "nat option"
  cx_deadline :: rat
  cx_detail :: string

datatype frame =
    EventF string run_event
  | RunF string run_result
  | CancelF string cancel_reply
  | ManifestF string driver_manifest
  | ProbeF string probe_report
  | ModelsF string "model_descriptor list"
  | RuntimeF string runner_runtime
  | ShutdownF string string
  | ErrorF string error_code_rpc bool

fun frame_rpc :: "frame \<Rightarrow> string" where
  "frame_rpc (EventF q _) = q"
| "frame_rpc (RunF q _) = q"
| "frame_rpc (CancelF q _) = q"
| "frame_rpc (ManifestF q _) = q"
| "frame_rpc (ProbeF q _) = q"
| "frame_rpc (ModelsF q _) = q"
| "frame_rpc (RuntimeF q _) = q"
| "frame_rpc (ShutdownF q _) = q"
| "frame_rpc (ErrorF q _ _) = q"

text \<open>The envelope of a request; \<^verbatim>\<open>v\<close> may be any integer.\<close>

record 'p rpc_request =
  qr_id :: string
  qr_method :: string
  qr_params :: 'p

definition rpc_request_valid :: "'p rpc_request \<Rightarrow> bool" where
  "rpc_request_valid q \<longleftrightarrow> qr_id q \<noteq> [] \<and> qr_method q \<noteq> []"

text \<open>
  One pass of the loop of \<^verbatim>\<open>_handle_connection\<close>, given what \<^verbatim>\<open>read_bytes\<close> returned: an error frame
  (its request id is empty), whether the loop goes on, and the request to dispatch. \<open>envelope\<close> is
  \<open>None\<close> for an object that is not a request envelope.
\<close>

definition connection_turn ::
  "(byte list \<Rightarrow> 'm option) \<Rightarrow> ('m \<Rightarrow> 'p rpc_request option) \<Rightarrow> nat \<Rightarrow> frame_error + byte list option \<Rightarrow>
     error_code_rpc option \<times> bool \<times> 'p rpc_request option" where
  "connection_turn loads envelope mx got =
     (case got of
        Inl FrameTooLarge \<Rightarrow> (Some FrameTooLargeRpc, False, None)
      | Inl MalformedFrame \<Rightarrow> (Some MalformedRequest, False, None)
      | Inr None \<Rightarrow> (None, False, None)
      | Inr (Some line) \<Rightarrow>
        (case decode_frame loads line mx of
          Inl _ \<Rightarrow> (Some MalformedRequest, False, None)
        | Inr m \<Rightarrow>
          (case envelope m of
             None \<Rightarrow> (Some MalformedRequest, True, None)
           | Some q \<Rightarrow> if rpc_request_valid q then (None, True, Some q)
                       else (Some MalformedRequest, True, None))))"

text \<open>\<^verbatim>\<open>RunParams\<close>: as the driver request, except for the types of its last two fields.\<close>

definition run_params_valid :: "run_request \<Rightarrow> bool" where
  "run_params_valid q \<longleftrightarrow>
     request_common_valid q \<and> opt_all effort_full (rq_reasoning_effort q) \<and>
     opt_all alias_ok (rq_resolved_model q)"

section \<open>State\<close>

record server_config =
  sc_instance_id :: string
  sc_manifest :: driver_manifest
  sc_max_queue :: nat
  sc_cancel_deadline :: rat
  sc_max_run_seconds :: rat
  sc_execution :: "execution_config option"

text \<open>
  Where the slot of a run is: its acquiring task not yet run, waiting in the semaphore, or
  granted.
\<close>

datatype grant = NotAsked | InLine | Granted

text \<open>
  The consuming task: created, inside \<^verbatim>\<open>async for\<close> with the terminal event so far, closing the
  driver's iterator (with the violation, if any), returned, failed (with an \<^verbatim>\<open>OSError\<close>, or with
  another exception), or cancelled.
\<close>

datatype consumer =
    Created | Consuming "run_event option" | ClosingIter "string option" "run_event option"
  | Returned run_result | Failure bool | Stopped

datatype main = Queueing grant | AwaitConsumer | AwaitDriverCancel | AwaitStop bool "string option"

record served =
  sr_rpc :: string
  sr_request :: run_request
  sr_cancel_token :: bool
  sr_start_cancelled :: bool
  sr_cancel_before_start :: bool
  sr_queued :: bool
  sr_started :: bool
  sr_deadline_exceeded :: bool
  sr_terminal_kind :: "event_kind option"
  sr_events_seen :: nat
  sr_last_sequence :: nat
  sr_binding :: "workspace_binding option"
  sr_acquired :: bool
  sr_main :: main
  sr_consumer :: consumer

datatype pending_cancel = CancelQueued string | CancelDriver string | CancelFinish string bool "string option"
  \<comment> \<open>the request id of the run; then what the driver's cancel returned\<close>

record server =
  sv_active :: "(string \<times> served) list"
  sv_ended :: "served list"
  sv_slot_taken :: bool
  sv_line :: "string list"
  sv_queue_waiting :: nat
  sv_cancels :: "(string \<times> pending_cancel) list"
  sv_stopping :: bool
  sv_out :: "frame list"
  sv_invoked :: "string list"
  sv_requests :: "(string \<times> run_request) list"

definition initial_server :: server where
  "initial_server = \<lparr>sv_active = [], sv_ended = [], sv_slot_taken = False, sv_line = [],
     sv_queue_waiting = 0, sv_cancels = [], sv_stopping = False, sv_out = [], sv_invoked = [],
     sv_requests = []\<rparr>"

definition run_of :: "server \<Rightarrow> string \<Rightarrow> served option" where
  "run_of s r = map_of (sv_active s) r"

definition upd_run :: "string \<Rightarrow> (served \<Rightarrow> served) \<Rightarrow> server \<Rightarrow> server" where
  "upd_run r f s =
     s\<lparr>sv_active := map (\<lambda>(k, a). (k, if k = r then f a else a)) (sv_active s)\<rparr>"

definition send :: "frame \<Rightarrow> server \<Rightarrow> server" where
  "send f s = s\<lparr>sv_out := sv_out s @ [f]\<rparr>"

text \<open>
  The object of a run request, by the id of the request: a consuming task that was abandoned keeps
  working on it after the run has ended.
\<close>

definition served_of :: "server \<Rightarrow> string \<Rightarrow> served option" where
  "served_of s q = List.find (\<lambda>a. sr_rpc a = q) (map snd (sv_active s) @ sv_ended s)"

definition upd_served :: "string \<Rightarrow> (served \<Rightarrow> served) \<Rightarrow> server \<Rightarrow> server" where
  "upd_served q f s =
     s\<lparr>sv_active := map (\<lambda>(k, a). (k, if sr_rpc a = q then f a else a)) (sv_active s),
       sv_ended := map (\<lambda>a. if sr_rpc a = q then f a else a) (sv_ended s)\<rparr>"

section \<open>The slot\<close>

definition slot_locked :: "server \<Rightarrow> bool" where
  "slot_locked s \<longleftrightarrow> sv_slot_taken s \<or> sv_line s \<noteq> []"

definition grant_run :: "string \<Rightarrow> server \<Rightarrow> server" where
  "grant_run r = upd_run r (\<lambda>a. a\<lparr>sr_main := Queueing Granted\<rparr>)"

text \<open>A release hands the slot to the first run in line.\<close>

definition release_slot :: "server \<Rightarrow> server" where
  "release_slot s =
     (case sv_line s of
        [] \<Rightarrow> s\<lparr>sv_slot_taken := False\<rparr>
      | r # rs \<Rightarrow> grant_run r (s\<lparr>sv_line := rs\<rparr>))"

text \<open>The first step of the acquiring task.\<close>

definition ask_slot :: "string \<Rightarrow> server \<Rightarrow> server" where
  "ask_slot r s =
     (case run_of s r of
        None \<Rightarrow> s
      | Some a \<Rightarrow>
        if sr_main a \<noteq> Queueing NotAsked then s
        else if slot_locked s
        then upd_run r (\<lambda>a. a\<lparr>sr_main := Queueing InLine\<rparr>) (s\<lparr>sv_line := sv_line s @ [r]\<rparr>)
        else grant_run r (s\<lparr>sv_slot_taken := True\<rparr>))"

section \<open>Results\<close>

definition runner_verification :: "verification_status \<Rightarrow> string \<Rightarrow> string \<Rightarrow> verification" where
  "runner_verification st src reason =
     \<lparr>vf_status = st, vf_source = src, vf_reason = Some reason\<rparr>"

definition unknown_result :: "server_config \<Rightarrow> string \<Rightarrow> served \<Rightarrow> run_result" where
  "unknown_result cfg reason a =
     \<lparr>rr_run_id = rq_run_id (sr_request a), rr_status = CUnknown, rr_outcome = OUnknown,
      rr_verification = runner_verification VUnknown ''runner'' reason,
      rr_usage = unknown_usage, rr_terminal_kind = None, rr_terminal_sequence = None,
      rr_events_seen = sr_events_seen a, rr_synthetic = mf_synthetic (sc_manifest cfg),
      rr_detail = Some reason\<rparr>"

definition cancelled_before_start_result :: "server_config \<Rightarrow> served \<Rightarrow> run_result" where
  "cancelled_before_start_result cfg a =
     \<lparr>rr_run_id = rq_run_id (sr_request a), rr_status = CCancelled, rr_outcome = OCancelled,
      rr_verification = runner_verification NotRun ''runner''
        ''cancelled while queued; driver was never started'',
      rr_usage = unknown_usage, rr_terminal_kind = None, rr_terminal_sequence = None,
      rr_events_seen = 0, rr_synthetic = mf_synthetic (sc_manifest cfg),
      rr_detail = Some ''cancelled before driver start''\<rparr>"

definition deadline_cancelled_result :: "server_config \<Rightarrow> string option \<Rightarrow> served \<Rightarrow> run_result" where
  "deadline_cancelled_result cfg detail a =
     \<lparr>rr_run_id = rq_run_id (sr_request a), rr_status = CCancelled, rr_outcome = OCancelled,
      rr_verification = runner_verification NotRun ''runner''
        ''execution deadline exceeded; driver stop confirmed'',
      rr_usage = unknown_usage, rr_terminal_kind = None, rr_terminal_sequence = None,
      rr_events_seen = sr_events_seen a, rr_synthetic = mf_synthetic (sc_manifest cfg),
      rr_detail = Some (case detail of
        None \<Rightarrow> ''execution deadline exceeded''
      | Some d \<Rightarrow> if d = '''' then ''execution deadline exceeded'' else take 200 d)\<rparr>"

text \<open>The result of a driver's terminal event.\<close>

fun terminal_outcome :: "event_payload \<Rightarrow> completion_status \<times> sdk_outcome \<times> usage" where
  "terminal_outcome (PRunCompleted ok u _) =
     (CCompleted, if ok then OSucceeded else OPartial, u)"
| "terminal_outcome (PRunFailed _ _) = (CFailed, OProviderError, unknown_usage)"
| "terminal_outcome _ = (CCancelled, OCancelled, unknown_usage)"

definition terminal_result :: "server_config \<Rightarrow> run_event \<Rightarrow> served \<Rightarrow> run_result" where
  "terminal_result cfg e a =
     (case terminal_outcome (ev_payload e) of
        (st, out, u) \<Rightarrow>
          \<lparr>rr_run_id = rq_run_id (sr_request a), rr_status = st, rr_outcome = out,
           rr_verification = runner_verification NotRun ''driver''
             ''driver reported a terminal event; no independent verification ran'',
           rr_usage = u, rr_terminal_kind = Some (ev_kind e),
           rr_terminal_sequence = Some (ev_sequence e), rr_events_seen = sr_events_seen a,
           rr_synthetic = mf_synthetic (sc_manifest cfg), rr_detail = None\<rparr>)"

section \<open>Workspace binding\<close>

record denial =
  dn_code :: string
  dn_message :: string

definition quoted :: "string \<Rightarrow> string" where
  "quoted s = [CHR 0x27] @ s @ [CHR 0x27]"

definition resolve_binding ::
  "server_config \<Rightarrow> run_request \<Rightarrow> denial + workspace_binding option" where
  "resolve_binding cfg q =
     (case sc_execution cfg of
        None \<Rightarrow>
          if \<not> mf_synthetic (sc_manifest cfg)
          then Inl \<lparr>dn_code = ''execution_config_required'', dn_message =
                 ''this driver produces real effects and the runner was started without '' @
                 ''--execution-config; refusing to run an unbound workspace''\<rparr>
          else Inr None
      | Some x \<Rightarrow>
        (case binding_for x (rq_workspace_id q) of
          None \<Rightarrow> Inl \<lparr>dn_code = ''workspace_not_bound'', dn_message =
            ''workspace '' @ quoted (rq_workspace_id q) @
            '' is not bound in the runner execution config''\<rparr>
        | Some b \<Rightarrow>
          if (case wb_presets b of None \<Rightarrow> False | Some ps \<Rightarrow> rq_preset q \<notin> set ps)
          then Inl \<lparr>dn_code = ''preset_not_allowed'', dn_message =
            ''preset '' @ quoted (rq_preset q) @ '' is not allowed in workspace '' @
            quoted (rq_workspace_id q)\<rparr>
          else (case (wb_models b, rq_model_alias q, rq_resolved_model q) of
            (Some ms, Some m, res) \<Rightarrow>
              if m \<notin> set ms
              then Inl \<lparr>dn_code = ''model_not_allowed'', dn_message =
                ''model '' @ quoted m @ '' is not allowed in workspace '' @
                quoted (rq_workspace_id q)\<rparr>
              else (case res of
                Some t \<Rightarrow>
                  if t \<noteq> m \<and> t \<notin> set ms
                  then Inl \<lparr>dn_code = ''model_not_allowed'', dn_message =
                    ''resolved model '' @ quoted t @ '' is not allowed in workspace '' @
                    quoted (rq_workspace_id q)\<rparr>
                  else Inr (Some b)
              | None \<Rightarrow> Inr (Some b))
          | (Some ms, None, Some t) \<Rightarrow>
              if t \<notin> set ms
              then Inl \<lparr>dn_code = ''model_not_allowed'', dn_message =
                ''resolved model '' @ quoted t @ '' is not allowed in workspace '' @
                quoted (rq_workspace_id q)\<rparr>
              else Inr (Some b)
          | _ \<Rightarrow> Inr (Some b))))"

definition denied_result :: "server_config \<Rightarrow> run_request \<Rightarrow> denial \<Rightarrow> run_result" where
  "denied_result cfg q d =
     \<lparr>rr_run_id = rq_run_id q, rr_status = CFailed, rr_outcome = OProviderError,
      rr_verification = runner_verification NotRun ''runner''
        (''run denied by the operator execution binding before any driver effect: '' @ dn_message d),
      rr_usage = unknown_usage, rr_terminal_kind = Some RunFailed, rr_terminal_sequence = Some 1,
      rr_events_seen = 1, rr_synthetic = mf_synthetic (sc_manifest cfg),
      rr_detail = Some (dn_message d)\<rparr>"

text \<open>\<^verbatim>\<open>_deny_run\<close>: a terminal event of the Runner's own, and the result.\<close>

definition deny_run ::
  "server_config \<Rightarrow> nat \<Rightarrow> string \<Rightarrow> run_request \<Rightarrow> denial \<Rightarrow> server \<Rightarrow> server" where
  "deny_run cfg now rpc q d s =
     send (RunF rpc (denied_result cfg q d))
       (send (EventF rpc \<lparr>ev_run_id = rq_run_id q, ev_sequence = 1, ev_timestamp = now,
                ev_synthetic = mf_synthetic (sc_manifest cfg),
                ev_payload = PRunFailed (dn_code d) (dn_message d)\<rparr>) s)"

section \<open>A run\<close>

definition new_run :: "string \<Rightarrow> run_request \<Rightarrow> workspace_binding option \<Rightarrow> served" where
  "new_run rpc q b =
     \<lparr>sr_rpc = rpc, sr_request = q, sr_cancel_token = False, sr_start_cancelled = False,
      sr_cancel_before_start = False, sr_queued = True, sr_started = False,
      sr_deadline_exceeded = False, sr_terminal_kind = None, sr_events_seen = 0,
      sr_last_sequence = 0, sr_binding = b, sr_acquired = False, sr_main = Queueing NotAsked,
      sr_consumer = Created\<rparr>"

text \<open>
  \<^verbatim>\<open>_handle_run\<close> up to its first await. A request whose parameters do not convert to a driver
  request raises outside every handler: the connection is dropped without an answer.
\<close>

definition handle_run :: "server_config \<Rightarrow> nat \<Rightarrow> string \<Rightarrow> run_request \<Rightarrow> server \<Rightarrow> server" where
  "handle_run cfg now rpc q s0 =
     (let s = s0\<lparr>sv_requests := (rpc, q) # sv_requests s0\<rparr>
      in if \<not> run_params_valid q then send (ErrorF rpc InvalidParams False) s
      else if \<not> normalized_valid q then s
      else (case resolve_binding cfg q of
        Inl d \<Rightarrow> deny_run cfg now rpc q d s
      | Inr b \<Rightarrow>
        if run_of s (rq_run_id q) \<noteq> None then send (ErrorF rpc RunAlreadyActive False) s
        else if slot_locked s \<and> sv_queue_waiting s \<ge> sc_max_queue cfg
        then send (ErrorF rpc QueueFullRpc True) s
        else s\<lparr>sv_active := sv_active s @ [(rq_run_id q, new_run rpc q b)],
               sv_queue_waiting := sv_queue_waiting s + 1\<rparr>))"

text \<open>
  The \<^verbatim>\<open>finally\<close> of \<^verbatim>\<open>_handle_run\<close>. A consuming task that is still running is abandoned; it
  stays with the ended run.
\<close>

definition finish_served :: "string \<Rightarrow> served \<Rightarrow> server \<Rightarrow> server" where
  "finish_served r a s =
     (let s = s\<lparr>sv_active := filter (\<lambda>(k, _). k \<noteq> r) (sv_active s),
               sv_ended := sv_ended s @ [a\<lparr>sr_acquired := False\<rparr>]\<rparr>
      in if sr_acquired a then release_slot s else s)"

text \<open>
  \<^verbatim>\<open>claim_workspace_lock\<close>: the lock is held from here, busy, or its file cannot be opened, an
  \<^verbatim>\<open>OSError\<close> that the handler of \<^verbatim>\<open>_handle_run\<close> passes over without an answer.
\<close>

datatype root_claim = Claimed | ClaimBusy denial | ClaimRaises

text \<open>\<^verbatim>\<open>asyncio.wait\<close> over the slot and the cancel event returns.\<close>

definition leave_queue ::
  "server_config \<Rightarrow> nat \<Rightarrow> root_claim \<Rightarrow> string \<Rightarrow> server \<Rightarrow> server" where
  "leave_queue cfg now claim r s =
     (case run_of s r of
        None \<Rightarrow> s
      | Some a \<Rightarrow>
        (case sr_main a of
          Queueing g \<Rightarrow>
            if g \<noteq> Granted \<and> \<not> sr_start_cancelled a then s
            else
              let a = a\<lparr>sr_acquired := (g = Granted)\<rparr>;
                  s = s\<lparr>sv_queue_waiting := sv_queue_waiting s - 1,
                        sv_line := removeAll r (sv_line s)\<rparr>
              in if sr_cancel_before_start a
                 then finish_served r a
                        (send (RunF (sr_rpc a) (cancelled_before_start_result cfg a)) s)
                 else
                   let a = a\<lparr>sr_queued := False, sr_started := True\<rparr>
                   in (case (sr_binding a, claim) of
                        (Some _, ClaimBusy d) \<Rightarrow>
                          finish_served r a (deny_run cfg now (sr_rpc a) (sr_request a) d s)
                      | (Some _, ClaimRaises) \<Rightarrow> finish_served r a s
                      | _ \<Rightarrow> upd_run r (\<lambda>_. a\<lparr>sr_main := AwaitConsumer\<rparr>) s)
        | _ \<Rightarrow> s))"

definition effective_deadline :: "server_config \<Rightarrow> run_request \<Rightarrow> rat" where
  "effective_deadline cfg q =
     (case rq_deadline q of
        None \<Rightarrow> sc_max_run_seconds cfg
      | Some d \<Rightarrow> min (if d = 0 then sc_max_run_seconds cfg else d) (sc_max_run_seconds cfg))"

text \<open>
  The consuming task begins: \<^verbatim>\<open>driver.execute\<close> is called, and may raise at once (\<open>Some True\<close> an
  \<^verbatim>\<open>OSError\<close>).
\<close>

definition start_consumer :: "bool option \<Rightarrow> string \<Rightarrow> server \<Rightarrow> server" where
  "start_consumer raises q s =
     (case served_of s q of
        None \<Rightarrow> s
      | Some a \<Rightarrow>
        if sr_main a \<in> {AwaitConsumer, AwaitDriverCancel} \<and> sr_consumer a = Created
        then upd_served q (\<lambda>a. a\<lparr>sr_consumer :=
                 (case raises of None \<Rightarrow> Consuming None | Some os \<Rightarrow> Failure os)\<rparr>)
               (s\<lparr>sv_invoked := sr_rpc a # sv_invoked s\<rparr>)
        else s)"

text \<open>One event of the driver; \<open>sent\<close> says whether the write went through.\<close>

definition event_violation :: "served \<Rightarrow> run_event option \<Rightarrow> run_event \<Rightarrow> string option" where
  "event_violation a terminal e =
     (if ev_run_id e \<noteq> rq_run_id (sr_request a) then Some ''event run_id != request run_id''
      else if terminal \<noteq> None then Some ''driver emitted an event after its terminal event''
      else if ev_sequence e \<noteq> sr_last_sequence a + 1 then Some ''non-monotonic event sequence''
      else None)"

definition driver_event :: "bool \<Rightarrow> run_event \<Rightarrow> string \<Rightarrow> server \<Rightarrow> server" where
  "driver_event sent e q s =
     (case served_of s q of
        None \<Rightarrow> s
      | Some a0 \<Rightarrow>
        (case sr_consumer a0 of
          Consuming terminal \<Rightarrow>
            let a = a0\<lparr>sr_events_seen := sr_events_seen a0 + 1\<rparr>
            in (case event_violation a terminal e of
                 Some v \<Rightarrow> upd_served q (\<lambda>_. a\<lparr>sr_consumer := ClosingIter (Some v) terminal\<rparr>) s
               | None \<Rightarrow>
                 let a = a\<lparr>sr_last_sequence := ev_sequence e\<rparr>
                 in if \<not> sent
                    then upd_served q (\<lambda>_. a\<lparr>sr_consumer :=
                           ClosingIter (Some ''client disconnected during stream'') terminal\<rparr>) s
                    else upd_served q (\<lambda>_. a\<lparr>sr_consumer :=
                           Consuming (if is_terminal_kind (ev_kind e) then Some e else terminal)\<rparr>)
                           (send (EventF (sr_rpc a) e) s))
        | _ \<Rightarrow> s))"

text \<open>The driver's iterator is exhausted, or raises (\<open>Some\<close> the violation recorded for it).\<close>

definition driver_over :: "string option \<Rightarrow> string \<Rightarrow> server \<Rightarrow> server" where
  "driver_over v q s =
     (case served_of s q of
        None \<Rightarrow> s
      | Some a \<Rightarrow>
        (case sr_consumer a of
          Consuming terminal \<Rightarrow> upd_served q (\<lambda>a. a\<lparr>sr_consumer := ClosingIter v terminal\<rparr>) s
        | _ \<Rightarrow> s))"

definition close_iterator :: "server_config \<Rightarrow> string \<Rightarrow> server \<Rightarrow> server" where
  "close_iterator cfg q s =
     (case served_of s q of
        None \<Rightarrow> s
      | Some a \<Rightarrow>
        (case sr_consumer a of
          ClosingIter v terminal \<Rightarrow>
            upd_served q (\<lambda>a.
              (case (v, terminal) of
                 (Some reason, _) \<Rightarrow>
                   a\<lparr>sr_terminal_kind := None, sr_consumer := Returned (unknown_result cfg reason a)\<rparr>
               | (None, None) \<Rightarrow>
                   a\<lparr>sr_terminal_kind := None, sr_consumer := Returned
                       (unknown_result cfg ''driver stream ended without a terminal event'' a)\<rparr>
               | (None, Some e) \<Rightarrow>
                   a\<lparr>sr_terminal_kind := Some (ev_kind e),
                     sr_consumer := Returned (terminal_result cfg e a)\<rparr>)) s
        | _ \<Rightarrow> s))"

text \<open>The consuming task takes its cancellation, which the deadline path requested.\<close>

fun stop_asked :: "main \<Rightarrow> bool" where
  "stop_asked (AwaitStop _ _) = True"
| "stop_asked _ = False"

definition consumer_stops :: "string \<Rightarrow> server \<Rightarrow> server" where
  "consumer_stops q s =
     (case served_of s q of
        None \<Rightarrow> s
      | Some a \<Rightarrow>
        if stop_asked (sr_main a) \<and>
           (case sr_consumer a of Created \<Rightarrow> True | Consuming _ \<Rightarrow> True | ClosingIter _ _ \<Rightarrow> True | _ \<Rightarrow> False)
        then upd_served q (\<lambda>a. a\<lparr>sr_consumer := Stopped\<rparr>) s else s)"

fun consumer_done :: "consumer \<Rightarrow> bool" where
  "consumer_done (Returned _) = True"
| "consumer_done (Failure os) = True"
| "consumer_done Stopped = True"
| "consumer_done _ = False"

text \<open>
  An exception that reaches the handlers of \<^verbatim>\<open>_handle_run\<close>: an \<^verbatim>\<open>OSError\<close> is passed over, any other
  is answered as an internal error.
\<close>

definition answer_exception :: "bool \<Rightarrow> string \<Rightarrow> server \<Rightarrow> server" where
  "answer_exception os rpc s = (if os then s else send (ErrorF rpc InternalErrorRpc False) s)"

text \<open>The consuming task ended in time.\<close>

definition consumer_awaited :: "string \<Rightarrow> server \<Rightarrow> server" where
  "consumer_awaited r s =
     (case run_of s r of
        None \<Rightarrow> s
      | Some a \<Rightarrow>
        if sr_main a \<noteq> AwaitConsumer then s
        else (case sr_consumer a of
          Returned res \<Rightarrow> finish_served r a (send (RunF (sr_rpc a) res) s)
        | Failure os \<Rightarrow> finish_served r a (answer_exception os (sr_rpc a) s)
        | _ \<Rightarrow> s))"

definition deadline_fires :: "string \<Rightarrow> server \<Rightarrow> server" where
  "deadline_fires r s =
     (case run_of s r of
        None \<Rightarrow> s
      | Some a \<Rightarrow>
        if sr_main a = AwaitConsumer \<and> \<not> consumer_done (sr_consumer a)
        then upd_run r (\<lambda>a. a\<lparr>sr_deadline_exceeded := True, sr_cancel_token := True,
                              sr_main := AwaitDriverCancel\<rparr>) s
        else s)"

text \<open>
  \<^verbatim>\<open>_bounded_driver_cancel\<close> returns, its own timeout included; any other exception of the
  driver's cancel goes to the handler of \<^verbatim>\<open>_handle_run\<close>.
\<close>

definition driver_cancel_returns :: "bool \<Rightarrow> string option \<Rightarrow> string \<Rightarrow> server \<Rightarrow> server" where
  "driver_cancel_returns confirmed detail r s =
     (case run_of s r of
        None \<Rightarrow> s
      | Some a \<Rightarrow>
        if sr_main a = AwaitDriverCancel
        then upd_run r (\<lambda>a. a\<lparr>sr_main := AwaitStop confirmed detail\<rparr>) s else s)"

definition driver_cancel_raises :: "bool \<Rightarrow> string \<Rightarrow> server \<Rightarrow> server" where
  "driver_cancel_raises os r s =
     (case run_of s r of
        None \<Rightarrow> s
      | Some a \<Rightarrow>
        if sr_main a = AwaitDriverCancel
        then finish_served r a (answer_exception os (sr_rpc a) s) else s)"

definition stop_awaited :: "server_config \<Rightarrow> bool \<Rightarrow> string \<Rightarrow> server \<Rightarrow> server" where
  "stop_awaited cfg timed_out r s =
     (case run_of s r of
        None \<Rightarrow> s
      | Some a \<Rightarrow>
        (case sr_main a of
          AwaitStop confirmed detail \<Rightarrow>
            let unknown = (\<lambda>reason. finish_served r (a\<lparr>sr_terminal_kind := None\<rparr>)
                  (send (RunF (sr_rpc a) (unknown_result cfg reason a)) s))
            in if consumer_done (sr_consumer a) then
                 (if confirmed
                  then finish_served r a
                    (send (RunF (sr_rpc a) (deadline_cancelled_result cfg detail a)) s)
                  else unknown ''execution deadline exceeded; cancellation was not confirmed'')
               else if timed_out then unknown
                 (''execution deadline exceeded; driver did not stop within cancel deadline'')
               else s
        | _ \<Rightarrow> s))"

section \<open>Cancel\<close>

definition cancel_reply_of ::
  "server_config \<Rightarrow> string \<Rightarrow> bool \<Rightarrow> nat \<Rightarrow> nat option \<Rightarrow> string \<Rightarrow> cancel_reply" where
  "cancel_reply_of cfg run requested now confirmed_at detail =
     \<lparr>cx_run_id = run, cx_requested = requested, cx_requested_at = now,
      cx_confirmed = (confirmed_at \<noteq> None), cx_confirmed_at = confirmed_at,
      cx_deadline = sc_cancel_deadline cfg, cx_detail = detail\<rparr>"

definition handle_cancel :: "server_config \<Rightarrow> nat \<Rightarrow> string \<Rightarrow> string \<Rightarrow> server \<Rightarrow> server" where
  "handle_cancel cfg now rpc run s =
     (if \<not> id_full run then send (ErrorF rpc InvalidParams False) s
      else (case run_of s run of
        None \<Rightarrow> send (CancelF rpc
          (cancel_reply_of cfg run False now None ''no active run for this id'')) s
      | Some a \<Rightarrow>
        if sr_queued a \<and> \<not> sr_started a
        then (upd_run run (\<lambda>a. a\<lparr>sr_cancel_before_start := True, sr_start_cancelled := True\<rparr>) s)
               \<lparr>sv_cancels := sv_cancels s @ [(rpc, CancelQueued (sr_rpc a))]\<rparr>
        else (upd_run run (\<lambda>a. a\<lparr>sr_cancel_token := True\<rparr>) s)
               \<lparr>sv_cancels := sv_cancels s @ [(rpc, CancelDriver (sr_rpc a))]\<rparr>))"

definition ended_run :: "server \<Rightarrow> string \<Rightarrow> served option" where
  "ended_run s rpc = List.find (\<lambda>a. sr_rpc a = rpc) (sv_ended s)"

definition cancel_driver_done ::
  "string \<Rightarrow> bool \<Rightarrow> string option \<Rightarrow> server \<Rightarrow> server" where
  "cancel_driver_done rpc confirmed detail s =
     (case map_of (sv_cancels s) rpc of
        Some (CancelDriver run) \<Rightarrow>
          s\<lparr>sv_cancels := map (\<lambda>(k, w). (k, if k = rpc then CancelFinish run confirmed detail else w))
              (sv_cancels s)\<rparr>
      | _ \<Rightarrow> s)"

definition cancel_details :: "string option \<Rightarrow> bool \<Rightarrow> bool \<Rightarrow> string" where
  "cancel_details detail driver_confirmed confirmed =
     (case detail of None \<Rightarrow> '''' | Some d \<Rightarrow> if d = '''' then '''' else d @ ''; '') @
     (if driver_confirmed then '''' else ''driver did not confirm cancellation; '') @
     (if confirmed then ''termination confirmed'' else ''termination not confirmed within deadline'')"

text \<open>The wait for the end of the run is over; \<open>timed_out\<close> says that its deadline passed.\<close>

definition cancel_waited ::
  "server_config \<Rightarrow> nat \<Rightarrow> nat \<Rightarrow> string \<Rightarrow> string \<Rightarrow> bool \<Rightarrow> server \<Rightarrow> server" where
  "cancel_waited cfg asked now rpc run timed_out s0 =
     (let s = s0\<lparr>sv_cancels := filter (\<lambda>(k, _). k \<noteq> rpc) (sv_cancels s0)\<rparr>
      in case map_of (sv_cancels s0) rpc of
           Some (CancelQueued x) \<Rightarrow>
             (case ended_run s x of
                Some a \<Rightarrow>
                  send (CancelF rpc (cancel_reply_of cfg run True asked
                    (if \<not> sr_started a then Some now else None)
                    (if \<not> sr_started a then ''cancelled before driver start; driver never executed''
                     else ''queued cancellation was not confirmed within deadline''))) s
              | None \<Rightarrow>
                if timed_out then send (CancelF rpc (cancel_reply_of cfg run True asked None
                  ''queued cancellation was not confirmed within deadline'')) s else s0)
         | Some (CancelFinish x dconf detail) \<Rightarrow>
             (case ended_run s x of
                Some a \<Rightarrow>
                  (let ok = (sr_terminal_kind a = Some RunCancelled)
                   in send (CancelF rpc (cancel_reply_of cfg run True asked
                        (if ok then Some now else None) (cancel_details detail dconf ok))) s)
              | None \<Rightarrow>
                if timed_out then send (CancelF rpc (cancel_reply_of cfg run True asked None
                  (cancel_details detail dconf False))) s else s0)
         | _ \<Rightarrow> s0)"

section \<open>The other methods\<close>

definition runtime_reply :: "server_config \<Rightarrow> runner_runtime" where
  "runtime_reply cfg = \<lparr>rn_max_parallel_runs = 1, rn_max_queue = sc_max_queue cfg,
     rn_cancel_cleanup_seconds = 2 * sc_cancel_deadline cfg\<rparr>"

definition handle_simple :: "server_config \<Rightarrow> string \<Rightarrow> string \<Rightarrow> server \<Rightarrow> server" where
  "handle_simple cfg rpc m s =
     (if m = method_text MManifest then send (ManifestF rpc (sc_manifest cfg)) s
      else if m = method_text MRuntime then send (RuntimeF rpc (runtime_reply cfg)) s
      else if m = method_text MShutdown
      then (send (ShutdownF rpc (sc_instance_id cfg)) s)\<lparr>sv_stopping := True\<rparr>
      else send (ErrorF rpc UnknownMethod False) s)"

text \<open>What the driver itself answers; an exception of it drops the connection.\<close>

definition handle_probe :: "string \<Rightarrow> probe_report option \<Rightarrow> server \<Rightarrow> server" where
  "handle_probe rpc p s = (case p of None \<Rightarrow> s | Some x \<Rightarrow> send (ProbeF rpc x) s)"

definition handle_discover :: "string \<Rightarrow> model_descriptor list option \<Rightarrow> server \<Rightarrow> server" where
  "handle_discover rpc ms s = (case ms of None \<Rightarrow> s | Some xs \<Rightarrow> send (ModelsF rpc xs) s)"

text \<open>\<^verbatim>\<open>cleanup\<close>, once the server stops: every run is asked to stop.\<close>

definition cleanup :: "server \<Rightarrow> server" where
  "cleanup s = s\<lparr>sv_active := map (\<lambda>(k, a).
     (k, a\<lparr>sr_cancel_token := True, sr_start_cancelled := True\<rparr>)) (sv_active s)\<rparr>"

end
