(* ===== verification/RunnerServerInv.thy ===== *)
theory RunnerServerInv
  imports RunnerServer
begin

text \<open>
  The Runner process as a transition system: \<open>server_step\<close> lets the segments of all requests, of
  the driver and of the shutdown interleave. The invariant \<open>slot_ok\<close> ties the semaphore and the
  queue counter to the runs; \<open>wire_ok\<close> says what has been written for each request.
\<close>

section \<open>Steps\<close>

text \<open>The id of a request is fresh: the client draws it with \<^verbatim>\<open>uuid4\<close>.\<close>

definition all_served :: "server \<Rightarrow> served list" where
  "all_served s = map snd (sv_active s) @ sv_ended s"

definition fresh_rpc :: "string \<Rightarrow> server \<Rightarrow> bool" where
  "fresh_rpc q s \<longleftrightarrow>
     q \<notin> frame_rpc ` set (sv_out s) \<and> q \<notin> sr_rpc ` set (all_served s) \<and>
     q \<notin> fst ` set (sv_cancels s) \<and> q \<notin> set (sv_invoked s) \<and> q \<notin> fst ` set (sv_requests s)"

text \<open>A denial has a code and a message.\<close>

definition denial_ok :: "denial \<Rightarrow> bool" where
  "denial_ok d \<longleftrightarrow> dn_code d \<noteq> '''' \<and> dn_message d \<noteq> ''''"

fun claim_ok :: "root_claim \<Rightarrow> bool" where
  "claim_ok (ClaimBusy d) = denial_ok d"
| "claim_ok _ = True"

inductive server_step :: "server_config \<Rightarrow> server \<Rightarrow> server \<Rightarrow> bool" for cfg where
  run: "fresh_rpc p s \<Longrightarrow> server_step cfg s (handle_run cfg now p q s)"
| simple: "fresh_rpc p s \<Longrightarrow> server_step cfg s (handle_simple cfg p m s)"
| probe: "fresh_rpc p s \<Longrightarrow> server_step cfg s (handle_probe p x s)"
| discover: "fresh_rpc p s \<Longrightarrow> server_step cfg s (handle_discover p ms s)"
| cancel: "fresh_rpc p s \<Longrightarrow> server_step cfg s (handle_cancel cfg now p r s)"
| cancel_driver: "server_step cfg s (cancel_driver_done p b d s)"
| cancel_wait: "server_step cfg s (cancel_waited cfg asked now p r b s)"
| ask: "server_step cfg s (ask_slot r s)"
| leave: "claim_ok claim \<Longrightarrow> server_step cfg s (leave_queue cfg now claim r s)"
| start: "server_step cfg s (start_consumer b q s)"
| event: "event_valid e \<Longrightarrow> server_step cfg s (driver_event b e q s)"
| over: "server_step cfg s (driver_over v q s)"
| close: "server_step cfg s (close_iterator cfg q s)"
| stops: "server_step cfg s (consumer_stops q s)"
| awaited: "server_step cfg s (consumer_awaited r s)"
| deadline: "server_step cfg s (deadline_fires r s)"
| cancel_returns: "server_step cfg s (driver_cancel_returns b d r s)"
| cancel_raises: "server_step cfg s (driver_cancel_raises os r s)"
| stopped: "server_step cfg s (stop_awaited cfg b r s)"
| shutdown: "sv_stopping s \<Longrightarrow> server_step cfg s (cleanup s)"

section \<open>Counting over the active runs\<close>

lemma count_where_map_same:
  "(\<And>x. x \<in> set xs \<Longrightarrow> P (h x) = P x) \<Longrightarrow> count_where P (map h xs) = count_where P xs"
  by (induction xs) auto

definition count_active :: "(served \<Rightarrow> bool) \<Rightarrow> (string \<times> served) list \<Rightarrow> nat" where
  "count_active P xs = count_where (\<lambda>(k, a). P a) xs"

lemma count_active_simps [simp]:
  "count_active P [] = 0"
  "count_active P ((k, a) # xs) = (if P a then 1 else 0) + count_active P xs"
  "count_active P (xs @ ys) = count_active P xs + count_active P ys"
  by (simp_all add: count_active_def)

definition upd_key :: "string \<Rightarrow> (served \<Rightarrow> served) \<Rightarrow> (string \<times> served) list \<Rightarrow> (string \<times> served) list"
  where "upd_key r f xs = map (\<lambda>(k, a). (k, if k = r then f a else a)) xs"

definition del_key :: "string \<Rightarrow> (string \<times> served) list \<Rightarrow> (string \<times> served) list" where
  "del_key r xs = filter (\<lambda>(k, _). k \<noteq> r) xs"

lemma upd_key_fst [simp]: "map fst (upd_key r f xs) = map fst xs"
  by (induction xs) (auto simp: upd_key_def)

lemma upd_key_fst_set [simp]: "fst ` set (upd_key r f xs) = fst ` set xs"
  by (metis list.set_map upd_key_fst)

lemma upd_key_None: "r \<notin> fst ` set xs \<Longrightarrow> upd_key r f xs = xs"
  by (induction xs) (auto simp: upd_key_def)

lemma del_key_None: "r \<notin> fst ` set xs \<Longrightarrow> del_key r xs = xs"
  by (induction xs) (auto simp: del_key_def)

lemma del_key_fst: "fst ` set (del_key r xs) = fst ` set xs - {r}"
  by (auto simp: del_key_def)

lemma set_del_key: "set (del_key r xs) = {p \<in> set xs. fst p \<noteq> r}"
  by (auto simp: del_key_def)

lemma distinct_del_key: "distinct (map fst xs) \<Longrightarrow> distinct (map fst (del_key r xs))"
  by (induction xs) (auto simp: del_key_def)

lemma set_upd_key:
  assumes "distinct (map fst xs)" "map_of xs r = Some a"
  shows "set (upd_key r f xs) = insert (r, f a) {p \<in> set xs. fst p \<noteq> r}"
  using assms
proof (induction xs)
  case (Cons x xs)
  obtain k b where x: "x = (k, b)" by force
  show ?case
  proof (cases "k = r")
    case True
    with Cons.prems x have "r \<notin> fst ` set xs" by simp
    with True Cons.prems x show ?thesis
      using upd_key_None [of r xs f] by (force simp: upd_key_def)
  next
    case False
    with Cons x show ?thesis by (auto simp: upd_key_def)
  qed
qed simp

lemma map_of_upd_key:
  "map_of (upd_key r f xs) k = (if k = r then map_option f (map_of xs r) else map_of xs k)"
  by (induction xs) (auto simp: upd_key_def)

lemma map_of_del_key: "map_of (del_key r xs) k = (if k = r then None else map_of xs k)"
  by (induction xs) (auto simp: del_key_def)

lemma count_upd_key:
  assumes "distinct (map fst xs)" "map_of xs r = Some a"
  shows "count_active P (upd_key r f xs) + (if P a then 1 else 0) =
    count_active P xs + (if P (f a) then 1 else 0)"
  using assms
proof (induction xs)
  case (Cons x xs)
  obtain k b where x: "x = (k, b)" by force
  show ?case
  proof (cases "k = r")
    case True
    with Cons.prems x have "upd_key r f xs = xs" by (simp add: upd_key_None)
    with True Cons.prems x show ?thesis by (auto simp: upd_key_def)
  next
    case False
    with Cons x have "count_active P (upd_key r f xs) + (if P a then 1 else 0) =
        count_active P xs + (if P (f a) then 1 else 0)" by simp
    with False x show ?thesis by (simp add: upd_key_def)
  qed
qed simp

lemma count_del_key:
  assumes "distinct (map fst xs)" "map_of xs r = Some a"
  shows "count_active P (del_key r xs) + (if P a then 1 else 0) = count_active P xs"
  using assms
proof (induction xs)
  case (Cons x xs)
  obtain k b where x: "x = (k, b)" by force
  show ?case
  proof (cases "k = r")
    case True
    with Cons.prems x have "del_key r xs = xs" by (simp add: del_key_None)
    with True Cons.prems x show ?thesis by (auto simp: del_key_def)
  next
    case False
    with Cons x have "count_active P (del_key r xs) + (if P a then 1 else 0) = count_active P xs"
      by simp
    with False x show ?thesis by (simp add: del_key_def)
  qed
qed simp

lemma count_active_le_1D:
  "count_active P xs \<le> 1 \<Longrightarrow> (k, a) \<in> set xs \<Longrightarrow> (k', a') \<in> set xs \<Longrightarrow> P a \<Longrightarrow> P a' \<Longrightarrow>
    k = k' \<and> a = a'"
  unfolding count_active_def using count_where_le_1D [of "\<lambda>(k, a). P a" xs "(k, a)" "(k', a')"]
  by auto

lemma count_active_0_iff: "count_active P xs = 0 \<longleftrightarrow> (\<forall>(k, a)\<in>set xs. \<not> P a)"
  unfolding count_active_def by (simp add: case_prod_beta)

section \<open>The slot and the queue\<close>

fun queueing :: "main \<Rightarrow> bool" where
  "queueing (Queueing _) = True"
| "queueing _ = False"

definition holds_slot :: "served \<Rightarrow> bool" where
  "holds_slot a \<longleftrightarrow> sr_acquired a \<or> sr_main a = Queueing Granted"

definition in_line :: "served \<Rightarrow> bool" where
  "in_line a \<longleftrightarrow> sr_main a = Queueing InLine"

text \<open>One run: what its flags say about where it is.\<close>

definition run_shape :: "server_config \<Rightarrow> string \<Rightarrow> served \<Rightarrow> bool" where
  "run_shape cfg r a \<longleftrightarrow>
     r = rq_run_id (sr_request a) \<and> id_full r \<and>
     resolve_binding cfg (sr_request a) = Inr (sr_binding a) \<and>
     (sr_queued a \<longleftrightarrow> queueing (sr_main a)) \<and> (sr_started a \<longleftrightarrow> \<not> queueing (sr_main a)) \<and>
     (queueing (sr_main a) \<longrightarrow> \<not> sr_acquired a \<and> sr_consumer a = Created)"

definition before_cleanup :: "served \<Rightarrow> bool" where
  "before_cleanup a \<longleftrightarrow>
     (sr_start_cancelled a \<longrightarrow> sr_cancel_before_start a) \<and>
     (sr_started a \<longrightarrow> sr_acquired a)"

text \<open>The invariant, for a given number of runs that hold the slot.\<close>

definition slots :: "server_config \<Rightarrow> nat \<Rightarrow> server \<Rightarrow> bool" where
  "slots cfg n s \<longleftrightarrow>
     distinct (map fst (sv_active s)) \<and>
     (\<forall>(r, a)\<in>set (sv_active s). run_shape cfg r a) \<and>
     count_active holds_slot (sv_active s) = n \<and>
     distinct (sv_line s) \<and>
     set (sv_line s) = {r. \<exists>a. (r, a) \<in> set (sv_active s) \<and> in_line a} \<and>
     (sv_line s \<noteq> [] \<longrightarrow> sv_slot_taken s) \<and>
     sv_queue_waiting s = count_active (\<lambda>a. queueing (sr_main a)) (sv_active s) \<and>
     (\<not> sv_stopping s \<longrightarrow> (\<forall>(r, a)\<in>set (sv_active s). before_cleanup a))"

definition slot_ok :: "server_config \<Rightarrow> server \<Rightarrow> bool" where
  "slot_ok cfg s \<longleftrightarrow> slots cfg (if sv_slot_taken s then 1 else 0) s"

lemma slotsI:
  assumes "distinct (map fst (sv_active s))"
    and "\<And>r a. (r, a) \<in> set (sv_active s) \<Longrightarrow> run_shape cfg r a"
    and "count_active holds_slot (sv_active s) = n"
    and "distinct (sv_line s)"
    and "set (sv_line s) = {r. \<exists>a. (r, a) \<in> set (sv_active s) \<and> in_line a}"
    and "sv_line s \<noteq> [] \<Longrightarrow> sv_slot_taken s"
    and "sv_queue_waiting s = count_active (\<lambda>a. queueing (sr_main a)) (sv_active s)"
    and "\<And>r a. \<not> sv_stopping s \<Longrightarrow> (r, a) \<in> set (sv_active s) \<Longrightarrow> before_cleanup a"
  shows "slots cfg n s"
  using assms unfolding slots_def by blast

lemma slotsD:
  assumes "slots cfg n s"
  shows "distinct (map fst (sv_active s))"
    and "\<And>r a. (r, a) \<in> set (sv_active s) \<Longrightarrow> run_shape cfg r a"
    and "count_active holds_slot (sv_active s) = n"
    and "distinct (sv_line s)"
    and "set (sv_line s) = {r. \<exists>a. (r, a) \<in> set (sv_active s) \<and> in_line a}"
    and "sv_line s \<noteq> [] \<Longrightarrow> sv_slot_taken s"
    and "sv_queue_waiting s = count_active (\<lambda>a. queueing (sr_main a)) (sv_active s)"
    and "\<And>r a. \<not> sv_stopping s \<Longrightarrow> (r, a) \<in> set (sv_active s) \<Longrightarrow> before_cleanup a"
  using assms unfolding slots_def by blast+

lemma slot_ok_initial: "slot_ok cfg initial_server"
  by (simp add: slot_ok_def slots_def initial_server_def)

lemma run_of_set: "run_of s r = Some a \<Longrightarrow> (r, a) \<in> set (sv_active s)"
  by (simp add: run_of_def map_of_SomeD)

lemma in_set_run_of: "slots cfg n s \<Longrightarrow> (r, a) \<in> set (sv_active s) \<Longrightarrow> run_of s r = Some a"
  by (auto simp: run_of_def dest: slotsD(1) intro: map_of_is_SomeI)

lemma upd_run_key: "upd_run r f s = s\<lparr>sv_active := upd_key r f (sv_active s)\<rparr>"
  by (simp add: upd_run_def upd_key_def)

text \<open>Changes that move no run with respect to the slot.\<close>

lemma slots_map:
  assumes ok: "slots cfg n s"
    and t: "sv_active t = map (\<lambda>(k, a). (k, g k a)) (sv_active s)" "sv_line t = sv_line s"
      "sv_slot_taken t = sv_slot_taken s" "sv_queue_waiting t = sv_queue_waiting s"
      "sv_stopping s \<longrightarrow> sv_stopping t"
    and g: "\<And>k a. (k, a) \<in> set (sv_active s) \<Longrightarrow> run_shape cfg k a \<Longrightarrow>
       run_shape cfg k (g k a) \<and> holds_slot (g k a) = holds_slot a \<and> in_line (g k a) = in_line a \<and>
       queueing (sr_main (g k a)) = queueing (sr_main a) \<and>
       (\<not> sv_stopping t \<longrightarrow> before_cleanup a \<longrightarrow> before_cleanup (g k a))"
  shows "slots cfg n t"
proof (rule slotsI)
  note D = slotsD [OF ok]
  have eq: "count_active P (sv_active t) = count_active P (sv_active s)"
    if "\<And>k a. (k, a) \<in> set (sv_active s) \<Longrightarrow> P (g k a) = P a" for P
    unfolding t(1) count_active_def by (rule count_where_map_same) (auto simp: that)
  show "distinct (map fst (sv_active t))"
    using D(1) by (simp add: t(1) comp_def case_prod_beta)
  show "run_shape cfg r a" if "(r, a) \<in> set (sv_active t)" for r a
    using that g D(2) by (auto simp: t(1))
  show "count_active holds_slot (sv_active t) = n"
    using eq [of holds_slot] g D(2,3) by simp
  show "distinct (sv_line t)" "sv_line t \<noteq> [] \<Longrightarrow> sv_slot_taken t"
    using D(4,6) by (simp_all add: t)
  show "set (sv_line t) = {r. \<exists>a. (r, a) \<in> set (sv_active t) \<and> in_line a}"
    using D(2,5) g by (force simp: t)
  show "sv_queue_waiting t = count_active (\<lambda>a. queueing (sr_main a)) (sv_active t)"
    using eq [of "\<lambda>a. queueing (sr_main a)"] g D(2,7) by (simp add: t)
  show "before_cleanup a" if "\<not> sv_stopping t" "(r, a) \<in> set (sv_active t)" for r a
    using that g D(2,8) t(5) by (auto simp: t(1))
qed

lemma slot_ok_map:
  assumes "slot_ok cfg s"
    and "sv_active t = map (\<lambda>(k, a). (k, g k a)) (sv_active s)" "sv_line t = sv_line s"
      "sv_slot_taken t = sv_slot_taken s" "sv_queue_waiting t = sv_queue_waiting s"
      "sv_stopping s \<longrightarrow> sv_stopping t"
    and "\<And>k a. (k, a) \<in> set (sv_active s) \<Longrightarrow> run_shape cfg k a \<Longrightarrow>
       run_shape cfg k (g k a) \<and> holds_slot (g k a) = holds_slot a \<and> in_line (g k a) = in_line a \<and>
       queueing (sr_main (g k a)) = queueing (sr_main a) \<and>
       (\<not> sv_stopping t \<longrightarrow> before_cleanup a \<longrightarrow> before_cleanup (g k a))"
  shows "slot_ok cfg t"
  unfolding slot_ok_def assms(4) by (rule slots_map [OF assms(1) [unfolded slot_ok_def] assms(2-7)])

lemma slot_ok_same:
  assumes "slot_ok cfg s"
    and "sv_active t = sv_active s" "sv_line t = sv_line s" "sv_slot_taken t = sv_slot_taken s"
    and "sv_queue_waiting t = sv_queue_waiting s" "sv_stopping s \<longrightarrow> sv_stopping t"
  shows "slot_ok cfg t"
  by (rule slot_ok_map [OF assms(1), where g = "\<lambda>k a. a"]) (use assms in auto)

lemma slot_ok_upd_run:
  assumes "slot_ok cfg s" "run_of s r = Some a"
    and "run_shape cfg r a \<Longrightarrow>
       run_shape cfg r (f a) \<and> holds_slot (f a) = holds_slot a \<and> in_line (f a) = in_line a \<and>
       queueing (sr_main (f a)) = queueing (sr_main a) \<and>
       (\<not> sv_stopping s \<longrightarrow> before_cleanup a \<longrightarrow> before_cleanup (f a))"
  shows "slot_ok cfg (upd_run r f s)"
proof (rule slot_ok_map [OF assms(1), where g = "\<lambda>k b. if k = r then f b else b"])
  fix k b assume b: "(k, b) \<in> set (sv_active s)" "run_shape cfg k b"
  show "run_shape cfg k (if k = r then f b else b) \<and>
      holds_slot (if k = r then f b else b) = holds_slot b \<and>
      in_line (if k = r then f b else b) = in_line b \<and>
      queueing (sr_main (if k = r then f b else b)) = queueing (sr_main b) \<and>
      (\<not> sv_stopping (upd_run r f s) \<longrightarrow> before_cleanup b \<longrightarrow>
        before_cleanup (if k = r then f b else b))"
  proof (cases "k = r")
    case True
    with b assms(1,2) have "b = a"
      unfolding slot_ok_def using in_set_run_of by fastforce
    with True b assms(3) show ?thesis by (simp add: upd_run_def)
  qed (use b in simp)
qed (simp_all add: upd_run_def)

section \<open>Granting and releasing\<close>

lemma slots_grant:
  assumes ok: "slots cfg 0 s" and a: "run_of s r = Some a" "queueing (sr_main a)"
  shows "slots cfg 1 (grant_run r (s\<lparr>sv_slot_taken := True, sv_line := removeAll r (sv_line s)\<rparr>))"
    (is "slots cfg 1 ?t")
proof (rule slotsI)
  note D = slotsD [OF ok]
  have act: "sv_active ?t = upd_key r (\<lambda>a. a\<lparr>sr_main := Queueing Granted\<rparr>) (sv_active s)"
    by (simp add: grant_run_def upd_run_key)
  have of: "map_of (sv_active s) r = Some a"
    using a by (simp add: run_of_def)
  have set: "set (sv_active ?t) =
      insert (r, a\<lparr>sr_main := Queueing Granted\<rparr>) {p \<in> set (sv_active s). fst p \<noteq> r}"
    unfolding act by (rule set_upd_key [OF D(1) of])
  have st: "sv_stopping ?t = sv_stopping s"
    by (simp add: grant_run_def upd_run_def)
  have mem: "(r, a) \<in> set (sv_active s)"
    using a(1) by (rule run_of_set)
  have none: "\<not> holds_slot a"
    using D(3) mem by (auto simp: count_active_0_iff)
  show "distinct (map fst (sv_active ?t))"
    using D(1) by (simp add: act)
  show "run_shape cfg k b" if "(k, b) \<in> set (sv_active ?t)" for k b
  proof (cases "k = r")
    case True
    with that have "b = a\<lparr>sr_main := Queueing Granted\<rparr>" by (auto simp: set)
    with True D(2) [OF mem] a(2) show ?thesis by (auto simp: run_shape_def)
  next
    case False
    with that have "(k, b) \<in> set (sv_active s)" by (simp add: set)
    then show ?thesis by (rule D(2))
  qed
  show "count_active holds_slot (sv_active ?t) = 1"
    using count_upd_key [OF D(1) of, of holds_slot "\<lambda>a. a\<lparr>sr_main := Queueing Granted\<rparr>"] none D(3)
    by (simp add: act holds_slot_def)
  show "distinct (sv_line ?t)" "sv_slot_taken ?t"
    using D(4) by (simp_all add: grant_run_def upd_run_def distinct_removeAll)
  have line: "set (sv_line ?t) = set (sv_line s) - {r}"
    by (simp add: grant_run_def upd_run_def)
  show "set (sv_line ?t) = {k. \<exists>b. (k, b) \<in> set (sv_active ?t) \<and> in_line b}"
    unfolding set line D(5) by (auto simp: in_line_def)
  show "sv_queue_waiting ?t = count_active (\<lambda>a. queueing (sr_main a)) (sv_active ?t)"
    using count_upd_key [OF D(1) of, of "\<lambda>a. queueing (sr_main a)"
        "\<lambda>a. a\<lparr>sr_main := Queueing Granted\<rparr>"] a(2) D(7)
    by (simp add: act) (simp add: grant_run_def upd_run_def)
  show "before_cleanup b" if "\<not> sv_stopping ?t" "(k, b) \<in> set (sv_active ?t)" for k b
  proof (cases "k = r")
    case True
    with that have "b = a\<lparr>sr_main := Queueing Granted\<rparr>" "\<not> sv_stopping s"
      by (auto simp: set st)
    with D(8) [OF _ mem] show ?thesis by (simp add: before_cleanup_def)
  next
    case False
    with that D(8) [of k b] show ?thesis by (simp add: set st)
  qed
qed

lemma release_slot_ok:
  assumes ok: "slots cfg 0 s" and "sv_slot_taken s"
  shows "slot_ok cfg (release_slot s)"
proof (cases "sv_line s")
  case Nil
  then have "release_slot s = s\<lparr>sv_slot_taken := False\<rparr>"
    by (simp add: release_slot_def)
  moreover have "slots cfg 0 (s\<lparr>sv_slot_taken := False\<rparr>)"
    by (rule slotsI) (use slotsD [OF ok] Nil in auto)
  ultimately show ?thesis by (simp add: slot_ok_def)
next
  case (Cons r rs)
  note D = slotsD [OF ok]
  obtain a where a: "(r, a) \<in> set (sv_active s)" "in_line a"
    using D(5) Cons by auto
  then have of: "run_of s r = Some a" "queueing (sr_main a)"
    using in_set_run_of [OF ok] by (auto simp: in_line_def)
  have "removeAll r (sv_line s) = rs"
    using D(4) Cons by simp
  then have eq: "release_slot s =
      grant_run r (s\<lparr>sv_slot_taken := True, sv_line := removeAll r (sv_line s)\<rparr>)"
    using assms(2) Cons by (cases s) (simp add: release_slot_def)
  have "sv_slot_taken (release_slot s)"
    unfolding eq by (simp add: grant_run_def upd_run_def)
  with slots_grant [OF ok of] show ?thesis
    by (simp add: slot_ok_def eq)
qed

text \<open>A run ends, out of the queue or later; \<open>t\<close> is the state in which it does.\<close>

lemma finish_slot_ok:
  assumes ok: "slot_ok cfg s" and a: "run_of s r = Some a"
    and t: "sv_active t = sv_active s" "sv_slot_taken t = sv_slot_taken s"
      "sv_line t = removeAll r (sv_line s)" "sv_stopping t = sv_stopping s"
      "sv_queue_waiting t = sv_queue_waiting s - (if queueing (sr_main a) then 1 else 0)"
    and b: "sr_acquired b = holds_slot a"
  shows "slot_ok cfg (finish_served r b t)"
proof -
  define u where "u = t\<lparr>sv_active := del_key r (sv_active s), sv_ended := sv_ended t @ [b\<lparr>sr_acquired := False\<rparr>]\<rparr>"
  have fin: "finish_served r b t = (if sr_acquired b then release_slot u else u)"
    by (simp add: finish_served_def u_def del_key_def t(1) Let_def)
  note S = ok [unfolded slot_ok_def]
  note D = slotsD [OF S]
  have of: "map_of (sv_active s) r = Some a"
    using a by (simp add: run_of_def)
  note cd = count_del_key [OF D(1) of]
  have u: "slots cfg (count_active holds_slot (sv_active u)) u"
  proof (rule slotsI)
    show "distinct (map fst (sv_active u))"
      using distinct_del_key [OF D(1)] by (simp add: u_def)
    show "run_shape cfg k c" if "(k, c) \<in> set (sv_active u)" for k c
      using that D(2) by (simp add: u_def set_del_key)
    show "distinct (sv_line u)" "sv_line u \<noteq> [] \<Longrightarrow> sv_slot_taken u"
      using D(4) D(6) by (cases "sv_line s"; simp add: u_def t distinct_removeAll)+
    show "set (sv_line u) = {k. \<exists>c. (k, c) \<in> set (sv_active u) \<and> in_line c}"
      using D(5) by (auto simp: u_def t set_del_key)
    show "sv_queue_waiting u = count_active (\<lambda>a. queueing (sr_main a)) (sv_active u)"
      using cd [of "\<lambda>a. queueing (sr_main a)"] D(7) by (simp add: u_def t split: if_splits)
    show "before_cleanup c" if "\<not> sv_stopping u" "(k, c) \<in> set (sv_active u)" for k c
      using that D(8) [of k c] by (simp add: u_def t set_del_key)
  qed (rule refl)
  have n: "count_active holds_slot (sv_active u) + (if holds_slot a then 1 else 0) =
      (if sv_slot_taken s then 1 else 0)"
    using cd [of holds_slot] D(3) by (simp add: u_def)
  show ?thesis
  proof (cases "holds_slot a")
    case True
    with n have "count_active holds_slot (sv_active u) = 0" "sv_slot_taken u"
      by (simp_all add: u_def t split: if_splits)
    with u True release_slot_ok [of cfg u] show ?thesis by (simp add: fin b)
  next
    case False
    with n have "count_active holds_slot (sv_active u) = (if sv_slot_taken u then 1 else 0)"
      by (simp add: u_def t)
    with u False show ?thesis by (simp add: fin b slot_ok_def)
  qed
qed

section \<open>Every step keeps the slot\<close>

lemma slot_ok_send [simp]: "slot_ok cfg (send f s) = slot_ok cfg s"
  by (simp add: slot_ok_def slots_def send_def)

lemma send_fields [simp]:
  "sv_active (send f s) = sv_active s" "sv_ended (send f s) = sv_ended s"
  "sv_line (send f s) = sv_line s" "sv_slot_taken (send f s) = sv_slot_taken s"
  "sv_queue_waiting (send f s) = sv_queue_waiting s" "sv_stopping (send f s) = sv_stopping s"
  "sv_cancels (send f s) = sv_cancels s" "sv_requests (send f s) = sv_requests s" "sv_invoked (send f s) = sv_invoked s"
  "sv_out (send f s) = sv_out s @ [f]" "run_of (send f s) r = run_of s r"
  by (simp_all add: send_def run_of_def)

lemma slot_ok_run_of: "slot_ok cfg s \<Longrightarrow> (r, a) \<in> set (sv_active s) \<Longrightarrow> run_of s r = Some a"
  unfolding slot_ok_def by (rule in_set_run_of)

lemma slot_ok_shape: "slot_ok cfg s \<Longrightarrow> run_of s r = Some a \<Longrightarrow> run_shape cfg r a"
  unfolding slot_ok_def by (blast dest: run_of_set slotsD(2))

lemma handle_run_slot:
  assumes ok: "slot_ok cfg s"
  shows "slot_ok cfg (handle_run cfg now p q s)"
proof -
  define s1 where "s1 = s\<lparr>sv_requests := (p, q) # sv_requests s\<rparr>"
  have ok1: "slot_ok cfg s1"
    by (rule slot_ok_same [OF ok]) (simp_all add: s1_def)
  have eq: "handle_run cfg now p q s =
     (if \<not> run_params_valid q then send (ErrorF p InvalidParams False) s1
      else if \<not> normalized_valid q then s1
      else (case resolve_binding cfg q of
        Inl d \<Rightarrow> deny_run cfg now p q d s1
      | Inr b \<Rightarrow>
        if run_of s1 (rq_run_id q) \<noteq> None then send (ErrorF p RunAlreadyActive False) s1
        else if slot_locked s1 \<and> sv_queue_waiting s1 \<ge> sc_max_queue cfg
        then send (ErrorF p QueueFullRpc True) s1
        else s1\<lparr>sv_active := sv_active s1 @ [(rq_run_id q, new_run p q b)],
               sv_queue_waiting := sv_queue_waiting s1 + 1\<rparr>))"
    unfolding handle_run_def s1_def Let_def ..
  note D = slotsD [OF ok1 [unfolded slot_ok_def]]
  have adm: "slot_ok cfg (s1\<lparr>sv_active := sv_active s1 @ [(rq_run_id q, new_run p q b)],
               sv_queue_waiting := sv_queue_waiting s1 + 1\<rparr>)" (is "slot_ok cfg ?t")
    if "normalized_valid q" "resolve_binding cfg q = Inr b" "run_of s1 (rq_run_id q) = None" for b
  proof -
    have new: "run_shape cfg (rq_run_id q) (new_run p q b)" "\<not> holds_slot (new_run p q b)"
      "\<not> in_line (new_run p q b)" "queueing (sr_main (new_run p q b))" "before_cleanup (new_run p q b)"
      using that by (auto simp: new_run_def run_shape_def holds_slot_def in_line_def
          before_cleanup_def normalized_valid_def request_common_valid_def)
    have fresh: "rq_run_id q \<notin> fst ` set (sv_active s1)"
      using that by (simp add: run_of_def map_of_eq_None_iff)
    have "slots cfg (if sv_slot_taken s1 then 1 else 0) ?t"
    proof (rule slotsI)
      show "distinct (map fst (sv_active ?t))"
        using D(1) fresh by simp
      show "run_shape cfg r a" if "(r, a) \<in> set (sv_active ?t)" for r a
        using that D(2) [of r a] new(1) by auto
      show "count_active holds_slot (sv_active ?t) = (if sv_slot_taken s1 then 1 else 0)"
        using D(3) new(2) by simp
      show "set (sv_line ?t) = {r. \<exists>a. (r, a) \<in> set (sv_active ?t) \<and> in_line a}"
        using D(5) new(3) by auto
      show "sv_queue_waiting ?t = count_active (\<lambda>a. queueing (sr_main a)) (sv_active ?t)"
        using D(7) new(4) by simp
      show "before_cleanup a" if "\<not> sv_stopping ?t" "(r, a) \<in> set (sv_active ?t)" for r a
        using that D(8) [of r a] new(5) by auto
    qed (use D(4,6) in simp_all)
    then show ?thesis by (simp add: slot_ok_def)
  qed
  show ?thesis
    using ok1 adm by (auto simp: eq deny_run_def split: sum.splits)
qed

lemma join_line_ok:
  assumes ok: "slot_ok cfg s" and a: "run_of s r = Some a" "sr_main a = Queueing NotAsked"
    and taken: "sv_slot_taken s"
  shows "slot_ok cfg (upd_run r (\<lambda>a. a\<lparr>sr_main := Queueing InLine\<rparr>) (s\<lparr>sv_line := sv_line s @ [r]\<rparr>))"
    (is "slot_ok cfg ?t")
proof -
  note D = slotsD [OF ok [unfolded slot_ok_def]]
  have mem: "(r, a) \<in> set (sv_active s)" and of: "map_of (sv_active s) r = Some a"
    using a(1) run_of_set by (auto simp: run_of_def)
  have uniq: "b = a" if "(r, b) \<in> set (sv_active s)" for b
    using slot_ok_run_of [OF ok that] a(1) by simp
  let ?f = "\<lambda>a. a\<lparr>sr_main := Queueing InLine\<rparr>"
  have act: "sv_active ?t = upd_key r ?f (sv_active s)"
    by (simp add: upd_run_key)
  have rest: "sv_line ?t = sv_line s @ [r]" "sv_slot_taken ?t" "sv_stopping ?t = sv_stopping s"
    "sv_queue_waiting ?t = sv_queue_waiting s"
    using taken by (simp_all add: upd_run_def)
  have set: "set (sv_active ?t) = insert (r, ?f a) {p \<in> set (sv_active s). fst p \<noteq> r}"
    unfolding act by (rule set_upd_key [OF D(1) of])
  have "slots cfg 1 ?t"
  proof (rule slotsI)
    show "distinct (map fst (sv_active ?t))" using D(1) by (simp add: act)
    show "run_shape cfg k b" if "(k, b) \<in> set (sv_active ?t)" for k b
      using that D(2) [of k b] D(2) [OF mem] a(2) by (auto simp: set run_shape_def)
    show "count_active holds_slot (sv_active ?t) = 1"
      using count_upd_key [OF D(1) of, of holds_slot ?f] D(3) a(2) taken
      by (simp add: act holds_slot_def split: if_splits)
    show "distinct (sv_line ?t)"
      using D(4,5) uniq a(2) by (auto simp: rest in_line_def)
    have "\<not> in_line b" if "(r, b) \<in> set (sv_active s)" for b
      using uniq [OF that] a(2) by (simp add: in_line_def)
    then show "set (sv_line ?t) = {k. \<exists>b. (k, b) \<in> set (sv_active ?t) \<and> in_line b}"
      unfolding set rest D(5) set_append by (auto simp: in_line_def)
    show "sv_queue_waiting ?t = count_active (\<lambda>a. queueing (sr_main a)) (sv_active ?t)"
      using count_upd_key [OF D(1) of, of "\<lambda>a. queueing (sr_main a)" ?f] D(7) a(2)
      by (simp add: act) (simp add: upd_run_def)
    show "before_cleanup b" if "\<not> sv_stopping ?t" "(k, b) \<in> set (sv_active ?t)" for k b
      using that D(8) [of k b] D(8) [OF _ mem] by (auto simp: set rest before_cleanup_def)
  qed (simp add: rest)
  with rest(2) show ?thesis by (simp add: slot_ok_def)
qed

lemma ask_slot_ok:
  assumes ok: "slot_ok cfg s"
  shows "slot_ok cfg (ask_slot r s)"
proof (cases "\<exists>a. run_of s r = Some a \<and> sr_main a = Queueing NotAsked")
  case False
  with ok show ?thesis by (auto simp: ask_slot_def split: option.splits)
next
  case True
  then obtain a where a: "run_of s r = Some a" "sr_main a = Queueing NotAsked" by blast
  note S = ok [unfolded slot_ok_def]
  show ?thesis
  proof (cases "slot_locked s")
    case False
    then have free: "\<not> sv_slot_taken s" "sv_line s = []"
      by (auto simp: slot_locked_def)
    let ?t = "grant_run r (s\<lparr>sv_slot_taken := True\<rparr>)"
    have eq: "s\<lparr>sv_slot_taken := True, sv_line := removeAll r (sv_line s)\<rparr> = s\<lparr>sv_slot_taken := True\<rparr>"
      using free by (cases s) simp
    have "slots cfg 1 ?t"
      using slots_grant [of cfg s r a] S a free unfolding eq by simp
    moreover have "sv_slot_taken ?t" by (simp add: grant_run_def upd_run_def)
    ultimately have "slot_ok cfg ?t" by (simp add: slot_ok_def)
    with a False show ?thesis by (simp add: ask_slot_def)
  next
    case True
    then have "sv_slot_taken s"
      using slotsD(6) [OF S] by (auto simp: slot_locked_def)
    from join_line_ok [OF ok a this] a True show ?thesis by (simp add: ask_slot_def)
  qed
qed

text \<open>Out of the queue: the run starts, or ends.\<close>

definition leaves :: "grant \<Rightarrow> served \<Rightarrow> served" where
  "leaves g a = a\<lparr>sr_acquired := (g = Granted), sr_queued := False, sr_started := True,
     sr_main := AwaitConsumer\<rparr>"

lemma start_ok:
  assumes ok: "slot_ok cfg s" and a: "run_of s r = Some a" "sr_main a = Queueing g"
    and go: "g = Granted \<or> sr_start_cancelled a" "\<not> sr_cancel_before_start a"
  shows "slot_ok cfg (upd_run r (\<lambda>_. leaves g a)
    (s\<lparr>sv_queue_waiting := sv_queue_waiting s - Suc 0, sv_line := removeAll r (sv_line s)\<rparr>))"
    (is "slot_ok cfg ?t")
proof -
  note D = slotsD [OF ok [unfolded slot_ok_def]]
  have mem: "(r, a) \<in> set (sv_active s)" and of: "map_of (sv_active s) r = Some a"
    using a(1) run_of_set by (auto simp: run_of_def)
  let ?f = "\<lambda>_::served. leaves g a"
  have act: "sv_active ?t = upd_key r ?f (sv_active s)"
    by (simp add: upd_run_key)
  have rest: "sv_line ?t = removeAll r (sv_line s)" "sv_slot_taken ?t = sv_slot_taken s"
    "sv_stopping ?t = sv_stopping s" "sv_queue_waiting ?t = sv_queue_waiting s - Suc 0"
    by (simp_all add: upd_run_def)
  have set: "set (sv_active ?t) = insert (r, leaves g a) {p \<in> set (sv_active s). fst p \<noteq> r}"
    unfolding act by (rule set_upd_key [OF D(1) of])
  have shape: "run_shape cfg r a"
    using ok a(1) by (rule slot_ok_shape)
  have new: "run_shape cfg r (leaves g a)" "holds_slot (leaves g a) = holds_slot a"
    "\<not> in_line (leaves g a)" "\<not> queueing (sr_main (leaves g a))"
    using shape a(2) by (auto simp: leaves_def run_shape_def holds_slot_def in_line_def)
  have clean: "before_cleanup (leaves g a)" if "\<not> sv_stopping s"
    using D(8) [OF that mem] go by (auto simp: before_cleanup_def leaves_def)
  have "slots cfg (if sv_slot_taken s then 1 else 0) ?t"
  proof (rule slotsI)
    show "distinct (map fst (sv_active ?t))" unfolding act using D(1) by simp
    show "run_shape cfg k b" if "(k, b) \<in> set (sv_active ?t)" for k b
      using that D(2) [of k b] new(1) by (auto simp: set)
    show "count_active holds_slot (sv_active ?t) = (if sv_slot_taken s then 1 else 0)"
      using count_upd_key [OF D(1) of, of holds_slot ?f] D(3) new(2) by (simp add: act)
    show "distinct (sv_line ?t)"
      unfolding rest using D(4) by (rule distinct_removeAll)
    show "sv_slot_taken ?t" if "sv_line ?t \<noteq> []"
    proof -
      from that have "sv_line s \<noteq> []" unfolding rest by auto
      then show ?thesis unfolding rest by (rule D(6))
    qed
    show "set (sv_line ?t) = {k. \<exists>b. (k, b) \<in> set (sv_active ?t) \<and> in_line b}"
      using D(5) new(3) by (auto simp: rest set)
    show "sv_queue_waiting ?t = count_active (\<lambda>a. queueing (sr_main a)) (sv_active ?t)"
      using count_upd_key [OF D(1) of, of "\<lambda>a. queueing (sr_main a)" ?f] D(7) a(2) new(4)
      unfolding act rest by simp
    show "before_cleanup b" if "\<not> sv_stopping ?t" "(k, b) \<in> set (sv_active ?t)" for k b
      using that D(8) [of k b] clean unfolding set rest by auto
  qed
  with rest(2) show ?thesis by (simp add: slot_ok_def)
qed

lemma leave_queue_ok:
  assumes ok: "slot_ok cfg s"
  shows "slot_ok cfg (leave_queue cfg now claim r s)"
proof (cases "\<exists>a g. run_of s r = Some a \<and> sr_main a = Queueing g \<and> (g = Granted \<or> sr_start_cancelled a)")
  case False
  with ok show ?thesis by (auto simp: leave_queue_def split: option.splits main.splits)
next
  case True
  then obtain a g where a: "run_of s r = Some a" "sr_main a = Queueing g"
    and go: "g = Granted \<or> sr_start_cancelled a" by blast
  have holds: "(g = Granted) = holds_slot a"
    using slot_ok_shape [OF ok a(1)] a(2) by (auto simp: run_shape_def holds_slot_def)
  let ?s = "s\<lparr>sv_queue_waiting := sv_queue_waiting s - 1, sv_line := removeAll r (sv_line s)\<rparr>"
  have fin: "slot_ok cfg (finish_served r b t)"
    if "sv_active t = sv_active s" "sv_slot_taken t = sv_slot_taken s" "sv_line t = removeAll r (sv_line s)"
      "sv_stopping t = sv_stopping s" "sv_queue_waiting t = sv_queue_waiting s - 1"
      "sr_acquired b = (g = Granted)" for b t
    by (rule finish_slot_ok [OF ok a(1)]) (use that holds a(2) in simp_all)
  show ?thesis
  proof (cases "sr_cancel_before_start a")
    case True
    with a go show ?thesis by (auto simp: leave_queue_def Let_def intro!: fin)
  next
    case False
    show ?thesis
    proof (cases "\<exists>x. sr_binding a = Some x \<and> claim \<noteq> Claimed")
      case True
      with a go False show ?thesis
        by (cases claim) (auto simp: leave_queue_def Let_def deny_run_def intro!: fin)
    next
      case nb: False
      have "leave_queue cfg now claim r s = upd_run r (\<lambda>_. leaves g a) ?s"
        using a go False nb by (auto simp: leave_queue_def Let_def leaves_def split: option.splits root_claim.splits)
      with start_ok [OF ok a go False] show ?thesis by simp
    qed
  qed
qed

text \<open>The consuming task, and what comes after the queue.\<close>

definition same_slot :: "served \<Rightarrow> served \<Rightarrow> bool" where
  "same_slot a b \<longleftrightarrow>
     sr_rpc b = sr_rpc a \<and> sr_request b = sr_request a \<and> sr_binding b = sr_binding a \<and>
     sr_main b = sr_main a \<and> sr_queued b = sr_queued a \<and> sr_started b = sr_started a \<and>
     sr_acquired b = sr_acquired a \<and> sr_start_cancelled b = sr_start_cancelled a \<and>
     sr_cancel_before_start b = sr_cancel_before_start a \<and>
     (queueing (sr_main a) \<longrightarrow> sr_consumer b = sr_consumer a)"

lemma same_slot_refl [simp]: "same_slot a a"
  by (simp add: same_slot_def)

lemma same_slot_keeps:
  "same_slot a b \<Longrightarrow> run_shape cfg k a \<Longrightarrow>
     run_shape cfg k b \<and> holds_slot b = holds_slot a \<and> in_line b = in_line a \<and>
     queueing (sr_main b) = queueing (sr_main a) \<and> (S \<longrightarrow> before_cleanup a \<longrightarrow> before_cleanup b)"
  by (auto simp: same_slot_def run_shape_def holds_slot_def in_line_def before_cleanup_def)

lemma slot_ok_upd_served:
  assumes "slot_ok cfg s"
    and "\<And>a. sr_rpc a = q \<Longrightarrow> a \<in> set (all_served s) \<Longrightarrow> same_slot a (f a)"
  shows "slot_ok cfg (upd_served q f s)"
proof (rule slot_ok_map [OF assms(1), where g = "\<lambda>k a. if sr_rpc a = q then f a else a"])
  fix k a assume a: "(k, a) \<in> set (sv_active s)" "run_shape cfg k a"
  have "a \<in> set (all_served s)"
    using a(1) by (force simp: all_served_def)
  then have "same_slot a (if sr_rpc a = q then f a else a)"
    using assms(2) by simp
  from same_slot_keeps [OF this a(2)]
  show "run_shape cfg k (if sr_rpc a = q then f a else a) \<and>
      holds_slot (if sr_rpc a = q then f a else a) = holds_slot a \<and>
      in_line (if sr_rpc a = q then f a else a) = in_line a \<and>
      queueing (sr_main (if sr_rpc a = q then f a else a)) = queueing (sr_main a) \<and>
      (\<not> sv_stopping (upd_served q f s) \<longrightarrow> before_cleanup a \<longrightarrow>
        before_cleanup (if sr_rpc a = q then f a else a))" .
qed (simp_all add: upd_served_def)

end
