(* ===== verification/RunnerServerWire.thy ===== *)
theory RunnerServerWire
  imports RunnerServerInv Ledger
begin

text \<open>
  What the Runner process has written for each request, and what that says about the run behind
  it: \<open>wire_at\<close> is the invariant of one request id, over its events, its responses and the run
  object that serves it.
\<close>

section \<open>The frames of one request\<close>

fun event_for :: "string \<Rightarrow> frame \<Rightarrow> run_event option" where
  "event_for q (EventF p e) = (if p = q then Some e else None)"
| "event_for q _ = None"

definition sent_events :: "string \<Rightarrow> frame list \<Rightarrow> run_event list" where
  "sent_events q fs = List.map_filter (event_for q) fs"

fun is_response :: "frame \<Rightarrow> bool" where
  "is_response (EventF _ _) = False"
| "is_response _ = True"

definition responses_of :: "string \<Rightarrow> frame list \<Rightarrow> frame list" where
  "responses_of q fs = filter (\<lambda>f. frame_rpc f = q \<and> is_response f) fs"

lemma sent_events_simps [simp]:
  "sent_events q [] = []"
  "sent_events q (xs @ ys) = sent_events q xs @ sent_events q ys"
  "sent_events q (f # fs) = (case event_for q f of None \<Rightarrow> sent_events q fs | Some e \<Rightarrow> e # sent_events q fs)"
  by (simp_all add: sent_events_def List.map_filter_def split: option.split)

lemma responses_of_simps [simp]:
  "responses_of q [] = []"
  "responses_of q (xs @ ys) = responses_of q xs @ responses_of q ys"
  "responses_of q (f # fs) =
     (if frame_rpc f = q \<and> is_response f then f # responses_of q fs else responses_of q fs)"
  by (simp_all add: responses_of_def)

text \<open>The events written before the first response: what a client reads.\<close>

definition events_before :: "string \<Rightarrow> frame list \<Rightarrow> run_event list" where
  "events_before q fs = sent_events q (takeWhile (\<lambda>f. \<not> (frame_rpc f = q \<and> is_response f)) fs)"

lemma events_before_simps [simp]:
  "events_before q [] = []"
  "events_before q (f # fs) = (if frame_rpc f = q \<and> is_response f then []
     else (case event_for q f of None \<Rightarrow> [] | Some e \<Rightarrow> [e]) @ events_before q fs)"
  by (simp_all add: events_before_def split: option.split)

lemma events_before_append:
  "events_before q (xs @ ys) =
     (if responses_of q xs = [] then sent_events q xs @ events_before q ys else events_before q xs)"
  by (induction xs) (auto split: option.split)

lemma events_before_open: "responses_of q xs = [] \<Longrightarrow> events_before q xs = sent_events q xs"
  using events_before_append [of q xs "[]"] by simp

lemma event_for_rpc: "event_for q f = Some e \<longleftrightarrow> f = EventF q e"
  by (cases f) auto

lemma no_frames:
  "q \<notin> frame_rpc ` set fs \<Longrightarrow>
     sent_events q fs = [] \<and> responses_of q fs = [] \<and> events_before q fs = []"
  by (induction fs) (auto split: option.splits simp: event_for_rpc)

section \<open>The invariant of a request\<close>

text \<open>Events of run \<open>r\<close>, numbered from 1.\<close>

definition numbered :: "string \<Rightarrow> run_event list \<Rightarrow> bool" where
  "numbered r es \<longleftrightarrow>
     map ev_sequence es = [1..<Suc (length es)] \<and> (\<forall>e\<in>set es. ev_run_id e = r \<and> event_valid e)"

lemma numbered_Nil [simp]: "numbered r []"
  by (simp add: numbered_def)

lemma numbered_snoc:
  "numbered r (es @ [e]) \<longleftrightarrow>
     numbered r es \<and> ev_sequence e = Suc (length es) \<and> ev_run_id e = r \<and> event_valid e"
  by (auto simp: numbered_def)

definition terminal_last :: "run_event list \<Rightarrow> run_event option \<Rightarrow> bool" where
  "terminal_last es t =
     (case t of
        None \<Rightarrow> \<forall>e\<in>set es. \<not> is_terminal_kind (ev_kind e)
      | Some e \<Rightarrow> es \<noteq> [] \<and> last es = e \<and> is_terminal_kind (ev_kind e) \<and>
                 (\<forall>x\<in>set (butlast es). \<not> is_terminal_kind (ev_kind x)))"

text \<open>A result that claims a terminal event names the last event of the stream.\<close>

definition claims_last :: "run_event list \<Rightarrow> run_result \<Rightarrow> bool" where
  "claims_last es res =
     (case rr_terminal_kind res of
        None \<Rightarrow> True
      | Some k \<Rightarrow> es \<noteq> [] \<and> ev_kind (last es) = k \<and> rr_terminal_sequence res = Some (length es) \<and>
                 rr_events_seen res = length es)"

definition answers_right :: "run_event list \<Rightarrow> frame list \<Rightarrow> bool" where
  "answers_right es rs \<longleftrightarrow> (\<forall>q res. RunF q res \<in> set rs \<longrightarrow> claims_last es res)"

lemma answers_right_simps [simp]:
  "answers_right es []" "answers_right es [ErrorF q c b]"
  "answers_right es [RunF q res] \<longleftrightarrow> claims_last es res"
  by (simp_all add: answers_right_def)

definition result_wire :: "string \<Rightarrow> run_event list \<Rightarrow> run_result \<Rightarrow> bool" where
  "result_wire r es res \<longleftrightarrow> run_result_valid res \<and> rr_run_id res = r \<and> claims_last es res"

fun consumer_wire :: "string \<Rightarrow> served \<Rightarrow> run_event list \<Rightarrow> consumer \<Rightarrow> bool" where
  "consumer_wire r a es Created =
     ((es = [] \<or> queueing (sr_main a)) \<and> sr_events_seen a = 0 \<and> sr_last_sequence a = 0)"
| "consumer_wire r a es (Consuming t) =
     (sr_last_sequence a = length es \<and> sr_events_seen a = length es \<and> terminal_last es t)"
| "consumer_wire r a es (ClosingIter v t) =
     (v = None \<longrightarrow> sr_events_seen a = length es \<and> terminal_last es t)"
| "consumer_wire r a es (Returned res) = result_wire r es res"
| "consumer_wire r a es (Failure os) = (es = [])"
| "consumer_wire r a es Stopped = True"

text \<open>The consuming task writes nothing any more.\<close>

definition silent :: "served \<Rightarrow> bool" where
  "silent a \<longleftrightarrow> consumer_done (sr_consumer a) \<or> queueing (sr_main a)"

definition run_wire :: "served \<Rightarrow> run_event list \<Rightarrow> bool \<Rightarrow> bool" where
  "run_wire a es called \<longleftrightarrow>
     id_full (rq_run_id (sr_request a)) \<and> numbered (rq_run_id (sr_request a)) es \<and>
     consumer_wire (rq_run_id (sr_request a)) a es (sr_consumer a) \<and>
     (called \<longrightarrow> sr_consumer a \<noteq> Created) \<and>
     (queueing (sr_main a) \<longrightarrow> sr_consumer a = Created) \<and>
     (case sr_terminal_kind a of
        None \<Rightarrow> True | Some k \<Rightarrow> silent a \<and> es \<noteq> [] \<and> ev_kind (last es) = k)"

text \<open>The response of a run that was admitted.\<close>

fun run_response_ok :: "served \<Rightarrow> run_event list \<Rightarrow> frame \<Rightarrow> bool" where
  "run_response_ok a es (RunF q res) =
     (run_result_valid res \<and> rr_run_id res = rq_run_id (sr_request a) \<and>
      (rr_terminal_kind res \<noteq> None \<longrightarrow> silent a \<and> claims_last es res))"
| "run_response_ok a es (ErrorF q c retryable) = (c = InternalErrorRpc)"
| "run_response_ok a es _ = False"

text \<open>A request that no run object serves: nothing, one response, or a denial.\<close>

definition bare_wire :: "run_event list \<Rightarrow> frame list \<Rightarrow> bool" where
  "bare_wire es rs \<longleftrightarrow>
     (es = [] \<and> length rs \<le> 1 \<and> (\<forall>q res. RunF q res \<notin> set rs)) \<or>
     (\<exists>e q res. es = [e] \<and> rs = [RunF q res] \<and> numbered (rr_run_id res) es \<and>
        result_wire (rr_run_id res) es res)"

fun wire_at :: "server_config \<Rightarrow> run_event list \<Rightarrow> frame list \<Rightarrow> served list \<Rightarrow> served list \<Rightarrow> bool \<Rightarrow> bool"
  where
  "wire_at cfg es rs [] [] called = (bare_wire es rs \<and> \<not> called)"
| "wire_at cfg es rs [a] [] called =
     (rs = [] \<and> run_wire a es called \<and> (sr_consumer a = Created \<longrightarrow> es = []) \<and>
      resolve_binding cfg (sr_request a) = Inr (sr_binding a))"
| "wire_at cfg es rs [] [a] called =
     ((rs = [] \<or> (\<exists>f. rs = [f] \<and> run_response_ok a es f)) \<and> run_wire a es called \<and>
      (\<not> sr_started a \<longrightarrow> queueing (sr_main a)) \<and>
      resolve_binding cfg (sr_request a) = Inr (sr_binding a))"
| "wire_at cfg es rs _ _ called = False"

definition active_at :: "server \<Rightarrow> string \<Rightarrow> served list" where
  "active_at s q = filter (\<lambda>a. sr_rpc a = q) (map snd (sv_active s))"

definition ended_at :: "server \<Rightarrow> string \<Rightarrow> served list" where
  "ended_at s q = filter (\<lambda>a. sr_rpc a = q) (sv_ended s)"

text \<open>What is written for a request, and the run behind it, belong to that request.\<close>

fun run_answer :: "frame \<Rightarrow> bool" where
  "run_answer (RunF q res) = True"
| "run_answer (ErrorF q c b) = True"
| "run_answer _ = False"

fun request_at :: "run_request option \<Rightarrow> run_event list \<Rightarrow> frame list \<Rightarrow> served list \<Rightarrow> bool" where
  "request_at None es rs as = (as = [] \<and> es = [] \<and> (\<forall>q res. RunF q res \<notin> set rs))"
| "request_at (Some p) es rs as =
     ((\<forall>a\<in>set as. sr_request a = p) \<and>
      (as = [] \<longrightarrow> (\<forall>e\<in>set es. ev_run_id e = rq_run_id p) \<and> (\<forall>f\<in>set rs. run_answer f) \<and>
        (\<forall>q res. RunF q res \<in> set rs \<longrightarrow> rr_run_id res = rq_run_id p)))"

lemma request_at_single [simp]: "request_at m es rs [a] \<longleftrightarrow> m = Some (sr_request a)"
  by (cases m) auto

lemma request_at_response:
  "\<forall>q res. RunF q res \<notin> set rs \<Longrightarrow> m = None \<or> (\<forall>f\<in>set rs. run_answer f) \<Longrightarrow> request_at m [] rs []"
  by (cases m) auto

text \<open>A pending cancel has not been answered, and its id is not that of a run.\<close>

definition wire_of :: "server_config \<Rightarrow> server \<Rightarrow> string \<Rightarrow> bool" where
  "wire_of cfg s q \<longleftrightarrow>
     (q \<in> fst ` set (sv_cancels s) \<longrightarrow> sent_events q (sv_out s) = [] \<and>
        responses_of q (sv_out s) = [] \<and> active_at s q = [] \<and> ended_at s q = [] \<and>
        map_of (sv_requests s) q = None) \<and>
     request_at (map_of (sv_requests s) q) (sent_events q (sv_out s)) (responses_of q (sv_out s))
       (active_at s q @ ended_at s q) \<and>
     answers_right (events_before q (sv_out s)) (responses_of q (sv_out s)) \<and>
     wire_at cfg (sent_events q (sv_out s)) (responses_of q (sv_out s)) (active_at s q) (ended_at s q)
       (q \<in> set (sv_invoked s))"

definition wire_ok :: "server_config \<Rightarrow> server \<Rightarrow> bool" where
  "wire_ok cfg s \<longleftrightarrow> (\<forall>q. wire_of cfg s q)"

lemma wire_ok_initial: "wire_ok cfg initial_server"
  by (simp add: wire_ok_def wire_of_def initial_server_def active_at_def ended_at_def bare_wire_def)

section \<open>Changes at one request\<close>

lemma split_active:
  assumes "distinct (map fst xs)" "map_of xs r = Some a"
  obtains ys zs where "xs = ys @ (r, a) # zs" "\<And>f. upd_key r f xs = ys @ (r, f a) # zs"
    "del_key r xs = ys @ zs"
proof -
  from assms(2) have "(r, a) \<in> set xs" by (rule map_of_SomeD)
  then obtain ys zs where xs: "xs = ys @ (r, a) # zs" by (meson split_list)
  with assms(1) have "r \<notin> fst ` set ys" "r \<notin> fst ` set zs" by auto
  then have "upd_key r f xs = ys @ (r, f a) # zs" "del_key r xs = ys @ zs" for f
    using upd_key_None [of r ys f] upd_key_None [of r zs f] del_key_None [of r ys] del_key_None [of r zs]
    by (simp_all add: xs upd_key_def del_key_def)
  with xs show ?thesis by (rule that)
qed

definition same_at :: "server \<Rightarrow> server \<Rightarrow> string \<Rightarrow> bool" where
  "same_at s t p \<longleftrightarrow>
     sent_events p (sv_out t) = sent_events p (sv_out s) \<and>
     responses_of p (sv_out t) = responses_of p (sv_out s) \<and>
     events_before p (sv_out t) = events_before p (sv_out s) \<and>
     active_at t p = active_at s p \<and> ended_at t p = ended_at s p \<and>
     (p \<in> set (sv_invoked t) \<longleftrightarrow> p \<in> set (sv_invoked s)) \<and>
     map_of (sv_requests t) p = map_of (sv_requests s) p \<and>
     (p \<in> fst ` set (sv_cancels t) \<longleftrightarrow> p \<in> fst ` set (sv_cancels s))"

lemma wire_of_same: "same_at s t p \<Longrightarrow> wire_of cfg s p \<Longrightarrow> wire_of cfg t p"
  by (simp add: same_at_def wire_of_def)

lemma wire_ok_step:
  "wire_ok cfg s \<Longrightarrow> (\<And>p. p \<noteq> q \<Longrightarrow> same_at s t p) \<Longrightarrow> wire_of cfg t q \<Longrightarrow> wire_ok cfg t"
  unfolding wire_ok_def using wire_of_same by metis

text \<open>Changes that the frames and the runs do not show.\<close>

lemma wire_ok_quiet:
  "wire_ok cfg s \<Longrightarrow> sv_out t = sv_out s \<Longrightarrow> sv_active t = sv_active s \<Longrightarrow> sv_ended t = sv_ended s \<Longrightarrow>
     sv_invoked t = sv_invoked s \<Longrightarrow> fst ` set (sv_cancels t) = fst ` set (sv_cancels s) \<Longrightarrow>
     sv_requests t = sv_requests s \<Longrightarrow> wire_ok cfg t"
  by (simp add: wire_ok_def wire_of_def active_at_def ended_at_def)

lemma active_run_wire:
  assumes "wire_ok cfg s" "run_of s r = Some a"
  shows "active_at s (sr_rpc a) = [a]" "ended_at s (sr_rpc a) = []"
    "responses_of (sr_rpc a) (sv_out s) = []"
    "run_wire a (sent_events (sr_rpc a) (sv_out s)) (sr_rpc a \<in> set (sv_invoked s))"
    "sr_consumer a = Created \<Longrightarrow> sent_events (sr_rpc a) (sv_out s) = []"
    "resolve_binding cfg (sr_request a) = Inr (sr_binding a)"
proof -
  have w: "wire_of cfg s (sr_rpc a)"
    using assms(1) by (simp add: wire_ok_def)
  have mem: "a \<in> set (active_at s (sr_rpc a))"
    using run_of_set [OF assms(2)] by (force simp: active_at_def)
  then obtain b where b: "active_at s (sr_rpc a) = [b]" "ended_at s (sr_rpc a) = []"
    using w unfolding wire_of_def by (elim conjE wire_at.elims) auto
  with mem have "b = a" by simp
  with b w show "active_at s (sr_rpc a) = [a]" "ended_at s (sr_rpc a) = []"
    "responses_of (sr_rpc a) (sv_out s) = []"
    "run_wire a (sent_events (sr_rpc a) (sv_out s)) (sr_rpc a \<in> set (sv_invoked s))"
    "sr_consumer a = Created \<Longrightarrow> sent_events (sr_rpc a) (sv_out s) = []"
    "resolve_binding cfg (sr_request a) = Inr (sr_binding a)"
    by (simp_all add: wire_of_def)
qed

lemma same_frames:
  assumes "\<forall>f\<in>set fs. frame_rpc f = q" "p \<noteq> q"
  shows "sent_events p (out @ fs) = sent_events p out" "responses_of p (out @ fs) = responses_of p out"
    "events_before p (out @ fs) = events_before p out"
  using no_frames [of p fs] assms by (auto simp: events_before_append events_before_open)

lemma upd_run_wire:
  assumes ok: "distinct (map fst (sv_active s))" "wire_ok cfg s"
    and a: "run_of s r = Some a" "sr_rpc (f a) = sr_rpc a" "sr_request (f a) = sr_request a"
    and t: "sv_out t = sv_out s @ fs" "sv_active t = upd_key r f (sv_active s)"
      "sv_ended t = sv_ended s" "sv_invoked t = sv_invoked s" "sv_cancels t = sv_cancels s" "sv_requests t = sv_requests s"
    and fs: "\<forall>x\<in>set fs. frame_rpc x = sr_rpc a"
    and new: "wire_at cfg (sent_events (sr_rpc a) (sv_out t)) (responses_of (sr_rpc a) (sv_out t))
      [f a] [] (sr_rpc a \<in> set (sv_invoked s))"
  shows "wire_ok cfg t"
proof -
  obtain ys zs where act: "sv_active s = ys @ (r, a) # zs" "sv_active t = ys @ (r, f a) # zs"
    using split_active [of "sv_active s" r a] ok(1) a(1) t(2)
    by (metis run_of_def)
  note w = active_run_wire [OF ok(2) a(1)]
  have wa: "wire_of cfg s (sr_rpc a)"
    using ok(2) by (simp add: wire_ok_def)
  have none: "[b\<leftarrow>map snd ys. sr_rpc b = sr_rpc a] = []" "[b\<leftarrow>map snd zs. sr_rpc b = sr_rpc a] = []"
    using w(1) by (auto simp: active_at_def act Cons_eq_append_conv append_eq_Cons_conv)
  show ?thesis
  proof (rule wire_ok_step [OF ok(2), of "sr_rpc a"])
    fix p assume "p \<noteq> sr_rpc a"
    with a(2) show "same_at s t p"
      using same_frames [OF fs, of p "sv_out s"]
      by (auto simp: same_at_def t(1,3-6) active_at_def ended_at_def act)
  next
    have "active_at t (sr_rpc a) = [f a]"
      using none a(2) by (simp add: active_at_def act)
    with new w(1,2) a(3) show "wire_of cfg t (sr_rpc a)"
      using wa by (simp add: wire_of_def ended_at_def t(3-6))
  qed
qed

lemma del_run_wire:
  assumes ok: "distinct (map fst (sv_active s))" "wire_ok cfg s" and a: "run_of s r = Some a" "sr_rpc b = sr_rpc a" "sr_request b = sr_request a"
    and t: "sv_out t = sv_out s @ fs" "sv_active t = del_key r (sv_active s)"
      "sv_ended t = sv_ended s @ [b]" "sv_invoked t = sv_invoked s" "sv_cancels t = sv_cancels s" "sv_requests t = sv_requests s"
    and fs: "\<forall>x\<in>set fs. frame_rpc x = sr_rpc a"
      "events_before (sr_rpc a) fs = sent_events (sr_rpc a) fs"
    and new: "wire_at cfg (sent_events (sr_rpc a) (sv_out t)) (responses_of (sr_rpc a) (sv_out t))
      [] [b] (sr_rpc a \<in> set (sv_invoked s))"
  shows "wire_ok cfg t"
proof -
  obtain ys zs where act: "sv_active s = ys @ (r, a) # zs" "sv_active t = ys @ zs"
    using split_active [of "sv_active s" r a] ok(1) a(1) t(2)
    by (metis run_of_def)
  note w = active_run_wire [OF ok(2) a(1)]
  have wa: "wire_of cfg s (sr_rpc a)"
    using ok(2) by (simp add: wire_ok_def)
  have none: "[b\<leftarrow>map snd ys. sr_rpc b = sr_rpc a] = []" "[b\<leftarrow>map snd zs. sr_rpc b = sr_rpc a] = []"
    using w(1) by (auto simp: active_at_def act Cons_eq_append_conv append_eq_Cons_conv)
  show ?thesis
  proof (rule wire_ok_step [OF ok(2), of "sr_rpc a"])
    fix p assume "p \<noteq> sr_rpc a"
    with a(2) show "same_at s t p"
      using same_frames [OF fs(1), of p "sv_out s"]
      by (auto simp: same_at_def t(1,3-6) active_at_def ended_at_def act)
  next
    have "active_at t (sr_rpc a) = []" "ended_at t (sr_rpc a) = [b]"
      using none a(2) w(2) by (simp_all add: active_at_def act ended_at_def t(3))
    moreover have "answers_right (events_before (sr_rpc a) (sv_out t)) (responses_of (sr_rpc a) (sv_out t))"
    proof -
      have "events_before (sr_rpc a) (sv_out t) = sent_events (sr_rpc a) (sv_out t)"
        using w(3) fs(2) by (simp add: t(1) events_before_append)
      moreover have "responses_of (sr_rpc a) (sv_out t) = [] \<or>
          (\<exists>x. responses_of (sr_rpc a) (sv_out t) = [x] \<and>
             run_response_ok b (sent_events (sr_rpc a) (sv_out t)) x)"
        using new by auto
      ultimately show ?thesis
        by (elim disjE exE conjE) (simp, rename_tac x, case_tac x, auto simp: claims_last_def split: option.splits)
    qed
    ultimately show "wire_of cfg t (sr_rpc a)"
      using new
      using wa w(1,2) a(3) by (simp add: wire_of_def t(4-6))
  qed
qed

lemma find_filter: "List.find P xs = Some x \<Longrightarrow> \<exists>ys. filter P xs = x # ys"
  by (induction xs) (auto split: if_splits)

lemma served_of_cases:
  assumes "wire_ok cfg s" "served_of s q = Some a"
  shows "sr_rpc a = q \<and>
    (active_at s q = [a] \<and> ended_at s q = [] \<or> active_at s q = [] \<and> ended_at s q = [a])"
proof -
  obtain ys where ys: "active_at s q @ ended_at s q = a # ys"
    using find_filter [OF assms(2) [unfolded served_of_def]]
    by (auto simp: active_at_def ended_at_def)
  have "wire_of cfg s q"
    using assms(1) by (simp add: wire_ok_def)
  then have "active_at s q @ ended_at s q = [a] \<and>
      (active_at s q = [a] \<and> ended_at s q = [] \<or> active_at s q = [] \<and> ended_at s q = [a])"
    using ys unfolding wire_of_def by (elim conjE wire_at.elims) auto
  moreover have "sr_rpc a = q"
    using find_SomeD [OF assms(2) [unfolded served_of_def]] by simp
  ultimately show ?thesis by blast
qed

lemma served_run_wire:
  assumes "wire_ok cfg s" "served_of s q = Some a"
  shows "run_wire a (sent_events q (sv_out s)) (q \<in> set (sv_invoked s))"
proof -
  have "wire_of cfg s q"
    using assms(1) by (simp add: wire_ok_def)
  with served_of_cases [OF assms] show ?thesis by (auto simp: wire_of_def)
qed

lemma filter_rpc_map:
  assumes "\<And>b. b \<in> set xs \<Longrightarrow> sr_rpc b = q \<Longrightarrow> sr_rpc (f b) = q"
  shows "filter (\<lambda>b. sr_rpc b = p) (map (\<lambda>b. if sr_rpc b = q then f b else b) xs) =
    (if p = q then map f (filter (\<lambda>b. sr_rpc b = q) xs) else filter (\<lambda>b. sr_rpc b = p) xs)"
  using assms by (induction xs) auto

lemma map_snd_upd: "map snd (map (\<lambda>(k, a). (k, if P a then f a else a)) xs) =
    map (\<lambda>a. if P a then f a else a) (map snd xs)"
  by (induction xs) auto

text \<open>A consuming task that is not over changes the object of its run and writes events.\<close>

lemma served_step_wire:
  assumes ok: "wire_ok cfg s" and a: "served_of s q = Some a" "\<not> silent a"
    and b: "sr_rpc b = q" "sr_request b = sr_request a" "sr_main b = sr_main a"
      "sr_started b = sr_started a" "sr_binding b = sr_binding a" "sr_consumer b \<noteq> Created"
    and f: "f a = b"
    and t: "sv_out t = sv_out s @ fs" "sv_active t = sv_active (upd_served q f s)"
      "sv_ended t = sv_ended (upd_served q f s)" "set (sv_invoked t) - {q} = set (sv_invoked s) - {q}"
      "sv_cancels t = sv_cancels s" "sv_requests t = sv_requests s"
    and fs: "\<forall>x\<in>set fs. frame_rpc x = q \<and> \<not> is_response x"
    and new: "run_wire b (sent_events q (sv_out t)) (q \<in> set (sv_invoked t))"
  shows "wire_ok cfg t"
proof -
  note c = served_of_cases [OF ok a(1)]
  have w: "wire_of cfg s q"
    using ok by (simp add: wire_ok_def)
  have "x = a" if "x \<in> set (map snd (sv_active s)) \<union> set (sv_ended s)" "sr_rpc x = q" for x
  proof -
    from that have "x \<in> set (active_at s q) \<union> set (ended_at s q)"
      by (auto simp: active_at_def ended_at_def)
    with c show ?thesis by auto
  qed
  then have keep: "sr_rpc (f x) = q"
    if "x \<in> set (map snd (sv_active s)) \<union> set (sv_ended s)" "sr_rpc x = q" for x
    using that f b(1) by blast
  have act: "active_at t p = (if p = q then map f (active_at s q) else active_at s p)"
    and en: "ended_at t p = (if p = q then map f (ended_at s q) else ended_at s p)" for p
    unfolding active_at_def ended_at_def t(2,3)
    using filter_rpc_map [of "map snd (sv_active s)" q f p] filter_rpc_map [of "sv_ended s" q f p] keep
    by (simp_all add: upd_served_def map_snd_upd del: map_map)
  have resp: "responses_of q (sv_out t) = responses_of q (sv_out s)"
    using fs by (auto simp: t(1) responses_of_def)
  show ?thesis
  proof (rule wire_ok_step [OF ok, of q])
    fix p assume "p \<noteq> q"
    moreover have "(p \<in> set (sv_invoked t)) = (p \<in> set (sv_invoked s))"
      using t(4) \<open>p \<noteq> q\<close> by blast
    ultimately show "same_at s t p"
      using same_frames [of fs q p "sv_out s"] fs by (simp add: same_at_def act en t(1,5,6))
  next
    show "wire_of cfg t q"
      using c
    proof (elim conjE disjE)
      assume "active_at s q = [a]" "ended_at s q = []"
      with w new b f show ?thesis by (simp add: wire_of_def act en resp t(5,6))
    next
      assume at: "active_at s q = []" "ended_at s q = [a]"
      with w have old: "responses_of q (sv_out s) = [] \<or>
          (\<exists>x. responses_of q (sv_out s) = [x] \<and> run_response_ok a (sent_events q (sv_out s)) x)"
        "\<not> sr_started a \<longrightarrow> queueing (sr_main a)" "resolve_binding cfg (sr_request a) = Inr (sr_binding a)"
        by (auto simp: wire_of_def)
      have "run_response_ok b (sent_events q (sv_out t)) x" if "run_response_ok a (sent_events q (sv_out s)) x" for x
        using that a(2) b(2) by (cases x) auto
      moreover have "answers_right (events_before q (sv_out t)) (responses_of q (sv_out s))"
        using w by (cases "responses_of q (sv_out s) = []") (auto simp: t(1) events_before_append wire_of_def)
      ultimately show ?thesis
        using w at old new b f by (auto simp: wire_of_def act en resp t(5,6))
    qed
  qed
qed

section \<open>The segments of the consuming task\<close>

lemma run_wireD:
  assumes "run_wire a es called"
  shows "numbered (rq_run_id (sr_request a)) es"
    and "consumer_wire (rq_run_id (sr_request a)) a es (sr_consumer a)"
    and "called \<Longrightarrow> sr_consumer a \<noteq> Created"
    and "queueing (sr_main a) \<Longrightarrow> sr_consumer a = Created"
    and "sr_terminal_kind a = Some k \<Longrightarrow> silent a \<and> es \<noteq> [] \<and> ev_kind (last es) = k"
    and "id_full (rq_run_id (sr_request a))"
  using assms by (auto simp: run_wire_def)

lemma not_silent:
  "run_wire a es called \<Longrightarrow> sr_consumer a \<noteq> Created \<Longrightarrow> \<not> consumer_done (sr_consumer a) \<Longrightarrow> \<not> silent a"
  using run_wireD(4) by (auto simp: silent_def)

lemma start_consumer_wire:
  assumes ok: "wire_ok cfg s"
  shows "wire_ok cfg (start_consumer raises q s)"
proof (cases "\<exists>a. served_of s q = Some a \<and> sr_main a \<in> {AwaitConsumer, AwaitDriverCancel} \<and>
    sr_consumer a = Created")
  case False
  then have "start_consumer raises q s = s"
    by (auto simp: start_consumer_def split: option.splits)
  with ok show ?thesis by simp
next
  case True
  then obtain a where a: "served_of s q = Some a" and m: "sr_main a \<in> {AwaitConsumer, AwaitDriverCancel}"
    and c: "sr_consumer a = Created" by blast
  have rpc: "sr_rpc a = q"
    using served_of_cases [OF ok a] by simp
  have ns: "\<not> silent a"
    using m c by (auto simp: silent_def)
  note w = run_wireD [OF served_run_wire [OF ok a]]
  let ?f = "\<lambda>a. a\<lparr>sr_consumer := (case raises of None \<Rightarrow> Consuming None | Some os \<Rightarrow> Failure os)\<rparr>"
  let ?t = "upd_served q ?f (s\<lparr>sv_invoked := sr_rpc a # sv_invoked s\<rparr>)"
  have eq: "start_consumer raises q s = ?t"
    using a m c by (simp add: start_consumer_def)
  have tk: "sr_terminal_kind a = None"
    using w(5) ns by (cases "sr_terminal_kind a") auto
  have es: "sent_events q (sv_out s) = []" "sr_events_seen a = 0" "sr_last_sequence a = 0"
    using w(2) c m by auto
  have "wire_ok cfg ?t"
    by (rule served_step_wire [OF ok a ns, where b = "?f a" and f = ?f and fs = "[]"])
      (use rpc m es tk w(6) in \<open>auto simp: upd_served_def run_wire_def terminal_last_def split: option.splits\<close>)
  then show ?thesis by (simp add: eq)
qed

lemma driver_over_wire:
  assumes ok: "wire_ok cfg s"
  shows "wire_ok cfg (driver_over v q s)"
proof (cases "\<exists>a t. served_of s q = Some a \<and> sr_consumer a = Consuming t")
  case False
  then have "driver_over v q s = s"
    by (auto simp: driver_over_def split: option.splits consumer.splits)
  with ok show ?thesis by simp
next
  case True
  then obtain a t where a: "served_of s q = Some a" and c: "sr_consumer a = Consuming t" by blast
  note w = served_run_wire [OF ok a]
  have ns: "\<not> silent a"
    using not_silent [OF w] c by simp
  have "wire_ok cfg (upd_served q (\<lambda>a. a\<lparr>sr_consumer := ClosingIter v t\<rparr>) s)"
    by (rule served_step_wire [OF ok a ns, where b = "a\<lparr>sr_consumer := ClosingIter v t\<rparr>" and fs = "[]"])
      (use served_of_cases [OF ok a] w c ns in
        \<open>auto simp: upd_served_def run_wire_def silent_def split: option.splits\<close>)
  with a c show ?thesis by (simp add: driver_over_def)
qed

lemma consumer_stops_wire:
  assumes ok: "wire_ok cfg s"
  shows "wire_ok cfg (consumer_stops q s)"
proof (cases "\<exists>a. served_of s q = Some a \<and> stop_asked (sr_main a) \<and> \<not> consumer_done (sr_consumer a)")
  case False
  then have "consumer_stops q s = s"
    by (auto simp: consumer_stops_def split: option.splits consumer.splits)
  with ok show ?thesis by simp
next
  case True
  then obtain a where a: "served_of s q = Some a" and m: "stop_asked (sr_main a)"
    and c: "\<not> consumer_done (sr_consumer a)" by blast
  note w = served_run_wire [OF ok a]
  have nq: "\<not> queueing (sr_main a)"
    using m by (cases "sr_main a") auto
  with c have ns: "\<not> silent a"
    by (simp add: silent_def)
  have eq: "consumer_stops q s = upd_served q (\<lambda>a. a\<lparr>sr_consumer := Stopped\<rparr>) s"
    using a m c by (auto simp: consumer_stops_def split: consumer.splits)
  have "wire_ok cfg (upd_served q (\<lambda>a. a\<lparr>sr_consumer := Stopped\<rparr>) s)"
    by (rule served_step_wire [OF ok a ns, where b = "a\<lparr>sr_consumer := Stopped\<rparr>" and fs = "[]"])
      (use served_of_cases [OF ok a] w nq in
        \<open>auto simp: upd_served_def run_wire_def silent_def split: option.splits\<close>)
  then show ?thesis by (simp add: eq)
qed

lemma numbered_last:
  "numbered r es \<Longrightarrow> es \<noteq> [] \<Longrightarrow> ev_sequence (last es) = length es \<and> event_valid (last es)"
  by (induction es rule: rev_induct) (simp_all add: numbered_snoc)

lemma unknown_result_valid:
  "id_full (rq_run_id (sr_request a)) \<Longrightarrow> run_result_valid (unknown_result cfg v a)"
  by (simp add: unknown_result_def run_result_valid_def verification_valid_def
      runner_verification_def run_result_consistent_def)

lemma terminal_result_wire:
  assumes "numbered (rq_run_id (sr_request a)) es" "terminal_last es (Some e)"
    "sr_events_seen a = length es" "id_full (rq_run_id (sr_request a))"
  shows "result_wire (rq_run_id (sr_request a)) es (terminal_result cfg e a)"
proof -
  have e: "es \<noteq> []" "last es = e" "is_terminal_kind (ev_kind e)"
    using assms(2) by (simp_all add: terminal_last_def)
  then have s: "ev_sequence e = length es" "event_valid e"
    using numbered_last [OF assms(1)] by auto
  then have "1 \<le> length es" "payload_valid (ev_payload e)"
    by (auto simp: event_valid_def)
  with e s assms(3,4) show ?thesis
    by (cases "ev_payload e")
      (auto simp: result_wire_def terminal_result_def run_result_valid_def verification_valid_def
        runner_verification_def run_result_consistent_def claims_last_def ev_kind_def)
qed

lemma close_iterator_wire:
  assumes ok: "wire_ok cfg s" and ids: "\<And>a. served_of s q = Some a \<Longrightarrow> id_full (rq_run_id (sr_request a))"
  shows "wire_ok cfg (close_iterator cfg q s)"
proof (cases "\<exists>a v t. served_of s q = Some a \<and> sr_consumer a = ClosingIter v t")
  case False
  then have "close_iterator cfg q s = s"
    by (auto simp: close_iterator_def split: option.splits consumer.splits)
  with ok show ?thesis by simp
next
  case True
  then obtain a v t where a: "served_of s q = Some a" and c: "sr_consumer a = ClosingIter v t" by blast
  let ?f = "\<lambda>a. case (v, t) of
       (Some reason, _) \<Rightarrow>
         a\<lparr>sr_terminal_kind := None, sr_consumer := Returned (unknown_result cfg reason a)\<rparr>
     | (None, None) \<Rightarrow>
         a\<lparr>sr_terminal_kind := None, sr_consumer := Returned
             (unknown_result cfg ''driver stream ended without a terminal event'' a)\<rparr>
     | (None, Some e) \<Rightarrow>
         a\<lparr>sr_terminal_kind := Some (ev_kind e), sr_consumer := Returned (terminal_result cfg e a)\<rparr>"
  note w = served_run_wire [OF ok a]
  have ns: "\<not> silent a"
    using not_silent [OF w] c by simp
  let ?r = "rq_run_id (sr_request a)"
  have un: "result_wire ?r es (unknown_result cfg reason a)" for es reason
    using unknown_result_valid [OF ids [OF a]]
    by (simp add: result_wire_def claims_last_def unknown_result_def)
  have te: "result_wire ?r (sent_events q (sv_out s)) (terminal_result cfg e a)"
    if "v = None" "t = Some e" for e
    by (rule terminal_result_wire) (use run_wireD(1,2) [OF w] that c ids [OF a] in auto)
  have nw: "run_wire (?f a) (sent_events q (sv_out s)) (q \<in> set (sv_invoked s))"
    using run_wireD [OF w] un te ns
    by (auto simp: run_wire_def c silent_def terminal_last_def split: option.splits)
  have "wire_ok cfg (upd_served q ?f s)"
    by (rule served_step_wire [OF ok a ns, where b = "?f a" and fs = "[]"])
      (use served_of_cases [OF ok a] nw in \<open>auto simp: upd_served_def split: option.splits\<close>)
  with a c show ?thesis by (simp add: close_iterator_def)
qed

lemma driver_event_wire:
  assumes ok: "wire_ok cfg s" and e: "event_valid e"
  shows "wire_ok cfg (driver_event sent e q s)"
proof (cases "\<exists>a t. served_of s q = Some a \<and> sr_consumer a = Consuming t")
  case False
  then have "driver_event sent e q s = s"
    by (auto simp: driver_event_def split: option.splits consumer.splits)
  with ok show ?thesis by simp
next
  case True
  then obtain a t where a: "served_of s q = Some a" and c: "sr_consumer a = Consuming t" by blast
  note w = served_run_wire [OF ok a]
  note W = run_wireD [OF w]
  have ns: "\<not> silent a" and rpc: "sr_rpc a = q"
    using not_silent [OF w] c served_of_cases [OF ok a] by simp_all
  have tk: "sr_terminal_kind a = None"
    using W(5) ns by (cases "sr_terminal_kind a") auto
  let ?a = "a\<lparr>sr_events_seen := sr_events_seen a + 1\<rparr>"
  have bad: "wire_ok cfg (upd_served q (\<lambda>_. ?a\<lparr>sr_last_sequence := n, sr_consumer := ClosingIter (Some v) t\<rparr>) s)"
    (is "wire_ok cfg (upd_served q (\<lambda>_. ?c n v) s)") for n v
  proof -
    have "run_wire (?c n v) (sent_events q (sv_out s)) (q \<in> set (sv_invoked s))"
      using W(1,4,6) c tk by (auto simp: run_wire_def)
    then show ?thesis
      by (intro served_step_wire [OF ok a ns, where b = "?c n v" and f = "\<lambda>_. ?c n v" and fs = "[]"])
        (simp_all add: rpc upd_served_def)
  qed
  show ?thesis
  proof (cases "event_violation ?a t e")
    case (Some v)
    with a c bad [of v "sr_last_sequence a"] show ?thesis
      by (simp add: driver_event_def Let_def)
  next
    case None
    then have v: "ev_run_id e = rq_run_id (sr_request a)" "t = None"
      "ev_sequence e = sr_last_sequence a + 1"
      by (auto simp: event_violation_def split: if_splits)
    let ?b = "?a\<lparr>sr_last_sequence := ev_sequence e,
        sr_consumer := Consuming (if is_terminal_kind (ev_kind e) then Some e else t)\<rparr>"
    have nw: "run_wire ?b (sent_events q (sv_out s) @ [e]) (q \<in> set (sv_invoked s))"
      using W v e tk c by (auto simp: run_wire_def numbered_snoc terminal_last_def)
    have good: "wire_ok cfg (upd_served q (\<lambda>_. ?b) (send (EventF (sr_rpc a) e) s))"
      by (rule served_step_wire [OF ok a ns, where b = ?b and f = "\<lambda>_. ?b" and fs = "[EventF q e]"])
        (use rpc nw in \<open>auto simp: upd_served_def\<close>)
    show ?thesis
    proof (cases sent)
      case True
      with a c None good show ?thesis
        by (simp add: driver_event_def Let_def split del: if_split)
    next
      case False
      with a c None bad [of "''client disconnected during stream''" "ev_sequence e"] show ?thesis
        by (simp add: driver_event_def Let_def)
    qed
  qed
qed

section \<open>The segments of the request\<close>

lemma quiet_run_wire:
  assumes ok: "distinct (map fst (sv_active s))" "wire_ok cfg s" and a: "run_of s r = Some a"
    and same: "sr_rpc (f a) = sr_rpc a" "sr_request (f a) = sr_request a"
      "sr_binding (f a) = sr_binding a" "sr_consumer (f a) = sr_consumer a"
      "sr_events_seen (f a) = sr_events_seen a" "sr_last_sequence (f a) = sr_last_sequence a"
      "sr_terminal_kind (f a) = sr_terminal_kind a"
      "queueing (sr_main (f a)) \<longrightarrow> queueing (sr_main a)"
    and t: "sv_out t = sv_out s" "sv_active t = upd_key r f (sv_active s)"
      "sv_ended t = sv_ended s" "sv_invoked t = sv_invoked s" "sv_cancels t = sv_cancels s" "sv_requests t = sv_requests s"
  shows "wire_ok cfg t"
proof (rule upd_run_wire [where f = f and t = t and fs = "[]", OF ok a same(1,2)])
  note w = active_run_wire [OF ok(2) a]
  let ?es = "sent_events (sr_rpc a) (sv_out s)"
  have tk: "sr_terminal_kind a = Some k \<Longrightarrow> consumer_done (sr_consumer a) \<and> ?es \<noteq> [] \<and> ev_kind (last ?es) = k" for k
    using run_wireD [OF w(4)] w(5) by (auto simp: silent_def)
  have "run_wire (f a) ?es (sr_rpc a \<in> set (sv_invoked s))"
    using run_wireD [OF w(4)] w(5) same tk
    by (cases "sr_consumer a"; cases "sr_terminal_kind a") (auto simp: run_wire_def silent_def)
  then show "wire_at cfg (sent_events (sr_rpc a) (sv_out t)) (responses_of (sr_rpc a) (sv_out t))
      [f a] [] (sr_rpc a \<in> set (sv_invoked s))"
    using w(3,5,6) same by (simp add: t(1))
qed (use t in auto)

lemma grant_run_wire:
  assumes "distinct (map fst (sv_active s))" "wire_ok cfg s" "run_of s r = Some a" "queueing (sr_main a)"
  shows "wire_ok cfg (grant_run r s)"
  by (rule quiet_run_wire [OF assms(1-3), where f = "\<lambda>a. a\<lparr>sr_main := Queueing Granted\<rparr>"])
    (use assms(4) in \<open>simp_all add: grant_run_def upd_run_key\<close>)

lemma ask_slot_wire:
  assumes ok: "distinct (map fst (sv_active s))" "wire_ok cfg s"
  shows "wire_ok cfg (ask_slot r s)"
proof (cases "\<exists>a. run_of s r = Some a \<and> sr_main a = Queueing NotAsked")
  case False
  with ok show ?thesis by (auto simp: ask_slot_def split: option.splits)
next
  case True
  then obtain a where a: "run_of s r = Some a" "sr_main a = Queueing NotAsked" by blast
  have "wire_ok cfg (upd_run r (\<lambda>a. a\<lparr>sr_main := Queueing g\<rparr>) t)"
    if "sv_out t = sv_out s" "sv_active t = sv_active s" "sv_ended t = sv_ended s"
      "sv_invoked t = sv_invoked s" "sv_cancels t = sv_cancels s" "sv_requests t = sv_requests s" for g t
    by (rule quiet_run_wire [OF ok a(1), where f = "\<lambda>a. a\<lparr>sr_main := Queueing g\<rparr>"])
      (use a(2) that in \<open>simp_all add: upd_run_key\<close>)
  with a show ?thesis by (simp add: ask_slot_def grant_run_def)
qed

text \<open>A run ends with its one response.\<close>

lemma release_slot_wire:
  assumes ok: "distinct (map fst (sv_active s))" "wire_ok cfg s"
    and line: "set (sv_line s) \<subseteq> {r. \<exists>a. (r, a) \<in> set (sv_active s) \<and> in_line a}"
  shows "wire_ok cfg (release_slot s)"
proof (cases "sv_line s")
  case Nil
  then show ?thesis
    using wire_ok_quiet [OF ok(2)] by (simp add: release_slot_def)
next
  case (Cons r rs)
  with line obtain a where "(r, a) \<in> set (sv_active s)" "in_line a" by auto
  with ok(1) have "run_of (s\<lparr>sv_line := rs\<rparr>) r = Some a" "queueing (sr_main a)"
    by (auto simp: run_of_def in_line_def)
  moreover have "wire_ok cfg (s\<lparr>sv_line := rs\<rparr>)"
    using wire_ok_quiet [OF ok(2)] by simp
  ultimately show ?thesis
    using grant_run_wire [of "s\<lparr>sv_line := rs\<rparr>" cfg r a] ok(1) Cons by (simp add: release_slot_def)
qed

text \<open>A run ends with its one response; \<open>t\<close> is the state in which it does.\<close>

lemma finish_wire:
  assumes ok: "slot_ok cfg s" "wire_ok cfg s" and a: "run_of s r = Some a" "sr_rpc b = sr_rpc a" "sr_request b = sr_request a"
    and t: "sv_out t = sv_out s @ fs" "sv_active t = sv_active s" "sv_ended t = sv_ended s"
      "sv_invoked t = sv_invoked s" "sv_cancels t = sv_cancels s" "sv_requests t = sv_requests s"
      "set (sv_line t) = set (sv_line s) - {r} \<or> set (sv_line t) = set (sv_line s) \<and> \<not> in_line a"
    and fs: "\<forall>x\<in>set fs. frame_rpc x = sr_rpc a"
      "events_before (sr_rpc a) fs = sent_events (sr_rpc a) fs"
    and new: "wire_at cfg (sent_events (sr_rpc a) (sv_out s) @ sent_events (sr_rpc a) fs)
      (responses_of (sr_rpc a) fs) [] [b\<lparr>sr_acquired := False\<rparr>] (sr_rpc a \<in> set (sv_invoked s))"
  shows "wire_ok cfg (finish_served r b t)"
proof -
  note D = slotsD [OF ok(1) [unfolded slot_ok_def]]
  define u where "u = t\<lparr>sv_active := del_key r (sv_active s), sv_ended := sv_ended t @ [b\<lparr>sr_acquired := False\<rparr>]\<rparr>"
  have fin: "finish_served r b t = (if sr_acquired b then release_slot u else u)"
    by (simp add: finish_served_def u_def del_key_def t(2) Let_def)
  have u: "wire_ok cfg u"
    by (rule del_run_wire [OF D(1) ok(2) a(1), of "b\<lparr>sr_acquired := False\<rparr>" u fs])
      (use a(2,3) t fs new active_run_wire(3) [OF ok(2) a(1)] in \<open>simp_all add: u_def\<close>)
  have "r \<notin> set (sv_line s)" if "\<not> in_line a"
    unfolding D(5) using that D(1) map_of_SomeD [OF a(1) [unfolded run_of_def]]
    by (auto dest: eq_key_imp_eq_value)
  then have "set (sv_line t) = set (sv_line s) - {r}"
    using t(7) by blast
  then have "set (sv_line u) \<subseteq> {k. \<exists>c. (k, c) \<in> set (sv_active u) \<and> in_line c}"
    unfolding D(5) by (auto simp: u_def set_del_key)
  with u release_slot_wire [of u cfg] distinct_del_key [OF D(1), of r] show ?thesis
    by (simp add: fin u_def)
qed

lemma end_with_response:
  assumes ok: "slot_ok cfg s" "wire_ok cfg s" and a: "run_of s r = Some a"
    and b: "sr_rpc b = sr_rpc a" "sr_request b = sr_request a" "sr_binding b = sr_binding a"
      "sr_consumer b = sr_consumer a" "sr_events_seen b = sr_events_seen a"
      "sr_last_sequence b = sr_last_sequence a" "sr_main b = sr_main a"
      "sr_terminal_kind b \<in> {sr_terminal_kind a, None}" "\<not> sr_started b \<longrightarrow> queueing (sr_main a)"
    and t: "sv_out t = sv_out s @ [x]" "sv_active t = sv_active s" "sv_ended t = sv_ended s"
      "sv_invoked t = sv_invoked s" "sv_cancels t = sv_cancels s" "sv_requests t = sv_requests s"
      "set (sv_line t) = set (sv_line s) - {r} \<or> set (sv_line t) = set (sv_line s) \<and> \<not> in_line a"
    and x: "frame_rpc x = sr_rpc a" "is_response x"
      "run_response_ok a (sent_events (sr_rpc a) (sv_out s)) x"
  shows "wire_ok cfg (finish_served r b t)"
proof (rule finish_wire [OF ok a b(1,2) t])
  note w = active_run_wire [OF ok(2) a]
  let ?b = "b\<lparr>sr_acquired := False\<rparr>"
  have "run_wire ?b (sent_events (sr_rpc a) (sv_out s)) (sr_rpc a \<in> set (sv_invoked s))"
    using w(4) b by (cases "sr_consumer a"; cases "sr_terminal_kind a")
      (auto simp: run_wire_def silent_def)
  moreover have "run_response_ok ?b (sent_events (sr_rpc a) (sv_out s)) x"
    using x(3) b by (cases x) (auto simp: silent_def)
  moreover have no: "event_for (sr_rpc a) x = None"
    using x(2) by (cases x) auto
  ultimately show "wire_at cfg (sent_events (sr_rpc a) (sv_out s) @ sent_events (sr_rpc a) [x])
      (responses_of (sr_rpc a) [x]) [] [?b] (sr_rpc a \<in> set (sv_invoked s))"
    using b x w(6) by simp
  from no show "events_before (sr_rpc a) [x] = sent_events (sr_rpc a) [x]" by simp
qed (use x in simp)

text \<open>A run that ends without an answer.\<close>

lemma end_silently:
  assumes ok: "slot_ok cfg s" "wire_ok cfg s" and a: "run_of s r = Some a"
    and b: "sr_rpc b = sr_rpc a" "sr_request b = sr_request a" "sr_binding b = sr_binding a"
      "sr_consumer b = sr_consumer a" "sr_events_seen b = sr_events_seen a"
      "sr_last_sequence b = sr_last_sequence a" "sr_main b = sr_main a"
      "sr_terminal_kind b = sr_terminal_kind a" "\<not> sr_started b \<longrightarrow> queueing (sr_main a)"
    and t: "sv_out t = sv_out s" "sv_active t = sv_active s" "sv_ended t = sv_ended s"
      "sv_invoked t = sv_invoked s" "sv_cancels t = sv_cancels s" "sv_requests t = sv_requests s"
      "set (sv_line t) = set (sv_line s) - {r} \<or> set (sv_line t) = set (sv_line s) \<and> \<not> in_line a"
  shows "wire_ok cfg (finish_served r b t)"
proof (rule finish_wire [OF ok a b(1,2), where fs = "[]"])
  note w = active_run_wire [OF ok(2) a]
  have "run_wire (b\<lparr>sr_acquired := False\<rparr>) (sent_events (sr_rpc a) (sv_out s)) (sr_rpc a \<in> set (sv_invoked s))"
    using w(4) b by (cases "sr_consumer a"; cases "sr_terminal_kind a")
      (auto simp: run_wire_def silent_def)
  then show "wire_at cfg (sent_events (sr_rpc a) (sv_out s) @ sent_events (sr_rpc a) [])
      (responses_of (sr_rpc a) []) [] [b\<lparr>sr_acquired := False\<rparr>] (sr_rpc a \<in> set (sv_invoked s))"
    using b w(6) by simp
qed (use t in simp_all)

lemma end_with_exception:
  assumes ok: "slot_ok cfg s" "wire_ok cfg s" and a: "run_of s r = Some a"
    and st: "sr_started a" "\<not> in_line a"
  shows "wire_ok cfg (finish_served r a (answer_exception os (sr_rpc a) s))"
proof (cases os)
  case True
  have "wire_ok cfg (finish_served r a s)"
    by (rule end_silently [OF ok a]) (use st in simp_all)
  with True show ?thesis by (simp add: answer_exception_def)
next
  case False
  have "wire_ok cfg (finish_served r a (send (ErrorF (sr_rpc a) InternalErrorRpc False) s))"
    by (rule end_with_response [OF ok a, of a _ "ErrorF (sr_rpc a) InternalErrorRpc False"])
      (use st in simp_all)
  with False show ?thesis by (simp add: answer_exception_def)
qed

lemma consumer_awaited_wire:
  assumes ok: "slot_ok cfg s" "wire_ok cfg s"
  shows "wire_ok cfg (consumer_awaited r s)"
proof (cases "\<exists>a. run_of s r = Some a \<and> sr_main a = AwaitConsumer")
  case False
  with ok show ?thesis by (auto simp: consumer_awaited_def split: option.splits)
next
  case True
  then obtain a where a: "run_of s r = Some a" "sr_main a = AwaitConsumer" by blast
  note w = run_wireD [OF active_run_wire(4) [OF ok(2) a(1)]]
  have st: "sr_started a" "\<not> in_line a"
    using slot_ok_shape [OF ok(1) a(1)] a(2) by (auto simp: run_shape_def in_line_def)
  have fin: "wire_ok cfg (finish_served r a (send x s))"
    if "frame_rpc x = sr_rpc a" "is_response x" "run_response_ok a (sent_events (sr_rpc a) (sv_out s)) x" for x
    by (rule end_with_response [OF ok a(1), of a _ x]) (use that st in simp_all)
  show ?thesis
  proof (cases "sr_consumer a")
    case (Returned res)
    with w(2) fin [of "RunF (sr_rpc a) res"] a show ?thesis
      by (simp add: consumer_awaited_def result_wire_def silent_def)
  next
    case (Failure os)
    with end_with_exception [OF ok a(1) st] a show ?thesis
      by (simp add: consumer_awaited_def)
  qed (use a ok in \<open>simp_all add: consumer_awaited_def\<close>)
qed

lemma driver_cancel_raises_wire:
  assumes ok: "slot_ok cfg s" "wire_ok cfg s"
  shows "wire_ok cfg (driver_cancel_raises os r s)"
proof (cases "\<exists>a. run_of s r = Some a \<and> sr_main a = AwaitDriverCancel")
  case False
  with ok show ?thesis by (auto simp: driver_cancel_raises_def split: option.splits)
next
  case True
  then obtain a where a: "run_of s r = Some a" "sr_main a = AwaitDriverCancel" by blast
  have st: "sr_started a" "\<not> in_line a"
    using slot_ok_shape [OF ok(1) a(1)] a(2) by (auto simp: run_shape_def in_line_def)
  with a end_with_exception [OF ok a(1) st] show ?thesis by (simp add: driver_cancel_raises_def)
qed

lemma stop_awaited_wire:
  assumes ok: "slot_ok cfg s" "wire_ok cfg s"
  shows "wire_ok cfg (stop_awaited cfg timed_out r s)"
proof (cases "\<exists>a c d. run_of s r = Some a \<and> sr_main a = AwaitStop c d")
  case False
  with ok show ?thesis by (auto simp: stop_awaited_def split: option.splits main.splits)
next
  case True
  then obtain a c d where a: "run_of s r = Some a" "sr_main a = AwaitStop c d" by blast
  have st: "sr_started a" "\<not> in_line a" "id_full (rq_run_id (sr_request a))"
    using slot_ok_shape [OF ok(1) a(1)] a(2) by (auto simp: run_shape_def in_line_def)
  have fin: "wire_ok cfg (finish_served r b (send (RunF (sr_rpc a) res) s))"
    if "run_result_valid res" "rr_run_id res = rq_run_id (sr_request a)" "rr_terminal_kind res = None"
      "b = a \<or> b = a\<lparr>sr_terminal_kind := None\<rparr>" for b res
    by (rule end_with_response [OF ok a(1), of b _ "RunF (sr_rpc a) res"]) (use that st in auto)
  have un: "wire_ok cfg (finish_served r (a\<lparr>sr_terminal_kind := None\<rparr>)
      (send (RunF (sr_rpc a) (unknown_result cfg reason a)) s))" for reason
    by (rule fin) (use unknown_result_valid [OF st(3)] in \<open>simp_all add: unknown_result_def\<close>)
  have dl: "wire_ok cfg (finish_served r a (send (RunF (sr_rpc a) (deadline_cancelled_result cfg d a)) s))"
    by (rule fin) (simp_all add: deadline_cancelled_result_def run_result_valid_def st(3)
        verification_valid_def runner_verification_def run_result_consistent_def)
  show ?thesis
    using a un dl ok(2) by (simp add: stop_awaited_def Let_def)
qed

lemma leave_queue_wire:
  assumes ok: "slot_ok cfg s" "wire_ok cfg s" and claim: "claim_ok claim"
  shows "wire_ok cfg (leave_queue cfg now claim r s)"
proof (cases "\<exists>a g. run_of s r = Some a \<and> sr_main a = Queueing g \<and> (g = Granted \<or> sr_start_cancelled a)")
  case False
  with ok show ?thesis by (auto simp: leave_queue_def split: option.splits main.splits)
next
  case True
  then obtain a g where a: "run_of s r = Some a" "sr_main a = Queueing g"
    and go: "g = Granted \<or> sr_start_cancelled a" by blast
  note w = active_run_wire [OF ok(2) a(1)]
  have c: "sr_consumer a = Created" "id_full (rq_run_id (sr_request a))"
    using slot_ok_shape [OF ok(1) a(1)] a(2) by (auto simp: run_shape_def)
  then have es: "sent_events (sr_rpc a) (sv_out s) = []"
    using w(5) by simp
  have W: "sr_events_seen a = 0" "sr_last_sequence a = 0" "sr_terminal_kind a = None"
    "sr_rpc a \<notin> set (sv_invoked s)"
    using run_wireD [OF w(4)] c es by (cases "sr_terminal_kind a"; auto)+
  let ?s = "s\<lparr>sv_queue_waiting := sv_queue_waiting s - 1, sv_line := removeAll r (sv_line s)\<rparr>"
  show ?thesis
  proof (cases "sr_cancel_before_start a")
    case True
    have "wire_ok cfg (finish_served r (a\<lparr>sr_acquired := (g = Granted)\<rparr>)
        (send (RunF (sr_rpc a) (cancelled_before_start_result cfg (a\<lparr>sr_acquired := (g = Granted)\<rparr>))) ?s))"
      by (rule end_with_response [OF ok a(1), where x =
            "RunF (sr_rpc a) (cancelled_before_start_result cfg (a\<lparr>sr_acquired := (g = Granted)\<rparr>))"])
        (use a(2) c in \<open>auto simp: cancelled_before_start_result_def run_result_valid_def
          verification_valid_def runner_verification_def run_result_consistent_def\<close>)
    with a go True show ?thesis by (auto simp: leave_queue_def Let_def)
  next
    case False
    show ?thesis
    proof (cases "\<exists>x d. sr_binding a = Some x \<and> claim = ClaimBusy d")
      case True
      then obtain x d where d: "sr_binding a = Some x" "claim = ClaimBusy d" by blast
      let ?b = "a\<lparr>sr_acquired := (g = Granted), sr_queued := False, sr_started := True\<rparr>"
      let ?e = "\<lparr>ev_run_id = rq_run_id (sr_request a), ev_sequence = 1, ev_timestamp = now,
                ev_synthetic = mf_synthetic (sc_manifest cfg),
                ev_payload = PRunFailed (dn_code d) (dn_message d)\<rparr>"
      let ?fs = "[EventF (sr_rpc a) ?e, RunF (sr_rpc a) (denied_result cfg (sr_request a) d)]"
      have e: "event_valid ?e"
        using claim d c by (simp add: event_valid_def denial_ok_def)
      have "wire_ok cfg (finish_served r ?b (deny_run cfg now (sr_rpc a) (sr_request a) d ?s))"
        by (rule finish_wire [OF ok a(1), where fs = ?fs])
          (use a(2) c W w(6) es e in \<open>auto simp: deny_run_def run_wire_def numbered_def
            denied_result_def run_result_valid_def verification_valid_def runner_verification_def
            run_result_consistent_def claims_last_def silent_def ev_kind_def\<close>)
      with a go False d show ?thesis by (auto simp: leave_queue_def Let_def)
    next
      case nb: False
      let ?b = "a\<lparr>sr_acquired := (g = Granted), sr_queued := False, sr_started := True\<rparr>"
      have silent: "wire_ok cfg (finish_served r ?b ?s)"
        by (rule end_silently [OF ok a(1)]) (use a(2) in auto)
      have eq: "leave_queue cfg now claim r s = finish_served r ?b ?s \<or>
          leave_queue cfg now claim r s = upd_run r (\<lambda>_. leaves g a) ?s"
        using a go False nb
        by (auto simp: leave_queue_def Let_def leaves_def split: option.splits root_claim.splits)
      have "wire_ok cfg (upd_run r (\<lambda>_. leaves g a) ?s)"
        by (rule quiet_run_wire [OF slotsD(1) [OF ok(1) [unfolded slot_ok_def]] ok(2) a(1),
              where f = "\<lambda>_. leaves g a"]) (simp_all add: leaves_def upd_run_key)
      with silent eq show ?thesis by auto
    qed
  qed
qed

lemma main_segment_wire:
  assumes ok: "slot_ok cfg s" "wire_ok cfg s" and a: "run_of s r = Some a"
    and f: "sr_rpc (f a) = sr_rpc a" "sr_request (f a) = sr_request a"
      "sr_binding (f a) = sr_binding a" "sr_consumer (f a) = sr_consumer a"
      "sr_events_seen (f a) = sr_events_seen a" "sr_last_sequence (f a) = sr_last_sequence a"
      "sr_terminal_kind (f a) = sr_terminal_kind a"
      "queueing (sr_main (f a)) \<longrightarrow> queueing (sr_main a)"
  shows "wire_ok cfg (upd_run r f s)"
  by (rule quiet_run_wire [where f = f, OF slotsD(1) [OF ok(1) [unfolded slot_ok_def]] ok(2) a f])
    (simp_all add: upd_run_key)

lemma deadline_fires_wire:
  "slot_ok cfg s \<Longrightarrow> wire_ok cfg s \<Longrightarrow> wire_ok cfg (deadline_fires r s)"
  unfolding deadline_fires_def by (auto split: option.splits intro!: main_segment_wire)

lemma driver_cancel_returns_wire:
  "slot_ok cfg s \<Longrightarrow> wire_ok cfg s \<Longrightarrow> wire_ok cfg (driver_cancel_returns b d r s)"
  unfolding driver_cancel_returns_def by (auto split: option.splits intro!: main_segment_wire)

section \<open>New requests and cancels\<close>

lemma fresh_at:
  assumes "fresh_rpc q s"
  shows "sent_events q (sv_out s) = []" "responses_of q (sv_out s) = []" "active_at s q = []"
    "ended_at s q = []" "q \<notin> set (sv_invoked s)" "q \<notin> fst ` set (sv_cancels s)"
  using assms no_frames [of q "sv_out s"]
  by (auto simp: fresh_rpc_def active_at_def ended_at_def all_served_def filter_empty_conv image_iff)

text \<open>Only frames, pending cancels and received requests change, at one id without a run.\<close>

lemma bare_step_wire:
  assumes ok: "wire_ok cfg s"
    and q: "sent_events q (sv_out s) = []" "responses_of q (sv_out s) = []" "active_at s q = []"
      "ended_at s q = []" "q \<notin> set (sv_invoked s)"
    and t: "sv_out t = sv_out s @ fs" "sv_active t = sv_active s" "sv_ended t = sv_ended s"
      "sv_invoked t = sv_invoked s" "fst ` set (sv_cancels t) - {q} = fst ` set (sv_cancels s) - {q}"
      "q \<in> fst ` set (sv_cancels t) \<Longrightarrow> fs = [] \<and> map_of (sv_requests t) q = None"
      "\<And>p. p \<noteq> q \<Longrightarrow> map_of (sv_requests t) p = map_of (sv_requests s) p"
    and fs: "\<forall>x\<in>set fs. frame_rpc x = q" "bare_wire (sent_events q fs) (responses_of q fs)"
      "request_at (map_of (sv_requests t) q) (sent_events q fs) (responses_of q fs) []"
      "answers_right (events_before q fs) (responses_of q fs)"
  shows "wire_ok cfg t"
proof (rule wire_ok_step [OF ok, of q])
  fix p assume p: "p \<noteq> q"
  with t(5) have "(p \<in> fst ` set (sv_cancels t)) = (p \<in> fst ` set (sv_cancels s))" by blast
  with p show "same_at s t p"
    using same_frames [OF fs(1), of p "sv_out s"] t by (simp add: same_at_def active_at_def ended_at_def)
next
  have "active_at t q = []" "ended_at t q = []"
    using q t by (simp_all add: active_at_def ended_at_def)
  with q t fs show "wire_of cfg t q"
    by (auto simp: wire_of_def events_before_append)
qed

text \<open>One answer to a fresh id; the request may be recorded with it.\<close>

lemma answer_wire:
  assumes ok: "wire_ok cfg s" and new: "fresh_rpc q s"
    and x: "frame_rpc x = q" "is_response x" "\<forall>res. x \<noteq> RunF q res"
      "map_of (sv_requests t) q = None \<or> run_answer x"
    and t: "sv_out t = sv_out s @ [x]" "sv_active t = sv_active s" "sv_ended t = sv_ended s"
      "sv_invoked t = sv_invoked s" "sv_cancels t = sv_cancels s"
      "\<And>p. p \<noteq> q \<Longrightarrow> map_of (sv_requests t) p = map_of (sv_requests s) p"
  shows "wire_ok cfg t"
proof (rule bare_step_wire [OF ok fresh_at(1-5) [OF new] t(1-4) _ _ t(6)])
  have no: "event_for q x = None"
    using x(2) by (cases x) auto
  with x show "bare_wire (sent_events q [x]) (responses_of q [x])"
    by (auto simp: bare_wire_def)
  show "request_at (map_of (sv_requests t) q) (sent_events q [x]) (responses_of q [x]) []"
    using no x by (cases "map_of (sv_requests t) q") auto
  show "answers_right (events_before q [x]) (responses_of q [x])"
    using x by (auto simp: answers_right_def)
qed (use x t fresh_at(6) [OF new] in simp_all)

lemma respond_wire:
  "wire_ok cfg s \<Longrightarrow> fresh_rpc q s \<Longrightarrow> frame_rpc x = q \<Longrightarrow> is_response x \<Longrightarrow> \<forall>res. x \<noteq> RunF q res \<Longrightarrow>
     wire_ok cfg (send x s)"
  by (rule answer_wire) (auto simp: fresh_rpc_def map_of_eq_None_iff)

lemma handle_simple_wire:
  assumes "wire_ok cfg s" "fresh_rpc q s"
  shows "wire_ok cfg (handle_simple cfg q m s)"
  using respond_wire [OF assms] wire_ok_quiet [OF respond_wire [OF assms, of "ShutdownF q (sc_instance_id cfg)"]]
  by (simp add: handle_simple_def)

lemma handle_driver_wire:
  assumes "wire_ok cfg s" "fresh_rpc q s"
  shows "wire_ok cfg (handle_probe q x s)" "wire_ok cfg (handle_discover q ms s)"
  using assms respond_wire [OF assms]
  by (auto simp: handle_probe_def handle_discover_def split: option.split)

lemma denied_wire:
  assumes "denial_ok d" "id_full (rq_run_id r)"
  shows "bare_wire [\<lparr>ev_run_id = rq_run_id r, ev_sequence = 1, ev_timestamp = now,
      ev_synthetic = mf_synthetic (sc_manifest cfg), ev_payload = PRunFailed (dn_code d) (dn_message d)\<rparr>]
    [RunF q (denied_result cfg r d)]"
  using assms by (auto simp: bare_wire_def numbered_def denied_result_def event_valid_def denial_ok_def
      result_wire_def run_result_valid_def verification_valid_def runner_verification_def
      run_result_consistent_def claims_last_def ev_kind_def)

lemma resolve_binding_denial: "resolve_binding cfg q = Inl d \<Longrightarrow> denial_ok d"
  by (auto simp: resolve_binding_def denial_ok_def split: option.splits if_splits)

lemma handle_run_wire:
  assumes ok: "wire_ok cfg s" and new: "fresh_rpc p s"
  shows "wire_ok cfg (handle_run cfg now p q s)"
proof -
  let ?s = "s\<lparr>sv_requests := (p, q) # sv_requests s\<rparr>"
  note fr = fresh_at [OF new]
  have answer: "wire_ok cfg (send (ErrorF p c b) ?s)" for c b
    by (rule answer_wire [OF ok new, of "ErrorF p c b"]) simp_all
  have dropped: "wire_ok cfg ?s"
    by (rule bare_step_wire [OF ok fr(1-5), where fs = "[]"]) (use fr(6) in \<open>simp_all add: bare_wire_def\<close>)
  have denied: "wire_ok cfg (deny_run cfg now p q d ?s)"
    if "id_full (rq_run_id q)" "denial_ok d" for d
    by (rule bare_step_wire [OF ok fr(1-5), where fs = "[EventF p \<lparr>ev_run_id = rq_run_id q,
            ev_sequence = 1, ev_timestamp = now, ev_synthetic = mf_synthetic (sc_manifest cfg),
            ev_payload = PRunFailed (dn_code d) (dn_message d)\<rparr>, RunF p (denied_result cfg q d)]"])
      (use denied_wire [OF that(2,1)] fr(6) in \<open>auto simp: deny_run_def denied_result_def
        claims_last_def ev_kind_def\<close>)
  have admitted: "wire_ok cfg (?s\<lparr>sv_active := sv_active s @ [(rq_run_id q, new_run p q b)],
               sv_queue_waiting := sv_queue_waiting s + 1\<rparr>)" (is "wire_ok cfg ?t")
    if "id_full (rq_run_id q)" "resolve_binding cfg q = Inr b" for b
  proof (rule wire_ok_step [OF ok, of p])
    show "same_at s ?t x" if "x \<noteq> p" for x
      using that by (simp add: same_at_def active_at_def ended_at_def new_run_def)
    have "active_at ?t p = [new_run p q b]" "ended_at ?t p = []"
      using fr(3,4) by (auto simp: active_at_def ended_at_def new_run_def)
    then show "wire_of cfg ?t p"
      using fr that by (auto simp: wire_of_def run_wire_def new_run_def)
  qed
  have "id_full (rq_run_id q)" if "normalized_valid q"
    using that by (simp add: normalized_valid_def request_common_valid_def)
  with answer dropped denied admitted resolve_binding_denial show ?thesis
    unfolding handle_run_def Let_def by (auto split: sum.split)
qed

text \<open>Cancels.\<close>

lemma pend_wire:
  assumes "wire_ok cfg s" "fresh_rpc q s"
  shows "wire_ok cfg (s\<lparr>sv_cancels := sv_cancels s @ [(q, w)]\<rparr>)"
  by (rule bare_step_wire [OF assms(1) fresh_at(1-5) [OF assms(2)], where fs = "[]"])
    (use assms(2) in \<open>auto simp: bare_wire_def fresh_rpc_def map_of_eq_None_iff [THEN iffD2]\<close>)

lemma fresh_upd_run:
  assumes "\<And>a. sr_rpc (f a) = sr_rpc a"
  shows "fresh_rpc q (upd_run r f s) = fresh_rpc q s"
proof -
  have "map sr_rpc (all_served (upd_run r f s)) = map sr_rpc (all_served s)"
    using assms by (simp add: all_served_def upd_run_def comp_def case_prod_beta)
  then have "sr_rpc ` set (all_served (upd_run r f s)) = sr_rpc ` set (all_served s)"
    by (metis list.set_map)
  then show ?thesis
    by (simp add: fresh_rpc_def upd_run_def)
qed

lemma handle_cancel_wire:
  assumes ok: "slot_ok cfg s" "wire_ok cfg s" and new: "fresh_rpc p s"
  shows "wire_ok cfg (handle_cancel cfg now p r s)"
proof (cases "\<exists>a. id_full r \<and> run_of s r = Some a")
  case False
  with respond_wire [OF ok(2) new] show ?thesis
    by (auto simp: handle_cancel_def split: option.splits)
next
  case True
  then obtain a where a: "id_full r" "run_of s r = Some a" by blast
  have "wire_ok cfg (upd_run r (\<lambda>a. a\<lparr>sr_cancel_before_start := True, sr_start_cancelled := True\<rparr>) s)"
    and "wire_ok cfg (upd_run r (\<lambda>a. a\<lparr>sr_cancel_token := True\<rparr>) s)"
    by (rule main_segment_wire [OF ok a(2)]; simp)+
  from pend_wire [OF this(1)] pend_wire [OF this(2)] new a show ?thesis
    by (simp add: handle_cancel_def fresh_upd_run) (simp add: upd_run_def)
qed

lemma cancel_driver_done_wire:
  assumes "wire_ok cfg s"
  shows "wire_ok cfg (cancel_driver_done p b d s)"
proof -
  have "fst ` (\<lambda>(k, w). (k, if k = p then c else w)) ` X = fst ` X"
    for X :: "(string \<times> pending_cancel) set" and c
    by (force simp: image_iff)
  with wire_ok_quiet [OF assms] assms show ?thesis
    by (auto simp: cancel_driver_done_def split: option.splits pending_cancel.splits)
qed

lemma cancel_waited_wire:
  assumes ok: "wire_ok cfg s"
  shows "wire_ok cfg (cancel_waited cfg asked now p r b s)"
proof (cases "map_of (sv_cancels s) p")
  case None
  with ok show ?thesis by (simp add: cancel_waited_def)
next
  case (Some w)
  then have "p \<in> fst ` set (sv_cancels s)"
    by (force dest: map_of_SomeD)
  moreover have "wire_of cfg s p"
    using ok by (simp add: wire_ok_def)
  ultimately have q: "sent_events p (sv_out s) = []" "responses_of p (sv_out s) = []"
    "active_at s p = []" "ended_at s p = []" "p \<notin> set (sv_invoked s)"
    and nr: "map_of (sv_requests s) p = None"
    by (auto simp: wire_of_def)
  have "wire_ok cfg (send (CancelF p c) (s\<lparr>sv_cancels := filter (\<lambda>(k, _). k \<noteq> p) (sv_cancels s)\<rparr>))" for c
    by (rule bare_step_wire [OF ok q, where fs = "[CancelF p c]"])
      (simp_all add: bare_wire_def request_at_response answers_right_def nr, force+)
  with Some ok show ?thesis
    by (auto simp: cancel_waited_def Let_def split: pending_cancel.splits option.splits)
qed

lemma cleanup_wire:
  assumes ok: "wire_ok cfg s"
  shows "wire_ok cfg (cleanup s)"
  unfolding wire_ok_def
proof
  fix q
  let ?g = "\<lambda>a::served. a\<lparr>sr_cancel_token := True, sr_start_cancelled := True\<rparr>"
  have act: "active_at (cleanup s) q = map ?g (active_at s q)"
    by (simp add: active_at_def cleanup_def filter_map comp_def case_prod_beta)
  have rw: "run_wire (?g a) es c = run_wire a es c" for a es c
  proof -
    have "silent (?g a) = silent a" by (simp add: silent_def)
    then show ?thesis by (cases "sr_consumer a") (simp_all add: run_wire_def split: option.split)
  qed
  have rest: "sv_out (cleanup s) = sv_out s" "ended_at (cleanup s) q = ended_at s q"
    "sv_invoked (cleanup s) = sv_invoked s" "sv_cancels (cleanup s) = sv_cancels s"
    "sv_requests (cleanup s) = sv_requests s"
    by (simp_all add: cleanup_def ended_at_def)
  have wire: "wire_of cfg s q"
    using ok by (simp add: wire_ok_def)
  show "wire_of cfg (cleanup s) q"
  proof (cases "active_at s q")
    case Nil
    with wire act rest show ?thesis by (simp add: wire_of_def)
  next
    case (Cons a as)
    then have "as = []" "ended_at s q = []"
      using wire unfolding wire_of_def by (auto elim!: wire_at.elims)
    with Cons wire act rest rw show ?thesis by (auto simp: wire_of_def)
  qed
qed

section \<open>Both invariants of every step\<close>

definition server_ok :: "server_config \<Rightarrow> server \<Rightarrow> bool" where
  "server_ok cfg s \<longleftrightarrow> slot_ok cfg s \<and> wire_ok cfg s"

lemma served_shape:
  assumes "server_ok cfg s" "served_of s q = Some a"
  shows "run_wire a (sent_events q (sv_out s)) (q \<in> set (sv_invoked s))"
  using assms served_run_wire by (auto simp: server_ok_def)

lemma rpc_unique:
  assumes "wire_ok cfg s" "served_of s q = Some a" "b \<in> set (all_served s)" "sr_rpc b = q"
  shows "b = a"
proof -
  from assms(3,4) have "b \<in> set (active_at s q) \<union> set (ended_at s q)"
    by (auto simp: all_served_def active_at_def ended_at_def)
  with served_of_cases [OF assms(1,2)] show ?thesis by auto
qed

lemma slot_ok_consumer:
  assumes "server_ok cfg s" "served_of s q = Some a" "same_slot a (f a)"
    "sv_active t = sv_active s" "sv_ended t = sv_ended s" "sv_line t = sv_line s"
    "sv_slot_taken t = sv_slot_taken s" "sv_queue_waiting t = sv_queue_waiting s"
    "sv_stopping t = sv_stopping s"
  shows "slot_ok cfg (upd_served q f t)"
proof -
  have "slot_ok cfg (upd_served q f s)"
    by (rule slot_ok_upd_served)
      (use assms(1,3) rpc_unique [OF _ assms(2)] in \<open>auto simp: server_ok_def\<close>)
  then show ?thesis
    by (rule slot_ok_same) (use assms(4-) in \<open>simp_all add: upd_served_def\<close>)
qed

lemma consumer_segments_slot:
  assumes ok: "server_ok cfg s"
  shows "slot_ok cfg (start_consumer raises q s)" "slot_ok cfg (driver_event b e q s)"
    "slot_ok cfg (driver_over v q s)" "slot_ok cfg (close_iterator cfg q s)"
    "slot_ok cfg (consumer_stops q s)"
proof -
  have s: "slot_ok cfg s"
    using ok by (simp add: server_ok_def)
  note w = run_wireD(4) [OF served_shape [OF ok]]
  show "slot_ok cfg (start_consumer raises q s)"
    using s by (cases raises) (auto simp: start_consumer_def same_slot_def split: option.splits
        intro!: slot_ok_consumer [OF ok])
  show "slot_ok cfg (driver_event b e q s)"
    using s w by (auto simp: driver_event_def same_slot_def Let_def split: option.splits consumer.splits
        intro!: slot_ok_consumer [OF ok])
  show "slot_ok cfg (driver_over v q s)"
    using s w by (auto simp: driver_over_def same_slot_def split: option.splits consumer.splits
        intro!: slot_ok_consumer [OF ok])
  show "slot_ok cfg (close_iterator cfg q s)"
    using s w by (auto simp: close_iterator_def same_slot_def split: option.splits consumer.splits
        intro!: slot_ok_consumer [OF ok])
  have "\<not> queueing m" if "stop_asked m" for m
    using that by (cases m) auto
  then show "slot_ok cfg (consumer_stops q s)"
    using s by (auto simp: consumer_stops_def same_slot_def split: option.splits consumer.splits
        intro!: slot_ok_consumer [OF ok])
qed

lemma late_end_slot:
  assumes ok: "slot_ok cfg s" and a: "run_of s r = Some a" "\<not> queueing (sr_main a)"
    and b: "sr_acquired b = sr_acquired a" and t: "t = s \<or> t = send x s"
  shows "slot_ok cfg (finish_served r b t)"
proof (rule finish_slot_ok [OF ok a(1)])
  note D = slotsD [OF ok [unfolded slot_ok_def]]
  have "r \<notin> set (sv_line s)"
    unfolding D(5) using slot_ok_run_of [OF ok] a by (fastforce simp: in_line_def)
  with t show "sv_line t = removeAll r (sv_line s)" by auto
  show "sr_acquired b = holds_slot a"
    using a(2) b by (auto simp: holds_slot_def)
qed (use a(2) t in auto)

lemma answer_exception_cases: "answer_exception os p s = s \<or> answer_exception os p s = send (ErrorF p InternalErrorRpc False) s"
  by (simp add: answer_exception_def)

lemma request_segments_slot:
  assumes ok: "slot_ok cfg s"
  shows "slot_ok cfg (consumer_awaited r s)" "slot_ok cfg (deadline_fires r s)"
    "slot_ok cfg (driver_cancel_returns b d r s)" "slot_ok cfg (driver_cancel_raises os r s)"
    "slot_ok cfg (stop_awaited cfg b r s)"
proof -
  have late: "slot_ok cfg (finish_served r b (send x s))" "slot_ok cfg (finish_served r b (answer_exception os p s))"
    if "run_of s r = Some a" "\<not> queueing (sr_main a)" "sr_acquired b = sr_acquired a" for a b x p os
    using late_end_slot [OF ok that] answer_exception_cases [of os p s] by blast+
  show "slot_ok cfg (consumer_awaited r s)"
    using ok late
    by (auto simp: consumer_awaited_def split: option.splits consumer.splits)
  show "slot_ok cfg (deadline_fires r s)"
    using ok by (auto simp: deadline_fires_def run_shape_def holds_slot_def in_line_def before_cleanup_def
        split: option.splits intro!: slot_ok_upd_run [OF ok])
  show "slot_ok cfg (driver_cancel_returns b d r s)"
    using ok by (auto simp: driver_cancel_returns_def run_shape_def holds_slot_def in_line_def
        before_cleanup_def split: option.splits intro!: slot_ok_upd_run [OF ok])
  show "slot_ok cfg (driver_cancel_raises os r s)"
    using ok late
    by (auto simp: driver_cancel_raises_def split: option.splits)
  show "slot_ok cfg (stop_awaited cfg b r s)"
    using ok late
    by (auto simp: stop_awaited_def Let_def split: option.splits main.splits)
qed

lemma other_segments_slot:
  assumes ok: "slot_ok cfg s"
  shows "slot_ok cfg (handle_simple cfg p m s)" "slot_ok cfg (handle_probe p y s)"
    "slot_ok cfg (handle_discover p ms s)" "slot_ok cfg (handle_cancel cfg now p r s)"
    "slot_ok cfg (cancel_driver_done p b d s)" "slot_ok cfg (cancel_waited cfg asked now p r b s)"
proof -
  note same = slot_ok_same [OF ok]
  show "slot_ok cfg (handle_simple cfg p m s)"
    using ok by (auto simp: handle_simple_def intro!: same)
  show "slot_ok cfg (handle_probe p y s)" "slot_ok cfg (handle_discover p ms s)"
    using ok by (simp_all add: handle_probe_def handle_discover_def split: option.split)
  have "slot_ok cfg (upd_run r (\<lambda>a. a\<lparr>sr_cancel_before_start := True, sr_start_cancelled := True\<rparr>) s)"
    and "slot_ok cfg (upd_run r (\<lambda>a. a\<lparr>sr_cancel_token := True\<rparr>) s)" if "run_of s r = Some a" for a
    by (rule slot_ok_upd_run [OF ok that];
        auto simp: run_shape_def holds_slot_def in_line_def before_cleanup_def)+
  then have "slot_ok cfg (upd_run r (\<lambda>a. a\<lparr>sr_cancel_before_start := True, sr_start_cancelled := True\<rparr>) s
        \<lparr>sv_cancels := x\<rparr>)"
    and "slot_ok cfg (upd_run r (\<lambda>a. a\<lparr>sr_cancel_token := True\<rparr>) s\<lparr>sv_cancels := x\<rparr>)"
    if "run_of s r = Some a" for a x
    using that by (auto intro: slot_ok_same)
  with ok show "slot_ok cfg (handle_cancel cfg now p r s)"
    by (auto simp: handle_cancel_def upd_run_def split: option.splits)
  show "slot_ok cfg (cancel_driver_done p b d s)"
    using ok by (auto simp: cancel_driver_done_def split: option.splits pending_cancel.splits intro!: same)
  show "slot_ok cfg (cancel_waited cfg asked now p r b s)"
    using ok by (auto simp: cancel_waited_def Let_def split: option.splits pending_cancel.splits intro!: same)
qed

lemma cleanup_slot:
  assumes "slot_ok cfg s" "sv_stopping s"
  shows "slot_ok cfg (cleanup s)"
  by (rule slot_ok_map [OF assms(1), where g = "\<lambda>k a. a\<lparr>sr_cancel_token := True, sr_start_cancelled := True\<rparr>"])
    (use assms(2) in \<open>auto simp: cleanup_def run_shape_def holds_slot_def in_line_def\<close>)

lemma server_step_ok [inv_preserved]:
  assumes "server_step cfg s t" "server_ok cfg s"
  shows "server_ok cfg t"
proof -
  have ok: "slot_ok cfg s" "wire_ok cfg s"
    using assms(2) by (simp_all add: server_ok_def)
  have ids: "id_full (rq_run_id (sr_request a))" if "served_of s q = Some a" for q a
    using run_wireD(6) [OF served_run_wire [OF ok(2) that]] .
  from assms(1) show ?thesis
    unfolding server_ok_def
    by cases (use ok ids in \<open>simp_all add: handle_run_slot handle_run_wire handle_simple_wire
      handle_driver_wire
      handle_cancel_wire cancel_driver_done_wire cancel_waited_wire ask_slot_ok
      ask_slot_wire [OF slotsD(1) [OF ok(1) [unfolded slot_ok_def]] ok(2)]
      leave_queue_ok leave_queue_wire consumer_segments_slot [OF assms(2)] start_consumer_wire
      driver_event_wire driver_over_wire close_iterator_wire consumer_stops_wire
      request_segments_slot other_segments_slot cleanup_slot cleanup_wire consumer_awaited_wire
      deadline_fires_wire driver_cancel_returns_wire driver_cancel_raises_wire stop_awaited_wire\<close>)
qed

interpretation runner_server: invariant_system "server_step cfg" "server_ok cfg"
  by unfold_locales (rule server_step_ok)

definition server_reachable :: "server_config \<Rightarrow> server \<Rightarrow> bool" where
  "server_reachable cfg s \<longleftrightarrow> (server_step cfg)\<^sup>*\<^sup>* initial_server s"

lemma reachable_server: "server_reachable cfg s \<Longrightarrow> server_ok cfg s"
  unfolding server_reachable_def
  by (erule runner_server.steps_inv) (simp add: server_ok_def slot_ok_initial wire_ok_initial)

end
