(* ===== verification/RunnerSession.thy ===== *)
theory RunnerSession
  imports RunnerServer Ndjson Errors
begin

text \<open>
  The core's side of the Runner socket (\<^verbatim>\<open>core/runner.py\<close>, over \<^verbatim>\<open>client.py\<close>): what the validated
  session makes of each thing \<^verbatim>\<open>recv\<close> returns. A received object is a version, which \<^verbatim>\<open>int\<close> may
  refuse (\<open>None\<close>), and a body that did or did not parse as an envelope.
\<close>

section \<open>What is received\<close>

datatype rpc_result =
    GotManifest driver_manifest | GotProbe probe_report | GotModels "model_descriptor reply list"
  | GotRuntime runner_runtime | GotRun run_result | GotCancel cancel_reply | GotOther

record rpc_response =
  rp_id :: string
  rp_ok :: bool
  rp_result :: "rpc_result option"
  rp_error :: "(string \<times> bool) option"

datatype frame_body = BEvent "(string \<times> run_event) option" | BResponse "rpc_response option" | BOther

datatype received =
    RecvTimeout | RecvClosed | RecvRaises frame_error | RecvFrame "int option" frame_body

fun frame_exn :: "frame_error \<Rightarrow> core_error" where
  "frame_exn FrameTooLarge = EInternal ''FrameTooLarge''"
| "frame_exn MalformedFrame = EInternal ''MalformedFrame''"

definition protocol_version :: int where
  "protocol_version = 1"

definition check_version :: "int option \<Rightarrow> core_error + unit" where
  "check_version v =
     (case v of
        None \<Rightarrow> Inl (EInternal ''ValueError'')
      | Some n \<Rightarrow> guardE (n = protocol_version) EUpstreamProtocol)"

lemma check_version_current [simp]: "check_version (Some protocol_version) = Inr ()"
  by (simp add: check_version_def guardE_def)

section \<open>Control calls\<close>

text \<open>\<^verbatim>\<open>_request\<close>, after the request \<open>rid\<close> was sent: the first frame decides.\<close>

definition session_request :: "string \<Rightarrow> received \<Rightarrow> core_error + rpc_result" where
  "session_request rid x =
     (case x of
        RecvTimeout \<Rightarrow> Inl EUpstreamProtocol
      | RecvClosed \<Rightarrow> Inl EUpstreamProtocol
      | RecvRaises e \<Rightarrow> Inl (frame_exn e)
      | RecvFrame v body \<Rightarrow>
          bindE (check_version v) (\<lambda>_.
          case body of
            BResponse None \<Rightarrow> Inl (EInternal ''ValidationError'')
          | BResponse (Some r) \<Rightarrow>
              if rp_id r \<noteq> rid then Inl EUpstreamProtocol
              else if \<not> rp_ok r then Inl EUpstreamProtocol
              else Inr (case rp_result r of None \<Rightarrow> GotOther | Some d \<Rightarrow> d)
          | _ \<Rightarrow> Inl EUpstreamProtocol))"

definition session_manifest :: "string \<Rightarrow> received \<Rightarrow> core_error + driver_manifest" where
  "session_manifest rid x = bindE (session_request rid x) (\<lambda>d.
     case d of GotManifest m \<Rightarrow> if manifest_valid m then Inr m else Inl EUpstreamProtocol
     | _ \<Rightarrow> Inl EUpstreamProtocol)"

definition session_probe :: "string \<Rightarrow> received \<Rightarrow> core_error + probe_report" where
  "session_probe rid x = bindE (session_request rid x) (\<lambda>d.
     case d of GotProbe p \<Rightarrow> if probe_valid p then Inr p else Inl EUpstreamProtocol
     | _ \<Rightarrow> Inl EUpstreamProtocol)"

fun validated_models :: "model_descriptor reply list \<Rightarrow> core_error + model_descriptor list" where
  "validated_models [] = Inr []"
| "validated_models (Reply m # ms) =
     (if descriptor_valid m then bindE (validated_models ms) (\<lambda>rest. Inr (m # rest))
      else Inl EUpstreamProtocol)"
| "validated_models (_ # ms) = Inl EUpstreamProtocol"

definition session_models :: "string \<Rightarrow> received \<Rightarrow> core_error + model_descriptor list" where
  "session_models rid x = bindE (session_request rid x) (\<lambda>d.
     case d of GotModels ms \<Rightarrow> validated_models ms | _ \<Rightarrow> Inl EUpstreamProtocol)"

definition session_runtime :: "string \<Rightarrow> received \<Rightarrow> core_error + runner_runtime" where
  "session_runtime rid x = bindE (session_request rid x) (\<lambda>d.
     case d of GotRuntime r \<Rightarrow> if runtime_valid r then Inr r else Inl EUpstreamProtocol
     | _ \<Rightarrow> Inl EUpstreamProtocol)"

definition cancel_reply_valid :: "cancel_reply \<Rightarrow> bool" where
  "cancel_reply_valid c \<longleftrightarrow> id_full (cx_run_id c) \<and> 0 < cx_deadline c"

definition session_cancel :: "string \<Rightarrow> received \<Rightarrow> core_error + cancel_reply" where
  "session_cancel rid x = bindE (session_request rid x) (\<lambda>d.
     case d of GotCancel c \<Rightarrow> if cancel_reply_valid c then Inr c else Inl (EInternal ''ValidationError'')
     | _ \<Rightarrow> Inl (EInternal ''ValidationError''))"

section \<open>A streamed run\<close>

definition default_run_frame_seconds :: rat where
  "default_run_frame_seconds = 60"

definition run_recv_timeout :: "rat option \<Rightarrow> rat option \<Rightarrow> rat" where
  "run_recv_timeout override_seconds declared =
     (case override_seconds of
        Some t \<Rightarrow> t
      | None \<Rightarrow>
        (case declared of
           None \<Rightarrow> default_run_frame_seconds
         | Some d \<Rightarrow> if d = 0 then default_run_frame_seconds else d) + 5)"

datatype run_end = RunOpen | RunDone run_result | RunRaises core_error

datatype turn = Yields run_event | Ends run_end

text \<open>The response frame of a run.\<close>

definition run_response :: "string \<Rightarrow> bool \<Rightarrow> rpc_response option \<Rightarrow> run_end" where
  "run_response rid saw_event body =
     (case body of
        None \<Rightarrow> RunRaises EUpstreamProtocol
      | Some r \<Rightarrow>
        if rp_id r \<noteq> rid then RunRaises EUpstreamProtocol
        else if \<not> rp_ok r
        then (let (code, retryable) = (case rp_error r of None \<Rightarrow> (''unknown'', False) | Some e \<Rightarrow> e)
              in RunRaises (ERunnerRunRejected code retryable (\<not> saw_event)))
        else (case rp_result r of
                Some (GotRun res) \<Rightarrow>
                  if run_result_valid res then RunDone res else RunRaises (EInternal ''ValidationError'')
              | _ \<Rightarrow> RunRaises (EInternal ''ValidationError'')))"

text \<open>One pass of the loop of \<^verbatim>\<open>run\<close>.\<close>

definition run_turn :: "string \<Rightarrow> string \<Rightarrow> nat \<Rightarrow> bool \<Rightarrow> received \<Rightarrow> turn" where
  "run_turn rid run_id expected saw_event x =
     (case x of
        RecvTimeout \<Rightarrow> Ends (RunRaises EUpstreamProtocol)
      | RecvClosed \<Rightarrow> Ends (RunRaises EUpstreamProtocol)
      | RecvRaises e \<Rightarrow> Ends (RunRaises (frame_exn e))
      | RecvFrame v body \<Rightarrow>
        (case check_version v of
           Inl e \<Rightarrow> Ends (RunRaises e)
         | Inr _ \<Rightarrow>
           (case body of
              BEvent None \<Rightarrow> Ends (RunRaises EUpstreamProtocol)
            | BEvent (Some (q, e)) \<Rightarrow>
                if \<not> event_valid e \<or> q \<noteq> rid \<or> ev_run_id e \<noteq> run_id \<or> ev_sequence e \<noteq> expected
                then Ends (RunRaises EUpstreamProtocol) else Yields e
            | BResponse r \<Rightarrow> Ends (run_response rid saw_event r)
            | BOther \<Rightarrow> Ends (RunRaises EUpstreamProtocol))))"

text \<open>The events the generator yields, and how it ends; \<open>RunOpen\<close> when it still waits.\<close>

fun session_run :: "string \<Rightarrow> string \<Rightarrow> nat \<Rightarrow> bool \<Rightarrow> received list \<Rightarrow> run_event list \<times> run_end" where
  "session_run rid run_id expected saw_event [] = ([], RunOpen)"
| "session_run rid run_id expected saw_event (x # xs) =
     (case run_turn rid run_id expected saw_event x of
        Ends r \<Rightarrow> ([], r)
      | Yields e \<Rightarrow> (case session_run rid run_id (expected + 1) True xs of (es, r) \<Rightarrow> (e # es, r)))"

section \<open>The frames of the Runner process, as received\<close>

text \<open>\<^verbatim>\<open>_send_response\<close>, \<^verbatim>\<open>_send_error\<close> and the event envelopes.\<close>

definition ok_response :: "string \<Rightarrow> rpc_result \<Rightarrow> received" where
  "ok_response q d = RecvFrame (Some protocol_version)
     (BResponse (Some \<lparr>rp_id = q, rp_ok = True, rp_result = Some d, rp_error = None\<rparr>))"

definition error_response :: "string \<Rightarrow> string \<Rightarrow> bool \<Rightarrow> received" where
  "error_response q code retryable = RecvFrame (Some protocol_version)
     (BResponse (Some \<lparr>rp_id = q, rp_ok = False, rp_result = None, rp_error = Some (code, retryable)\<rparr>))"

fun delivered :: "frame \<Rightarrow> received" where
  "delivered (EventF q e) = RecvFrame (Some protocol_version) (BEvent (Some (q, e)))"
| "delivered (RunF q res) = ok_response q (GotRun res)"
| "delivered (CancelF q c) = ok_response q (GotCancel c)"
| "delivered (ManifestF q m) = ok_response q (GotManifest m)"
| "delivered (ProbeF q p) = ok_response q (GotProbe p)"
| "delivered (ModelsF q ms) = ok_response q (GotModels (map Reply ms))"
| "delivered (RuntimeF q r) = ok_response q (GotRuntime r)"
| "delivered (ShutdownF q i) = ok_response q GotOther"
| "delivered (ErrorF q c retryable) = error_response q (rpc_code_text c) retryable"

section \<open>What a session guarantees whatever it receives\<close>

text \<open>The events of a session are of its run and numbered from where it started.\<close>

lemma run_turn_Yields:
  "run_turn rid run_id n saw x = Yields e \<Longrightarrow>
     event_valid e \<and> ev_run_id e = run_id \<and> ev_sequence e = n"
  by (auto simp: run_turn_def split: received.splits sum.splits frame_body.splits option.splits if_splits)

lemma session_run_numbered:
  "session_run rid run_id n saw xs = (es, r) \<Longrightarrow>
     map ev_sequence es = [n..<n + length es] \<and> (\<forall>e\<in>set es. event_valid e \<and> ev_run_id e = run_id)"
proof (induction xs arbitrary: n saw es)
  case (Cons x xs)
  show ?case
  proof (cases "run_turn rid run_id n saw x")
    case (Yields e)
    with Cons.prems obtain fs where fs: "session_run rid run_id (n + 1) True xs = (fs, r)" "es = e # fs"
      by (auto split: prod.splits)
    have "[n..<n + length es] = n # [n + 1..<n + 1 + length fs]"
      using fs(2) by (simp add: upt_conv_Cons del: upt_Suc)
    with Cons.IH [OF fs(1)] run_turn_Yields [OF Yields] fs(2) show ?thesis
      by (simp del: upt_Suc)
  qed (use Cons.prems in simp)
qed simp

lemma run_turn_refusal:
  "run_turn rid run_id n saw x = Ends (RunRaises (ERunnerRunRejected code retryable pre)) \<Longrightarrow>
     pre = (\<not> saw)"
  by (auto simp: run_turn_def run_response_def check_version_def guardE_def Let_def
      split: received.splits sum.splits frame_body.splits option.splits if_splits rpc_result.splits
        frame_error.splits prod.splits elim!: frame_exn.elims)

lemma session_run_refusal:
  "session_run rid run_id n saw xs = (es, RunRaises (ERunnerRunRejected code retryable pre)) \<Longrightarrow>
     pre = (\<not> saw \<and> es = [])"
proof (induction xs arbitrary: n saw es)
  case (Cons x xs)
  show ?case
  proof (cases "run_turn rid run_id n saw x")
    case (Yields e)
    with Cons.prems obtain fs where
      "session_run rid run_id (n + 1) True xs = (fs, RunRaises (ERunnerRunRejected code retryable pre))"
      "es = e # fs" by (auto split: prod.splits)
    with Cons.IH show ?thesis by fastforce
  next
    case (Ends r)
    with Cons.prems run_turn_refusal show ?thesis by auto
  qed
qed simp

lemma session_run_result:
  "session_run rid run_id n saw xs = (es, RunDone res) \<Longrightarrow> run_result_valid res"
proof (induction xs arbitrary: n saw es)
  case (Cons x xs)
  then show ?case
    by (auto simp: run_turn_def run_response_def Let_def split: prod.splits turn.splits received.splits
        sum.splits frame_body.splits option.splits if_splits rpc_result.splits)
qed simp

end
