(* ===== verification/RunnerClaims.thy ===== *)
theory RunnerClaims
  imports RunnerServerWire RunnerSession
begin

text \<open>
  The properties of the Runner process over every state its segments can reach, and of the process
  and the core's session together, each with its witness on a concrete run.
\<close>

section \<open>The session reads what the process writes\<close>

text \<open>How a run ends for the session that receives its first response.\<close>

fun received_end :: "bool \<Rightarrow> frame list \<Rightarrow> run_end" where
  "received_end saw [] = RunOpen"
| "received_end saw (RunF q res # rs) =
     (if run_result_valid res then RunDone res else RunRaises (EInternal ''ValidationError''))"
| "received_end saw (ErrorF q c b # rs) = RunRaises (ERunnerRunRejected (rpc_code_text c) b (\<not> saw))"
| "received_end saw (_ # rs) = RunRaises (EInternal ''ValidationError'')"

lemma session_reads:
  assumes "\<forall>f\<in>set fs. frame_rpc f = q"
    and "map ev_sequence (events_before q fs) = [n..<n + length (events_before q fs)]"
    and "\<forall>e\<in>set (events_before q fs). event_valid e \<and> ev_run_id e = r"
  shows "session_run q r n saw (map delivered fs) =
    (events_before q fs, received_end (saw \<or> events_before q fs \<noteq> []) (responses_of q fs))"
  using assms
proof (induction fs arbitrary: n saw)
  case (Cons f fs)
  show ?case
  proof (cases "is_response f")
    case True
    then show ?thesis
      using Cons.prems(1)
      by (cases f) (simp_all add: run_turn_def run_response_def ok_response_def error_response_def)
  next
    case False
    then obtain e where f: "f = EventF q e"
      using Cons.prems(1) by (cases f) auto
    let ?es = "events_before q fs"
    have "[n..<n + Suc (length ?es)] = n # [Suc n..<Suc n + length ?es]"
      by (simp add: upt_conv_Cons del: upt_Suc)
    with Cons.prems f have e: "ev_sequence e = n" "event_valid e" "ev_run_id e = r"
      "map ev_sequence ?es = [Suc n..<Suc n + length ?es]"
      by (simp_all del: upt_Suc)
    have "session_run q r (Suc n) True (map delivered fs) = (?es, received_end True (responses_of q fs))"
      using Cons.IH [of "Suc n" True] Cons.prems(1,3) e(4) f by simp
    with e f show ?thesis
      by (simp add: run_turn_def)
  qed
qed simp

lemma frames_filter:
  "events_before q (filter (\<lambda>f. frame_rpc f = q) fs) = events_before q fs"
  "responses_of q (filter (\<lambda>f. frame_rpc f = q) fs) = responses_of q fs"
  by (induction fs) (auto simp: event_for_rpc split: option.split)

lemma sent_events_filter: "sent_events q (filter (\<lambda>f. frame_rpc f = q) fs) = sent_events q fs"
  by (induction fs) (auto simp: event_for_rpc split: option.split)

lemma numbered_prefix: "numbered r (xs @ ys) \<Longrightarrow> numbered r xs"
proof (induction ys rule: rev_induct)
  case (snoc y ys)
  then show ?case using numbered_snoc [of r "xs @ ys" y] by simp
qed simp

lemma events_before_prefix: "\<exists>ys. sent_events q fs = events_before q fs @ ys"
  by (induction fs) (auto split: option.split)

text \<open>What the invariant says of a request that was received.\<close>

lemma answers_rightD: "answers_right es rs \<Longrightarrow> RunF q res \<in> set rs \<Longrightarrow> claims_last es res"
  by (auto simp: answers_right_def)

lemma received_wire:
  assumes "wire_ok cfg s" "map_of (sv_requests s) q = Some p"
  shows "numbered (rq_run_id p) (sent_events q (sv_out s))"
    and "length (responses_of q (sv_out s)) \<le> 1"
    and "RunF x res \<in> set (responses_of q (sv_out s)) \<Longrightarrow>
      result_wire (rq_run_id p) (events_before q (sv_out s)) res"
proof -
  let ?es = "sent_events q (sv_out s)" and ?rs = "responses_of q (sv_out s)"
  have w: "wire_of cfg s q"
    using assms(1) by (simp add: wire_ok_def)
  then have at: "wire_at cfg ?es ?rs (active_at s q) (ended_at s q) (q \<in> set (sv_invoked s))"
    and rq: "request_at (Some p) ?es ?rs (active_at s q @ ended_at s q)"
    and ans: "answers_right (events_before q (sv_out s)) ?rs"
    using assms(2) by (simp_all add: wire_of_def)
  have "numbered (rq_run_id p) ?es \<and> length ?rs \<le> 1 \<and>
      (\<forall>x res. RunF x res \<in> set ?rs \<longrightarrow> run_result_valid res \<and> rr_run_id res = rq_run_id p)"
  proof (cases "active_at s q @ ended_at s q")
    case Nil
    then have bare: "bare_wire ?es ?rs"
      using at by simp
    have ids: "\<forall>e\<in>set ?es. ev_run_id e = rq_run_id p"
      "RunF x res \<in> set ?rs \<Longrightarrow> rr_run_id res = rq_run_id p" for x res
      using Nil rq by auto
    from bare show ?thesis
      unfolding bare_wire_def
    proof (elim disjE exE conjE)
      fix e x res assume "?es = [e]" "?rs = [RunF x res]" "numbered (rr_run_id res) ?es"
        "result_wire (rr_run_id res) ?es res"
      with ids(2) [of x res] show ?thesis by (auto simp: result_wire_def)
    qed auto
  next
    case (Cons a as)
    then have "sr_request a = p"
      using rq by simp
    with Cons at show ?thesis
      by (elim wire_at.elims) (auto dest: run_wireD(1))
  qed
  then show "numbered (rq_run_id p) ?es" "length ?rs \<le> 1"
    "RunF x res \<in> set ?rs \<Longrightarrow> result_wire (rq_run_id p) (events_before q (sv_out s)) res"
    using answers_rightD [OF ans] by (auto simp: result_wire_def)
qed

lemma run_responses:
  assumes "wire_ok cfg s" "map_of (sv_requests s) q = Some p" "f \<in> set (responses_of q (sv_out s))"
  shows "run_answer f"
proof -
  let ?es = "sent_events q (sv_out s)" and ?rs = "responses_of q (sv_out s)"
  have "wire_of cfg s q"
    using assms(1) by (simp add: wire_ok_def)
  then have at: "wire_at cfg ?es ?rs (active_at s q) (ended_at s q) (q \<in> set (sv_invoked s))"
    and rq: "request_at (Some p) ?es ?rs (active_at s q @ ended_at s q)"
    using assms(2) by (simp_all add: wire_of_def)
  show ?thesis
  proof (cases "active_at s q @ ended_at s q")
    case Nil
    with rq assms(3) show ?thesis by simp
  next
    case (Cons a as)
    with at assms(3) show ?thesis
      by (elim wire_at.elims) (auto elim!: run_response_ok.elims)
  qed
qed

lemma refused_unserved:
  assumes "wire_of cfg s q" "ErrorF q c b \<in> set (responses_of q (sv_out s))" "c \<noteq> InternalErrorRpc"
  shows "q \<notin> set (sv_invoked s) \<and> sent_events q (sv_out s) = []"
proof -
  have "active_at s q @ ended_at s q = []"
    using assms unfolding wire_of_def by (elim conjE wire_at.elims) auto
  with assms show ?thesis
    by (auto simp: wire_of_def bare_wire_def)
qed

lemma invoked_admitted:
  assumes "wire_of cfg s q" "q \<in> set (sv_invoked s)"
  shows "\<exists>p b. map_of (sv_requests s) q = Some p \<and> resolve_binding cfg p = Inr b"
proof -
  obtain a where a: "active_at s q @ ended_at s q = [a]" "resolve_binding cfg (sr_request a) = Inr (sr_binding a)"
    using assms unfolding wire_of_def by (elim conjE wire_at.elims) auto
  then have "map_of (sv_requests s) q = Some (sr_request a)"
    using assms(1) by (simp add: wire_of_def)
  with a(2) show ?thesis by blast
qed

lemma resolve_binding_admits:
  assumes "resolve_binding cfg p = Inr b"
  shows "case sc_execution cfg of
       None \<Rightarrow> mf_synthetic (sc_manifest cfg)
     | Some x \<Rightarrow> \<exists>w. binding_for x (rq_workspace_id p) = Some w \<and>
         (\<forall>ps. wb_presets w = Some ps \<longrightarrow> rq_preset p \<in> set ps) \<and>
         (\<forall>ms m. wb_models w = Some ms \<longrightarrow> rq_model_alias p = Some m \<longrightarrow> m \<in> set ms) \<and>
         (\<forall>ms t. wb_models w = Some ms \<longrightarrow> rq_resolved_model p = Some t \<longrightarrow>
            rq_model_alias p \<noteq> Some t \<longrightarrow> t \<in> set ms)"
  using assms by (auto simp: resolve_binding_def split: option.splits if_splits)

section \<open>Sample runs of the process\<close>

datatype server_action =
    DoRun nat string run_request | DoAsk string | DoLeave nat root_claim string | DoStart string
  | DoDriverEvent run_event string | DoStreamOver string | DoIteratorClosed string | DoAwait string
  | DoDeadline string | DoCancelRaises string | DoShutdown string | DoCleanup

fun serve_action :: "server_config \<Rightarrow> server_action \<Rightarrow> server \<Rightarrow> server" where
  "serve_action cfg (DoRun now p q) s = (if fresh_rpc p s then handle_run cfg now p q s else s)"
| "serve_action cfg (DoAsk r) s = ask_slot r s"
| "serve_action cfg (DoLeave now claim r) s = (if claim_ok claim then leave_queue cfg now claim r s else s)"
| "serve_action cfg (DoStart q) s = start_consumer None q s"
| "serve_action cfg (DoDriverEvent e q) s = (if event_valid e then driver_event True e q s else s)"
| "serve_action cfg (DoStreamOver q) s = driver_over None q s"
| "serve_action cfg (DoIteratorClosed q) s = close_iterator cfg q s"
| "serve_action cfg (DoAwait r) s = consumer_awaited r s"
| "serve_action cfg (DoDeadline r) s = deadline_fires r s"
| "serve_action cfg (DoCancelRaises r) s = driver_cancel_raises False r s"
| "serve_action cfg (DoShutdown p) s =
     (if fresh_rpc p s then handle_simple cfg p (method_text MShutdown) s else s)"
| "serve_action cfg DoCleanup s = (if sv_stopping s then cleanup s else s)"

definition serve_run :: "server_config \<Rightarrow> server_action list \<Rightarrow> server" where
  "serve_run cfg xs = fold (serve_action cfg) xs initial_server"

lemma serve_action_step: "(server_step cfg)\<^sup>*\<^sup>* s (serve_action cfg x s)"
  by (cases x) (auto intro!: r_into_rtranclp intro: server_step.intros)

lemma serve_run_reachable: "server_reachable cfg (serve_run cfg xs)"
proof -
  have "(server_step cfg)\<^sup>*\<^sup>* s (fold (serve_action cfg) xs s)" for s
  proof (induction xs arbitrary: s)
    case (Cons x xs)
    show ?case
      using rtranclp_trans [OF serve_action_step [of cfg s x] Cons.IH [of "serve_action cfg x s"]] by simp
  qed simp
  then show ?thesis by (simp add: server_reachable_def serve_run_def)
qed

definition sample_server_config :: server_config where
  "sample_server_config = \<lparr>sc_instance_id = ''r1'',
     sc_manifest = \<lparr>mf_driver_id = ''mock'', mf_name = ''mock'', mf_version = ''1'',
       mf_sdk_version = ''1.0'', mf_protocol_family = ''x'', mf_transports = [Stdio],
       mf_synthetic = False\<rparr>,
     sc_max_queue = 1, sc_cancel_deadline = 5, sc_max_run_seconds = 300,
     sc_execution = Some sample_execution\<rparr>"

definition sample_request :: "string \<Rightarrow> run_request" where
  "sample_request r = \<lparr>rq_run_id = r, rq_task_id = ''t'', rq_attempt_id = ''a'', rq_preset = ''m/fast'',
     rq_workspace_id = ''ws'', rq_model_alias = None,
     rq_messages = [\<lparr>msg_role = User, msg_content = ''x''\<rparr>], rq_deadline = None,
     rq_execution = None, rq_reasoning_effort = None, rq_resolved_model = None\<rparr>"

definition delta_event :: "string \<Rightarrow> nat \<Rightarrow> run_event" where
  "delta_event r n = \<lparr>ev_run_id = r, ev_sequence = n, ev_timestamp = 1, ev_synthetic = False,
     ev_payload = PMessageDelta ''x''\<rparr>"

definition done_event :: "string \<Rightarrow> nat \<Rightarrow> run_event" where
  "done_event r n = \<lparr>ev_run_id = r, ev_sequence = n, ev_timestamp = 1, ev_synthetic = False,
     ev_payload = PRunCompleted True unknown_usage None\<rparr>"

text \<open>Run A executes and completes; B waits in line; a third request is refused.\<close>

definition sample_served :: server where
  "sample_served = serve_run sample_server_config
     [DoRun 1 ''p1'' (sample_request ''A''), DoAsk ''A'', DoLeave 1 Claimed ''A'',
      DoRun 1 ''p2'' (sample_request ''B''), DoAsk ''B'', DoRun 1 ''p3'' (sample_request ''C''),
      DoStart ''p1'', DoDriverEvent (delta_event ''A'' 1) ''p1'',
      DoDriverEvent (done_event ''A'' 2) ''p1'', DoStreamOver ''p1'', DoIteratorClosed ''p1'',
      DoAwait ''A'', DoLeave 1 Claimed ''B'']"

lemma sample_served_reachable: "server_reachable sample_server_config sample_served"
  unfolding sample_served_def by (rule serve_run_reachable)

definition sample_done :: run_result where
  "sample_done = terminal_result sample_server_config (done_event ''A'' 2)
     ((new_run ''p1'' (sample_request ''A'') None)\<lparr>sr_events_seen := 2\<rparr>)"

lemma sample_served_value:
  "sv_out sample_served =
     [ErrorF ''p3'' QueueFullRpc True, EventF ''p1'' (delta_event ''A'' 1),
      EventF ''p1'' (done_event ''A'' 2), RunF ''p1'' sample_done] \<and>
   sv_requests sample_served = [(''p3'', sample_request ''C''), (''p2'', sample_request ''B''), (''p1'', sample_request ''A'')]"
  by code_simp

lemma sample_served_run:
  "map (\<lambda>(r, a). (r, sr_started a, sr_acquired a)) (sv_active sample_served) = [(''B'', True, True)] \<and>
   sv_invoked sample_served = [''p1''] \<and> \<not> sv_stopping sample_served"
  by code_simp

section \<open>One run at a time\<close>

text \<open>
  C10. Until it shuts down the Runner has at most one run past its queue, and that run holds the
  slot; the counter of the queue bound is the number of runs still queued, every queued run waits
  at most once in the semaphore's line, and nobody waits in line while the slot is free.
\<close>

theorem runner_serves_one:
  assumes "server_reachable cfg s"
  shows "sv_queue_waiting s = count_active (\<lambda>a. queueing (sr_main a)) (sv_active s) \<and>
    distinct (sv_line s) \<and> (sv_line s \<noteq> [] \<longrightarrow> sv_slot_taken s) \<and>
    (\<not> sv_stopping s \<longrightarrow>
      (\<forall>r a r' b. (r, a) \<in> set (sv_active s) \<longrightarrow> (r', b) \<in> set (sv_active s) \<longrightarrow>
         sr_started a \<longrightarrow> sr_started b \<longrightarrow> r = r' \<and> a = b \<and> sr_acquired a \<and> sv_slot_taken s))"
proof -
  have "slots cfg (if sv_slot_taken s then 1 else 0) s"
    using reachable_server [OF assms] by (simp add: server_ok_def slot_ok_def)
  note D = slotsD [OF this]
  have "r = r' \<and> a = b \<and> sr_acquired a \<and> sv_slot_taken s"
    if "\<not> sv_stopping s" "(r, a) \<in> set (sv_active s)" "(r', b) \<in> set (sv_active s)"
      "sr_started a" "sr_started b" for r a r' b
  proof -
    have "sr_acquired a" "sr_acquired b"
      using D(8) that by (auto simp: before_cleanup_def)
    moreover from this have "holds_slot a" "holds_slot b"
      by (simp_all add: holds_slot_def)
    moreover from this have "count_active holds_slot (sv_active s) \<noteq> 0"
      using that(2) unfolding count_active_0_iff by blast
    ultimately show ?thesis
      using count_active_le_1D [of holds_slot "sv_active s" r a r' b] that(2,3) D(3)
      by (simp split: if_splits)
  qed
  with D(4,6,7) show ?thesis by blast
qed

theorem runner_serves_one_witness:
  "\<exists>a. (''B'', a) \<in> set (sv_active sample_served) \<and> sr_started a \<and> sr_acquired a \<and>
     sv_slot_taken sample_served \<and> sv_queue_waiting sample_served = 0"
proof -
  obtain a where a: "sv_active sample_served = [(''B'', a)]" "sr_started a" "\<not> sv_stopping sample_served"
    using sample_served_run by (cases "sv_active sample_served") auto
  have "sv_queue_waiting sample_served = 0"
    by code_simp
  with a runner_serves_one [OF sample_served_reachable] show ?thesis
    by (metis list.set_intros(1))
qed

section \<open>The process and the session together\<close>

text \<open>The invariant, for what a client has read so far of the frames of its request.\<close>

lemma read_prefix:
  assumes "server_reachable cfg s" "map_of (sv_requests s) q = Some p"
    and fs: "fs = take n (filter (\<lambda>f. frame_rpc f = q) (sv_out s))"
  shows "session_run q (rq_run_id p) 1 False (map delivered fs) =
      (events_before q fs, received_end (events_before q fs \<noteq> []) (responses_of q fs))"
    and "numbered (rq_run_id p) (events_before q fs)"
    and "set (responses_of q fs) \<subseteq> set (responses_of q (sv_out s))"
    and "RunF x res \<in> set (responses_of q fs) \<Longrightarrow> result_wire (rq_run_id p) (events_before q fs) res"
proof -
  have ok: "wire_ok cfg s"
    using reachable_server [OF assms(1)] by (simp add: server_ok_def)
  note w = received_wire [OF ok assms(2)]
  let ?all = "filter (\<lambda>f. frame_rpc f = q) (sv_out s)"
  have split: "?all = fs @ drop n ?all"
    by (simp add: fs)
  have ev: "sent_events q (sv_out s) = sent_events q fs @ sent_events q (drop n ?all)"
    by (metis split sent_events_simps(2) sent_events_filter)
  have rs: "responses_of q (sv_out s) = responses_of q fs @ responses_of q (drop n ?all)"
    by (metis split responses_of_simps(2) frames_filter(2))
  have num: "numbered (rq_run_id p) (events_before q fs)"
    using w(1) ev events_before_prefix [of q fs] numbered_prefix by (metis append_assoc)
  then have "map ev_sequence (events_before q fs) = [1..<1 + length (events_before q fs)]"
    "\<forall>e\<in>set (events_before q fs). event_valid e \<and> ev_run_id e = rq_run_id p"
    by (auto simp: numbered_def)
  moreover have "\<forall>f\<in>set fs. frame_rpc f = q"
    unfolding fs by (auto dest: in_set_takeD)
  ultimately show "session_run q (rq_run_id p) 1 False (map delivered fs) =
      (events_before q fs, received_end (events_before q fs \<noteq> []) (responses_of q fs))"
    using session_reads [of fs q 1 "rq_run_id p" False] by simp
  show "numbered (rq_run_id p) (events_before q fs)" by (rule num)
  show "set (responses_of q fs) \<subseteq> set (responses_of q (sv_out s))"
    by (simp add: rs)
  show "result_wire (rq_run_id p) (events_before q fs) res" if "RunF x res \<in> set (responses_of q fs)"
  proof -
    have "responses_of q fs \<noteq> []"
      using that by auto
    then have "events_before q (sv_out s) = events_before q fs"
      by (metis split events_before_append frames_filter(1))
    with w(3) that rs show ?thesis by auto
  qed
qed

lemma session_agrees:
  assumes "server_reachable cfg s" "map_of (sv_requests s) q = Some p"
    and "session_run q (rq_run_id p) 1 False
      (map delivered (take n (filter (\<lambda>f. frame_rpc f = q) (sv_out s)))) = (es, r)"
  shows "numbered (rq_run_id p) es \<and>
    (case r of
       RunOpen \<Rightarrow> True
     | RunDone res \<Rightarrow> RunF q res \<in> set (sv_out s) \<and> run_result_valid res \<and>
         rr_run_id res = rq_run_id p \<and> claims_last es res
     | RunRaises e \<Rightarrow> \<exists>c retryable. ErrorF q c retryable \<in> set (sv_out s) \<and>
         e = ERunnerRunRejected (rpc_code_text c) retryable (es = []))"
proof -
  let ?fs = "take n (filter (\<lambda>f. frame_rpc f = q) (sv_out s))"
  note R = read_prefix [OF assms(1,2) refl [of ?fs]]
  have es: "es = events_before q ?fs" and r: "r = received_end (es \<noteq> []) (responses_of q ?fs)"
    using R(1) assms(3) by auto
  have in_out: "f \<in> set (sv_out s) \<and> frame_rpc f = q" if "f \<in> set (responses_of q ?fs)" for f
    using that R(3) by (auto simp: responses_of_def)
  have "wire_ok cfg s"
    using reachable_server [OF assms(1)] by (simp add: server_ok_def)
  note kinds = run_responses [OF this assms(2)]
  show ?thesis
  proof (cases "responses_of q ?fs")
    case Nil
    with R(2) r es show ?thesis by simp
  next
    case (Cons f rs)
    then have f: "f \<in> set (responses_of q ?fs)" by simp
    show ?thesis
    proof (cases f)
      case (RunF x res)
      then have "x = q" using in_out [OF f] by simp
      with RunF f R(4) have "result_wire (rq_run_id p) es res" by (simp add: es)
      with R(2) es r Cons RunF \<open>x = q\<close> in_out [OF f] show ?thesis
        by (simp add: result_wire_def)
    next
      case (ErrorF x c b)
      then have "x = q" using in_out [OF f] by simp
      with R(2) es r Cons ErrorF in_out [OF f] show ?thesis by auto
    qed (use kinds [of f] f R(3) in auto)
  qed
qed



text \<open>
  C12. What the controller takes as proof that nothing was executed is such a proof: when the
  session refuses a run with a code and stage the core classifies as without effect, the Runner
  process has not called the driver for that request, neither then nor at any later moment.
\<close>

theorem no_effect_refusal_never_invoked:
  assumes "server_reachable cfg s" "map_of (sv_requests s) q = Some p"
    and "session_run q (rq_run_id p) 1 False
      (map delivered (take n (filter (\<lambda>f. frame_rpc f = q) (sv_out s)))) =
        (es, RunRaises (ERunnerRunRejected code retryable pre))"
    and "no_effect code pre"
  shows "q \<notin> set (sv_invoked s) \<and> sent_events q (sv_out s) = []"
proof -
  obtain c where c: "ErrorF q c retryable \<in> set (sv_out s)" "code = rpc_code_text c"
    using session_agrees [OF assms(1-3)] by auto
  then have mem: "ErrorF q c retryable \<in> set (responses_of q (sv_out s))"
    by (simp add: responses_of_def)
  have "c \<noteq> InternalErrorRpc"
    using assms(4) c(2) by (auto simp: no_effect_def pre_execution_run_rejections_def)
  moreover have "wire_of cfg s q"
    using reachable_server [OF assms(1)] by (simp add: server_ok_def wire_ok_def)
  ultimately show ?thesis
    using refused_unserved [OF _ mem] by blast
qed

theorem no_effect_refusal_never_invoked_witness:
  "no_effect ''QUEUE_FULL'' True \<and> ''p3'' \<notin> set (sv_invoked sample_served)"
proof -
  have r: "rq_run_id (sample_request ''C'') = ''C''" "map_of (sv_requests sample_served) ''p3'' = Some (sample_request ''C'')"
    by (simp_all add: sample_request_def sample_served_value)
  have run: "session_run ''p3'' ''C'' 1 False
     (map delivered (take 1 (filter (\<lambda>f. frame_rpc f = ''p3'') (sv_out sample_served)))) =
       ([], RunRaises (ERunnerRunRejected ''QUEUE_FULL'' True True))"
    unfolding conjunct1 [OF sample_served_value] by code_simp
  have ne: "no_effect ''QUEUE_FULL'' True"
    by code_simp
  from no_effect_refusal_never_invoked [OF sample_served_reachable r(2), of 1, unfolded r(1), OF run ne] ne
  show ?thesis by simp
qed

section \<open>Only bound workspaces\<close>

text \<open>
  C13. The driver is called only for received requests the operator's bindings admit: without an
  execution config only a synthetic driver runs at all, and with one the workspace is bound and
  the preset, the requested model and the resolved model are on the lists of its binding.
\<close>

theorem invoked_within_binding:
  assumes "server_reachable cfg s" "q \<in> set (sv_invoked s)"
  shows "\<exists>p. map_of (sv_requests s) q = Some p \<and>
    (case sc_execution cfg of
       None \<Rightarrow> mf_synthetic (sc_manifest cfg)
     | Some x \<Rightarrow> \<exists>w. binding_for x (rq_workspace_id p) = Some w \<and>
         (\<forall>ps. wb_presets w = Some ps \<longrightarrow> rq_preset p \<in> set ps) \<and>
         (\<forall>ms m. wb_models w = Some ms \<longrightarrow> rq_model_alias p = Some m \<longrightarrow> m \<in> set ms) \<and>
         (\<forall>ms t. wb_models w = Some ms \<longrightarrow> rq_resolved_model p = Some t \<longrightarrow>
            rq_model_alias p \<noteq> Some t \<longrightarrow> t \<in> set ms))"
proof -
  have "wire_of cfg s q"
    using reachable_server [OF assms(1)] by (simp add: server_ok_def wire_ok_def)
  then obtain p b where p: "map_of (sv_requests s) q = Some p" "resolve_binding cfg p = Inr b"
    using assms(2) invoked_admitted by blast
  from resolve_binding_admits [OF p(2)] p(1) show ?thesis by blast
qed

theorem invoked_within_binding_witness:
  "\<exists>w. binding_for sample_execution ''ws'' = Some w"
proof -
  have inv: "''p1'' \<in> set (sv_invoked sample_served)"
    by (simp add: sample_served_run)
  have x: "sc_execution sample_server_config = Some sample_execution"
    by (simp add: sample_server_config_def)
  have "map_of (sv_requests sample_served) ''p1'' = Some (sample_request ''A'')"
    by (simp add: sample_served_value)
  with invoked_within_binding [OF sample_served_reachable inv, unfolded x] show ?thesis
    by (auto simp: sample_request_def)
qed

section \<open>Where two runs overlap\<close>

text \<open>Two workspaces with different roots, so that the lock on a root does not matter.\<close>

definition two_workspaces :: server_config where
  "two_workspaces = sample_server_config\<lparr>sc_execution := Some (sample_execution
     \<lparr>xc_workspaces := [(''ws'', sample_bound), (''ws2'', sample_bound\<lparr>wb_root := ''/other''\<rparr>)]\<rparr>)\<rparr>"

definition other_request :: "string \<Rightarrow> run_request" where
  "other_request r = (sample_request r)\<lparr>rq_workspace_id := ''ws2''\<rparr>"

fun executing :: "consumer \<Rightarrow> bool" where
  "executing (Consuming _) = True"
| "executing _ = False"

text \<open>
  C35. At shutdown a queued run starts without the slot: \<^verbatim>\<open>cleanup\<close> sets the event a queued run
  waits for but not the flag that says it was cancelled, so the run leaves the queue, marks itself
  started and calls the driver while another run still executes.
\<close>

theorem shutdown_starts_queued_runs:
  "\<exists>s a b. server_reachable two_workspaces s \<and> run_of s ''A'' = Some a \<and> run_of s ''B'' = Some b \<and>
     executing (sr_consumer a) \<and> executing (sr_consumer b) \<and> sr_acquired a \<and> \<not> sr_acquired b \<and>
     sr_start_cancelled b"
proof -
  let ?s = "serve_run two_workspaces
     [DoRun 1 ''p1'' (sample_request ''A''), DoAsk ''A'', DoLeave 1 Claimed ''A'', DoStart ''p1'',
      DoRun 1 ''p2'' (other_request ''B''), DoAsk ''B'', DoShutdown ''p9'', DoCleanup,
      DoLeave 2 Claimed ''B'', DoStart ''p2'']"
  have v: "map (\<lambda>(r, a). (r, executing (sr_consumer a), sr_acquired a, sr_start_cancelled a)) (sv_active ?s) =
      [(''A'', True, True, True), (''B'', True, False, True)]"
    by code_simp
  then obtain a b where "sv_active ?s = [(''A'', a), (''B'', b)]"
    by (auto simp: map_eq_Cons_conv)
  with v have "run_of ?s ''A'' = Some a" "run_of ?s ''B'' = Some b" "executing (sr_consumer a)"
    "executing (sr_consumer b)" "sr_acquired a" "\<not> sr_acquired b" "sr_start_cancelled b"
    by (simp_all add: run_of_def)
  with serve_run_reachable show ?thesis by blast
qed

text \<open>
  C36. A driver whose cancel call fails keeps running after its run was answered: when the deadline
  has passed and \<^verbatim>\<open>driver.cancel\<close> raises, the request is answered with an internal error and the
  slot is released, but the consuming task is neither cancelled nor awaited. It still writes
  events after the response, and the next run executes beside it.
\<close>

theorem failed_cancel_abandons_driver:
  "\<exists>s b e. server_reachable two_workspaces s \<and> \<not> sv_stopping s \<and>
     filter (\<lambda>f. frame_rpc f = ''p1'') (sv_out s) = [ErrorF ''p1'' InternalErrorRpc False, EventF ''p1'' e] \<and>
     (\<exists>a\<in>set (sv_ended s). sr_rpc a = ''p1'' \<and> executing (sr_consumer a)) \<and>
     run_of s ''B'' = Some b \<and> executing (sr_consumer b) \<and> sr_acquired b"
proof -
  let ?s = "serve_run two_workspaces
     [DoRun 1 ''p1'' (sample_request ''A''), DoAsk ''A'', DoLeave 1 Claimed ''A'', DoStart ''p1'',
      DoRun 1 ''p2'' (other_request ''B''), DoAsk ''B'', DoDeadline ''A'', DoCancelRaises ''A'',
      DoLeave 2 Claimed ''B'', DoStart ''p2'', DoDriverEvent (delta_event ''A'' 1) ''p1'']"
  have v: "map (\<lambda>(r, a). (r, executing (sr_consumer a), sr_acquired a)) (sv_active ?s) = [(''B'', True, True)]"
    "map (\<lambda>a. (sr_rpc a, executing (sr_consumer a))) (sv_ended ?s) = [(''p1'', True)]"
    "sv_out ?s = [ErrorF ''p1'' InternalErrorRpc False, EventF ''p1'' (delta_event ''A'' 1)]"
    "\<not> sv_stopping ?s"
    by code_simp+
  then obtain a b where "sv_active ?s = [(''B'', b)]" "sv_ended ?s = [a]"
    by (auto simp: map_eq_Cons_conv)
  with v have "run_of ?s ''B'' = Some b" "executing (sr_consumer b)" "sr_acquired b"
    "\<exists>a\<in>set (sv_ended ?s). sr_rpc a = ''p1'' \<and> executing (sr_consumer a)"
    "filter (\<lambda>f. frame_rpc f = ''p1'') (sv_out ?s) =
       [ErrorF ''p1'' InternalErrorRpc False, EventF ''p1'' (delta_event ''A'' 1)]"
    by (simp_all add: run_of_def)
  with v(4) serve_run_reachable show ?thesis by blast
qed

text \<open>The queue bound is checked only while the slot is locked: a burst of requests passes it.\<close>

lemma burst_exceeds_queue:
  "\<exists>s. server_reachable two_workspaces s \<and> sv_queue_waiting s > sc_max_queue two_workspaces"
proof -
  let ?s = "serve_run two_workspaces
     [DoRun 1 ''p1'' (sample_request ''A''), DoRun 1 ''p2'' (sample_request ''B''),
      DoRun 1 ''p3'' (sample_request ''C'')]"
  have "sv_queue_waiting ?s > sc_max_queue two_workspaces"
    by code_simp
  with serve_run_reachable show ?thesis by blast
qed

text \<open>An \<^verbatim>\<open>OSError\<close> of the Runner's own is taken for a lost client: the request is never answered.\<close>

lemma os_error_is_not_answered:
  "\<exists>s. server_reachable two_workspaces s \<and> sv_active s = [] \<and> sv_out s = [] \<and>
     map fst (sv_requests s) = [''p1''] \<and> map sr_started (sv_ended s) = [True]"
proof -
  let ?s = "serve_run two_workspaces
     [DoRun 1 ''p1'' (sample_request ''A''), DoAsk ''A'', DoLeave 1 ClaimRaises ''A'']"
  have "sv_active ?s = []" "sv_out ?s = []" "map fst (sv_requests ?s) = [''p1'']"
    "map sr_started (sv_ended ?s) = [True]"
    by code_simp+
  then show ?thesis
    by (intro exI [of _ ?s] conjI serve_run_reachable)
qed

end
