(* ===== verification/KanbanStore.thy ===== *)
theory KanbanStore
  imports Ledger "HOL-Library.Char_ord" "HOL-Library.List_Lexorder"
begin

text \<open>
  The receipt ledger of the Kanban dispatcher
  (\<^verbatim>\<open>packages/kanban/src/cli_provider_kanban/store.py\<close>): one reservation per dispatch attempt and
  the approvals of gated operations. The two tables are lists in rowid order. Every statement that
  can raise yields a sum; where an exception leaves the tables changed (the expiry that is
  committed before \<^verbatim>\<open>StoreError\<close> is raised) the new tables are returned beside it. Clock readings
  and the tokens of \<^verbatim>\<open>secrets.token_hex\<close> are arguments. JSON columns hold the decoded value.
\<close>

section \<open>Rows\<close>

datatype rstate =
    RvReserved | RvClaimed | RvSubmitted | RvCompleting
  | RvReview | RvBlocked | RvAborted | RvCancelled | RvFailed | RvUnknown

definition rv_active_states :: "rstate list" where
  "rv_active_states = [RvReserved, RvClaimed, RvSubmitted, RvCompleting]"

definition rv_blocking_states :: "rstate list" where
  "rv_blocking_states = rv_active_states @ [RvUnknown]"

definition rv_terminal_states :: "rstate list" where
  "rv_terminal_states = [RvReview, RvBlocked, RvAborted, RvCancelled, RvFailed, RvUnknown]"

text \<open>The states the guard of \<^verbatim>\<open>transition\<close> never leaves: \<^verbatim>\<open>unknown\<close> is not among them.\<close>

definition rv_closed_states :: "rstate list" where
  "rv_closed_states = [RvReview, RvBlocked, RvAborted, RvCancelled, RvFailed]"

lemmas rv_state_sets = rv_blocking_states_def rv_active_states_def rv_terminal_states_def
  rv_closed_states_def

lemma rv_blocking_iff_not_closed: "st \<in> set rv_blocking_states \<longleftrightarrow> st \<notin> set rv_closed_states"
  by (cases st) (simp_all add: rv_state_sets)

datatype apstate = ApPending | ApApplied | ApDenied | ApExpired | ApConsumed

record provenance =
  pv_lane :: string
  pv_classified_route :: string
  pv_submitted_model :: string
  pv_server_preset :: "string option"
  pv_classified :: bool
  pv_synthetic :: bool
  pv_effort_hint :: string
  pv_runner_pin :: "string option"

record evidence =
  ev_argv :: "string list"
  ev_exit_code :: "int option"
  ev_output :: string
  ev_truncated :: bool
  ev_timed_out :: bool
  ev_artifacts :: "(string \<times> string \<times> nat) list"
  ev_diff :: "string \<times> string \<times> nat"
  ev_changed_files :: "string list"
  ev_scope_violations :: "string list"
  ev_base_revision :: string
  ev_policy_fingerprint :: string
  ev_provenance :: "provenance option"
  ev_resolved_by :: "string option"

record reservation =
  rv_id :: string
  rv_task :: string
  rv_revision :: string
  rv_spec_hash :: string
  rv_policy_fp :: string
  rv_workspace :: string
  rv_base :: string
  rv_route :: string
  rv_state :: rstate
  rv_run :: "string option"
  rv_attempt :: "string option"
  rv_kernel_run :: "int option"
  rv_branch :: "string option"
  rv_worktree :: "string option"
  rv_cancel :: bool
  rv_detail :: "string option"
  rv_evidence :: "evidence option"
  rv_created :: rat
  rv_updated :: rat

record approval =
  ap_id :: string
  ap_task :: string
  ap_revision :: string
  ap_spec_hash :: string
  ap_policy_fp :: string
  ap_operation :: string
  ap_run :: "string option"
  ap_actors :: "string list"
  ap_state :: apstate
  ap_expires :: rat
  ap_created :: rat
  ap_decided_at :: "rat option"
  ap_decided_by :: "string option"

record dstore =
  ds_reservations :: "reservation list"
  ds_approvals :: "approval list"

definition empty_dstore :: dstore where
  "empty_dstore = \<lparr>ds_reservations = [], ds_approvals = []\<rparr>"

abbreviation rv_blocks :: "reservation \<Rightarrow> bool" where
  "rv_blocks r \<equiv> rv_state r \<in> set rv_blocking_states"

definition rv_is_terminal :: "reservation \<Rightarrow> bool" where
  "rv_is_terminal r \<longleftrightarrow> rv_state r \<in> set rv_terminal_states"

datatype ds_error =
    ReservationExists string string
  | GrantMismatch string
  | BadTransition string "rstate option"
  | NoReservation string
  | EmptyActors
  | NoApproval string
  | AlreadyDecided string apstate
  | NotAllowed string
  | ApprovalExpired string
  | RowConflict

section \<open>Reservations\<close>

text \<open>What the caller of \<^verbatim>\<open>reserve\<close> passes: the exact scope of the dispatch.\<close>

record dispatch_scope =
  sc_task :: string
  sc_revision :: string
  sc_spec_hash :: string
  sc_policy_fp :: string
  sc_workspace :: string
  sc_base :: string
  sc_route :: string

text \<open>The \<^verbatim>\<open>WHERE\<close> clause of the burn and the row the \<^verbatim>\<open>INSERT\<close> writes.\<close>

definition binds_grant :: "rat \<Rightarrow> string \<Rightarrow> dispatch_scope \<Rightarrow> approval \<Rightarrow> bool" where
  "binds_grant now a q p \<longleftrightarrow> ap_id p = a \<and> ap_state p = ApApplied
     \<and> ap_task p = sc_task q \<and> ap_revision p = sc_revision q \<and> ap_spec_hash p = sc_spec_hash q
     \<and> ap_policy_fp p = sc_policy_fp q \<and> ap_operation p = ''dispatch'' \<and> now < ap_expires p"

definition burn :: "rat \<Rightarrow> approval \<Rightarrow> approval" where
  "burn now p = p\<lparr>ap_state := ApConsumed, ap_decided_at := Some now,
     ap_decided_by := orelse (ap_decided_by p) (Some ''jev-dispatch'')\<rparr>"

definition new_reservation :: "rat \<Rightarrow> string \<Rightarrow> dispatch_scope \<Rightarrow> reservation" where
  "new_reservation now d q = \<lparr>rv_id = d, rv_task = sc_task q, rv_revision = sc_revision q,
     rv_spec_hash = sc_spec_hash q, rv_policy_fp = sc_policy_fp q, rv_workspace = sc_workspace q,
     rv_base = sc_base q, rv_route = sc_route q, rv_state = RvReserved, rv_run = None,
     rv_attempt = None, rv_kernel_run = None, rv_branch = None, rv_worktree = None,
     rv_cancel = False, rv_detail = None, rv_evidence = None, rv_created = now, rv_updated = now\<rparr>"

text \<open>The primary key and the two partial unique indexes.\<close>

definition insert_conflicts :: "reservation \<Rightarrow> reservation list \<Rightarrow> bool" where
  "insert_conflicts r rs \<longleftrightarrow> (\<exists>x\<in>set rs. rv_id x = rv_id r
     \<or> (rv_blocks r \<and> rv_blocks x \<and> (rv_task x = rv_task r \<or> rv_workspace x = rv_workspace r)))"

definition burn_grant ::
  "rat \<Rightarrow> string option \<Rightarrow> dispatch_scope \<Rightarrow> dstore \<Rightarrow> ds_error + dstore" where
  "burn_grant now grant q s =
     (case grant of
        None \<Rightarrow> Inr s
      | Some a \<Rightarrow>
          if count_where (binds_grant now a q) (ds_approvals s) \<noteq> 1 then Inl (GrantMismatch a)
          else Inr (s\<lparr>ds_approvals :=
            map (\<lambda>p. if binds_grant now a q p then burn now p else p) (ds_approvals s)\<rparr>))"

text \<open>One transaction: any exception rolls back the burn as well.\<close>

definition ds_reserve ::
  "rat \<Rightarrow> string \<Rightarrow> dispatch_scope \<Rightarrow> string option \<Rightarrow> dstore \<Rightarrow> ds_error + reservation \<times> dstore" where
  "ds_reserve now d q grant s =
     bindE (burn_grant now grant q s) (\<lambda>s'.
       let r = new_reservation now d q in
       if insert_conflicts r (ds_reservations s')
       then Inl (ReservationExists (sc_task q) (sc_workspace q))
       else Inr (r, s'\<lparr>ds_reservations := ds_reservations s' @ [r]\<rparr>))"

definition ds_get :: "string \<Rightarrow> dstore \<Rightarrow> reservation option" where
  "ds_get d s = List.find (\<lambda>r. rv_id r = d) (ds_reservations s)"

definition for_card :: "string \<Rightarrow> dstore \<Rightarrow> reservation list" where
  "for_card t s = sort_key rv_created (filter (\<lambda>r. rv_task r = t) (ds_reservations s))"

definition live_for_card :: "string \<Rightarrow> dstore \<Rightarrow> reservation option" where
  "live_for_card t s = List.find (\<lambda>r. rv_task r = t \<and> rv_blocks r) (ds_reservations s)"

definition list_live :: "dstore \<Rightarrow> reservation list" where
  "list_live s = sort_key rv_created (filter rv_blocks (ds_reservations s))"

text \<open>The keyword arguments of \<^verbatim>\<open>transition\<close>; \<open>None\<close> leaves the column as it is.\<close>

record rv_fields =
  rf_detail :: "string option"
  rf_run :: "string option"
  rf_attempt :: "string option"
  rf_kernel_run :: "int option"
  rf_branch :: "string option"
  rf_worktree :: "string option"

definition no_fields :: rv_fields where
  "no_fields = \<lparr>rf_detail = None, rf_run = None, rf_attempt = None, rf_kernel_run = None,
     rf_branch = None, rf_worktree = None\<rparr>"

definition moved :: "rat \<Rightarrow> rstate \<Rightarrow> rv_fields \<Rightarrow> reservation \<Rightarrow> reservation" where
  "moved now st f r = r\<lparr>rv_state := st, rv_detail := orelse (rf_detail f) (rv_detail r),
     rv_run := orelse (rf_run f) (rv_run r), rv_attempt := orelse (rf_attempt f) (rv_attempt r),
     rv_kernel_run := orelse (rf_kernel_run f) (rv_kernel_run r),
     rv_branch := orelse (rf_branch f) (rv_branch r),
     rv_worktree := orelse (rf_worktree f) (rv_worktree r), rv_updated := now\<rparr>"

definition movable :: "string \<Rightarrow> bool \<Rightarrow> reservation \<Rightarrow> bool" where
  "movable d no_cancel r \<longleftrightarrow> rv_id r = d \<and> rv_state r \<notin> set rv_closed_states
     \<and> (no_cancel \<longrightarrow> \<not> rv_cancel r)"

definition ds_transition ::
  "rat \<Rightarrow> string \<Rightarrow> rstate \<Rightarrow> rv_fields \<Rightarrow> bool \<Rightarrow> dstore \<Rightarrow> ds_error + reservation \<times> dstore" where
  "ds_transition now d st f no_cancel s =
     (if count_where (movable d no_cancel) (ds_reservations s) \<noteq> 1
      then Inl (BadTransition d (map_option rv_state (ds_get d s)))
      else let s' = s\<lparr>ds_reservations :=
                   map (\<lambda>r. if movable d no_cancel r then moved now st f r else r)
                     (ds_reservations s)\<rparr>
           in case ds_get d s' of
                None \<Rightarrow> Inl (NoReservation d)
              | Some r \<Rightarrow> Inr (r, s'))"

definition touch :: "string \<Rightarrow> (reservation \<Rightarrow> reservation) \<Rightarrow> dstore \<Rightarrow> ds_error + dstore" where
  "touch d f s =
     (if count_where (\<lambda>r. rv_id r = d) (ds_reservations s) \<noteq> 1 then Inl (NoReservation d)
      else Inr (s\<lparr>ds_reservations :=
             map (\<lambda>r. if rv_id r = d then f r else r) (ds_reservations s)\<rparr>))"

definition record_evidence :: "rat \<Rightarrow> string \<Rightarrow> evidence \<Rightarrow> dstore \<Rightarrow> ds_error + dstore" where
  "record_evidence now d ev = touch d (\<lambda>r. r\<lparr>rv_evidence := Some ev, rv_updated := now\<rparr>)"

definition request_cancel :: "rat \<Rightarrow> string \<Rightarrow> dstore \<Rightarrow> ds_error + dstore" where
  "request_cancel now d = touch d (\<lambda>r. r\<lparr>rv_cancel := True, rv_updated := now\<rparr>)"

section \<open>Approvals\<close>

text \<open>
  \<^verbatim>\<open>ORDER BY created_at DESC LIMIT 1\<close>; SQL leaves the choice among equal times open, the model
  takes the first row.
\<close>

fun newest :: "approval list \<Rightarrow> approval option" where
  "newest [] = None"
| "newest (p # ps) =
     (case newest ps of
        None \<Rightarrow> Some p
      | Some q \<Rightarrow> if ap_created p \<ge> ap_created q then Some p else Some q)"

definition matches_opt :: "'a option \<Rightarrow> 'a \<Rightarrow> bool" where
  "matches_opt want x \<longleftrightarrow> (case want of None \<Rightarrow> True | Some y \<Rightarrow> x = y)"

definition pending_approval_for ::
  "string \<Rightarrow> string \<Rightarrow> string option \<Rightarrow> string option \<Rightarrow> string option \<Rightarrow> dstore \<Rightarrow> approval option" where
  "pending_approval_for t oper rvn sh fp s =
     newest (filter (\<lambda>p. ap_task p = t \<and> ap_operation p = oper \<and> ap_state p = ApPending
       \<and> matches_opt rvn (ap_revision p) \<and> matches_opt sh (ap_spec_hash p)
       \<and> matches_opt fp (ap_policy_fp p)) (ds_approvals s))"

definition get_approval :: "string \<Rightarrow> dstore \<Rightarrow> approval option" where
  "get_approval a s = List.find (\<lambda>p. ap_id p = a) (ds_approvals s)"

record approval_request =
  aq_task :: string
  aq_revision :: string
  aq_spec_hash :: string
  aq_policy_fp :: string
  aq_operation :: string
  aq_run :: "string option"
  aq_actors :: "string list"
  aq_ttl :: nat

definition new_approval :: "rat \<Rightarrow> string \<Rightarrow> approval_request \<Rightarrow> approval" where
  "new_approval now a q = \<lparr>ap_id = a, ap_task = aq_task q, ap_revision = aq_revision q,
     ap_spec_hash = aq_spec_hash q, ap_policy_fp = aq_policy_fp q, ap_operation = aq_operation q,
     ap_run = aq_run q, ap_actors = sort (remdups (aq_actors q)), ap_state = ApPending,
     ap_expires = now + of_nat (aq_ttl q), ap_created = now, ap_decided_at = None,
     ap_decided_by = None\<rparr>"

definition create_approval ::
  "rat \<Rightarrow> string \<Rightarrow> approval_request \<Rightarrow> dstore \<Rightarrow> ds_error + approval \<times> dstore" where
  "create_approval now a q s =
     (if aq_actors q = [] then Inl EmptyActors
      else case pending_approval_for (aq_task q) (aq_operation q) (Some (aq_revision q))
                  (Some (aq_spec_hash q)) (Some (aq_policy_fp q)) s of
             Some p \<Rightarrow> Inr (p, s)
           | None \<Rightarrow>
               if \<exists>p\<in>set (ds_approvals s). ap_id p = a then Inl RowConflict
               else Inr (new_approval now a q,
                         s\<lparr>ds_approvals := ds_approvals s @ [new_approval now a q]\<rparr>))"

definition expire_applied :: "rat \<Rightarrow> dstore \<Rightarrow> dstore" where
  "expire_applied now s = s\<lparr>ds_approvals :=
     map (\<lambda>p. if ap_state p = ApApplied \<and> ap_expires p \<le> now then p\<lparr>ap_state := ApExpired\<rparr> else p)
       (ds_approvals s)\<rparr>"

text \<open>\<^verbatim>\<open>find_applied_grant\<close> for the operation \<^verbatim>\<open>oper\<close>: the expiry is written before the search.\<close>

definition find_applied_grant ::
  "rat \<Rightarrow> string \<Rightarrow> string \<Rightarrow> string \<Rightarrow> string \<Rightarrow> string \<Rightarrow> dstore \<Rightarrow> approval option \<times> dstore" where
  "find_applied_grant now t oper rvn sh fp s =
     (let s' = expire_applied now s
      in (newest (filter (\<lambda>p. ap_task p = t \<and> ap_operation p = oper \<and> ap_state p = ApApplied
            \<and> ap_revision p = rvn \<and> ap_spec_hash p = sh \<and> ap_policy_fp p = fp) (ds_approvals s')),
          s'))"

definition set_approval :: "string \<Rightarrow> (approval \<Rightarrow> approval) \<Rightarrow> dstore \<Rightarrow> dstore" where
  "set_approval a f s = s\<lparr>ds_approvals :=
     map (\<lambda>p. if ap_id p = a then f p else p) (ds_approvals s)\<rparr>"

definition decided :: "rat \<Rightarrow> string \<Rightarrow> apstate \<Rightarrow> approval \<Rightarrow> approval" where
  "decided now actor st p =
     p\<lparr>ap_state := st, ap_decided_at := Some now, ap_decided_by := Some actor\<rparr>"

definition decide_approval ::
  "rat \<Rightarrow> string \<Rightarrow> string \<Rightarrow> apstate \<Rightarrow> dstore \<Rightarrow> (ds_error + approval) \<times> dstore" where
  "decide_approval now a actor st s =
     (case get_approval a s of
        None \<Rightarrow> (Inl (NoApproval a), s)
      | Some p \<Rightarrow>
          if ap_state p \<noteq> ApPending then (Inl (AlreadyDecided a (ap_state p)), s)
          else if actor \<notin> set (ap_actors p) then (Inl (NotAllowed actor), s)
          else if ap_expires p \<le> now
          then (Inl (ApprovalExpired a), set_approval a (decided now actor ApExpired) s)
          else (Inr (decided now actor st p), set_approval a (decided now actor st) s))"

definition apply_approval :: "rat \<Rightarrow> string \<Rightarrow> string \<Rightarrow> dstore \<Rightarrow> (ds_error + approval) \<times> dstore" where
  "apply_approval now a actor = decide_approval now a actor ApApplied"

definition deny_approval :: "rat \<Rightarrow> string \<Rightarrow> string \<Rightarrow> dstore \<Rightarrow> (ds_error + approval) \<times> dstore" where
  "deny_approval now a actor = decide_approval now a actor ApDenied"

end
