(* ===== verification/KanbanStoreProps.thy ===== *)
theory KanbanStoreProps
  imports KanbanStore
begin

text \<open>
  Invariants of the receipt ledger under any sequence of its operations, whichever process issues
  them: the keys and indexes, the one-way doors of the closed states, and the history of grants.
\<close>

section \<open>Sequences of operations\<close>

text \<open>
  Every method of \<^verbatim>\<open>DispatchStore\<close> that writes. \<open>ds_exec\<close> runs one and tells whether it returned;
  the last argument of \<open>OpDecide\<close> tells \<^verbatim>\<open>apply_approval\<close> from \<^verbatim>\<open>deny_approval\<close>.
\<close>

datatype ds_op =
    OpReserve rat string dispatch_scope "string option"
  | OpTransition rat string rstate rv_fields bool
  | OpEvidence rat string evidence
  | OpCancelIntent rat string
  | OpCreate rat string approval_request
  | OpFindGrant rat string string string string string
  | OpDecide rat string string bool

definition ran_with :: "('a \<Rightarrow> dstore) \<Rightarrow> dstore \<Rightarrow> ds_error + 'a \<Rightarrow> bool \<times> dstore" where
  "ran_with f s res = (case res of Inl _ \<Rightarrow> (False, s) | Inr x \<Rightarrow> (True, f x))"

lemma ran_with_simps [simp]:
  "ran_with f s (Inl e) = (False, s)"
  "ran_with f s (Inr x) = (True, f x)"
  by (simp_all add: ran_with_def)

fun ds_exec :: "ds_op \<Rightarrow> dstore \<Rightarrow> bool \<times> dstore" where
  "ds_exec (OpReserve now d q g) s = ran_with snd s (ds_reserve now d q g s)"
| "ds_exec (OpTransition now d st f nc) s = ran_with snd s (ds_transition now d st f nc s)"
| "ds_exec (OpEvidence now d ev) s = ran_with (\<lambda>x. x) s (record_evidence now d ev s)"
| "ds_exec (OpCancelIntent now d) s = ran_with (\<lambda>x. x) s (request_cancel now d s)"
| "ds_exec (OpCreate now a q) s = ran_with snd s (create_approval now a q s)"
| "ds_exec (OpFindGrant now t oper rvn sh fp) s = (True, snd (find_applied_grant now t oper rvn sh fp s))"
| "ds_exec (OpDecide now a actor ok) s =
     (let (res, s') = decide_approval now a actor (if ok then ApApplied else ApDenied) s
      in (isOk res, s'))"

abbreviation ds_after :: "ds_op \<Rightarrow> dstore \<Rightarrow> dstore" where
  "ds_after op s \<equiv> snd (ds_exec op s)"

abbreviation ds_runs :: "ds_op \<Rightarrow> dstore \<Rightarrow> bool" where
  "ds_runs op s \<equiv> fst (ds_exec op s)"

fun ds_run :: "ds_op list \<Rightarrow> dstore \<Rightarrow> dstore" where
  "ds_run [] s = s"
| "ds_run (op # ops) s = ds_run ops (ds_after op s)"

fun ds_history :: "ds_op list \<Rightarrow> dstore \<Rightarrow> (ds_op \<times> bool) list" where
  "ds_history [] s = []"
| "ds_history (op # ops) s = (op, ds_runs op s) # ds_history ops (ds_after op s)"

lemma ds_run_append [simp]: "ds_run (xs @ ys) s = ds_run ys (ds_run xs s)"
  by (induction xs arbitrary: s) simp_all

lemma ds_history_append [simp]:
  "ds_history (xs @ ys) s = ds_history xs s @ ds_history ys (ds_run xs s)"
  by (induction xs arbitrary: s) simp_all

section \<open>How one operation changes the rows\<close>

text \<open>
  A row is rewritten in place: its identity stays, a closed state stays, and a row that is not
  closed blocked before. New rows appear only through \<open>OpReserve\<close>.
\<close>

definition row_step :: "reservation \<Rightarrow> reservation \<Rightarrow> bool" where
  "row_step r r' \<longleftrightarrow> rv_id r' = rv_id r \<and> rv_task r' = rv_task r \<and> rv_workspace r' = rv_workspace r
     \<and> rv_revision r' = rv_revision r \<and> rv_spec_hash r' = rv_spec_hash r
     \<and> rv_policy_fp r' = rv_policy_fp r \<and> rv_base r' = rv_base r \<and> rv_route r' = rv_route r
     \<and> (rv_cancel r \<longrightarrow> rv_cancel r') \<and> (\<not> rv_blocks r \<longrightarrow> rv_state r' = rv_state r)"

lemma row_step_refl [simp]: "row_step r r"
  by (simp add: row_step_def)

lemma row_step_trans: "row_step a b \<Longrightarrow> row_step b c \<Longrightarrow> row_step a c"
  unfolding row_step_def by metis

lemma row_step_moved: "movable d nc r \<Longrightarrow> row_step r (moved now st f r)"
  by (simp add: row_step_def moved_def movable_def rv_blocking_iff_not_closed)

lemma count_where_1E:
  assumes "count_where P xs = 1"
  obtains x where "x \<in> set xs" "P x" "\<And>y. y \<in> set xs \<Longrightarrow> P y \<Longrightarrow> y = x"
proof -
  from assms have "count_where P xs \<noteq> 0" by simp
  then obtain x where x: "x \<in> set xs" "P x" by (auto simp: count_where_0_iff)
  then show thesis
    using that count_where_le_1D [of P xs] assms by (metis order_refl)
qed

lemma ds_transition_InrD:
  assumes "ds_transition now d st f nc s = Inr (r, s')"
  shows "s' = s\<lparr>ds_reservations :=
      map (\<lambda>r. if movable d nc r then moved now st f r else r) (ds_reservations s)\<rparr>"
    and "ds_get d s' = Some r"
    and "count_where (movable d nc) (ds_reservations s) = 1"
  using assms by (auto simp: ds_transition_def Let_def split: if_splits option.splits)

lemma touch_InrD:
  assumes "touch d f s = Inr s'"
  shows "s' = s\<lparr>ds_reservations := map (\<lambda>r. if rv_id r = d then f r else r) (ds_reservations s)\<rparr>"
    and "count_where (\<lambda>r. rv_id r = d) (ds_reservations s) = 1"
  using assms by (auto simp: touch_def split: if_splits)

lemma ds_reserve_InrD:
  assumes "ds_reserve now d q g s = Inr (r, s')"
  shows "r = new_reservation now d q"
    and "ds_reservations s' = ds_reservations s @ [r]"
    and "\<not> insert_conflicts r (ds_reservations s)"
    and "burn_grant now g q s = Inr (s'\<lparr>ds_reservations := ds_reservations s\<rparr>)"
  using assms
  by (auto simp: ds_reserve_def Let_def burn_grant_def split: if_splits option.splits)

definition rows_step :: "reservation list \<Rightarrow> reservation list \<Rightarrow> bool" where
  "rows_step rs rs' \<longleftrightarrow> (\<exists>f. rs' = map f rs \<and> (\<forall>r\<in>set rs. row_step r (f r)))"

lemma rows_step_refl [simp]: "rows_step rs rs"
  unfolding rows_step_def by (intro exI [of _ "\<lambda>r. r"]) simp

lemma rows_stepI: "(\<And>r. r \<in> set rs \<Longrightarrow> row_step r (f r)) \<Longrightarrow> rows_step rs (map f rs)"
  unfolding rows_step_def by blast

lemma rows_step_mem:
  "rows_step rs rs' \<Longrightarrow> r \<in> set rs \<Longrightarrow> \<exists>r'\<in>set rs'. row_step r r'"
  unfolding rows_step_def by auto

lemma rows_step_transition:
  assumes "ds_transition now d st f nc s = Inr (r, s')"
  shows "rows_step (ds_reservations s) (ds_reservations s')"
  using ds_transition_InrD(1) [OF assms] by (auto intro!: rows_stepI row_step_moved)

lemma rows_step_touch:
  assumes "touch d f s = Inr s'" "\<And>r. row_step r (f r)"
  shows "rows_step (ds_reservations s) (ds_reservations s')"
  using touch_InrD(1) [OF assms(1)] by (auto intro!: rows_stepI simp: assms(2))

lemma reservations_unchanged:
  "create_approval now a q s = Inr (p, s') \<Longrightarrow> ds_reservations s' = ds_reservations s"
  "ds_reservations (snd (find_applied_grant now t oper rvn sh fp s)) = ds_reservations s"
  "ds_reservations (snd (decide_approval now a actor st s)) = ds_reservations s"
  by (auto simp: create_approval_def find_applied_grant_def decide_approval_def expire_applied_def
      set_approval_def Let_def split: if_splits option.splits)

lemma ds_exec_rows:
  obtains "rows_step (ds_reservations s) (ds_reservations (ds_after op s))"
  | now d q g r where "op = OpReserve now d q g" "ds_reserve now d q g s = Inr (r, ds_after op s)"
proof (cases op)
  case (OpReserve now d q g)
  then show ?thesis
    using that by (cases "ds_reserve now d q g s") auto
next
  case (OpTransition now d st f nc)
  then show ?thesis
    using that(1) by (cases "ds_transition now d st f nc s") (auto dest: rows_step_transition)
next
  case (OpEvidence now d ev)
  then show ?thesis
    using that(1) rows_step_touch [of d _ s]
    by (cases "record_evidence now d ev s") (auto simp: record_evidence_def row_step_def)
next
  case (OpCancelIntent now d)
  then show ?thesis
    using that(1) rows_step_touch [of d _ s]
    by (cases "request_cancel now d s") (auto simp: request_cancel_def row_step_def)
next
  case (OpCreate now a q)
  then show ?thesis
    using that(1) by (cases "create_approval now a q s") (auto simp: reservations_unchanged)
next
  case (OpFindGrant now t oper rvn sh fp)
  then show ?thesis using that(1) by (simp add: reservations_unchanged)
next
  case (OpDecide now a actor ok)
  have "ds_reservations (ds_after op s) = ds_reservations s"
    using reservations_unchanged(3) [of now a actor "if ok then ApApplied else ApDenied" s]
    by (simp add: OpDecide case_prod_beta Let_def)
  then show ?thesis using that(1) by simp
qed

section \<open>The keys and the indexes\<close>

definition admits_receipt :: "dstore \<Rightarrow> reservation \<Rightarrow> dstore \<Rightarrow> bool" where
  "admits_receipt s r s' \<longleftrightarrow> (\<exists>now d q g. ds_reserve now d q g s = Inr (r, s'))"

lemma admits_receiptD:
  assumes "admits_receipt s r t"
  shows "ds_reservations t = ds_reservations s @ [r]"
    and "\<not> insert_conflicts r (ds_reservations s)"
  using assms ds_reserve_InrD(2,3) by (auto simp: admits_receipt_def)

interpretation card_lock: exclusive_ledger ds_reservations rv_blocks rv_task admits_receipt
  by unfold_locales (auto simp: insert_conflicts_def dest: admits_receiptD)

interpretation workspace_lock: exclusive_ledger ds_reservations rv_blocks rv_workspace admits_receipt
  by unfold_locales (auto simp: insert_conflicts_def dest: admits_receiptD)

definition ledger_ok :: "dstore \<Rightarrow> bool" where
  "ledger_ok s \<longleftrightarrow> distinct (map rv_id (ds_reservations s))
     \<and> index_ok rv_blocks rv_task (ds_reservations s)
     \<and> index_ok rv_blocks rv_workspace (ds_reservations s)
     \<and> distinct (map ap_id (ds_approvals s))"

lemma rows_step_keys:
  assumes "rows_step rs rs'"
  shows "map rv_id rs' = map rv_id rs"
    and "index_ok rv_blocks rv_task rs \<Longrightarrow> index_ok rv_blocks rv_task rs'"
    and "index_ok rv_blocks rv_workspace rs \<Longrightarrow> index_ok rv_blocks rv_workspace rs'"
proof -
  obtain f where f: "rs' = map f rs" "\<And>r. r \<in> set rs \<Longrightarrow> row_step r (f r)"
    using assms by (auto simp: rows_step_def)
  show "map rv_id rs' = map rv_id rs"
    using f by (auto simp: row_step_def)
  have live: "rv_blocks (f r) \<Longrightarrow> rv_blocks r" if "r \<in> set rs" for r
    using f(2) [OF that] unfolding row_step_def by metis
  have key: "rv_task (f r) = rv_task r" "rv_workspace (f r) = rv_workspace r" if "r \<in> set rs" for r
    using f(2) [OF that] by (simp_all add: row_step_def)
  show "index_ok rv_blocks rv_task rs'" if "index_ok rv_blocks rv_task rs"
    unfolding f(1) using that live key(1) by (rule index_ok_map_shrink)
  show "index_ok rv_blocks rv_workspace rs'" if "index_ok rv_blocks rv_workspace rs"
    unfolding f(1) using that live key(2) by (rule index_ok_map_shrink)
qed

lemma map_if_id: "(\<And>x. key (f x) = key x) \<Longrightarrow> map key (map (\<lambda>x. if P x then f x else x) xs) = map key xs"
  by auto

lemma approval_ids_kept:
  "burn_grant now g q s = Inr s' \<Longrightarrow> map ap_id (ds_approvals s') = map ap_id (ds_approvals s)"
  "map ap_id (ds_approvals (snd (find_applied_grant now t oper rvn sh fp s))) = map ap_id (ds_approvals s)"
  "map ap_id (ds_approvals (snd (decide_approval now a actor st s))) = map ap_id (ds_approvals s)"
  by (auto simp: burn_grant_def find_applied_grant_def expire_applied_def decide_approval_def
      set_approval_def decided_def burn_def Let_def split: if_splits option.splits)

lemma approvals_unchanged:
  "ds_transition now d st f nc s = Inr (r, s') \<Longrightarrow> ds_approvals s' = ds_approvals s"
  "touch d g s = Inr s' \<Longrightarrow> ds_approvals s' = ds_approvals s"
  by (auto dest: ds_transition_InrD(1) touch_InrD(1))

lemma create_approval_ids:
  assumes "create_approval now a q s = Inr (p, s')" "distinct (map ap_id (ds_approvals s))"
  shows "distinct (map ap_id (ds_approvals s'))"
  using assms
  by (auto simp: create_approval_def new_approval_def split: if_splits option.splits)

lemma ds_exec_approval_ids:
  assumes "distinct (map ap_id (ds_approvals s))"
  shows "distinct (map ap_id (ds_approvals (ds_after op s)))"
proof (cases op)
  case (OpReserve now d q g)
  then show ?thesis
    using assms approval_ids_kept(1) ds_reserve_InrD(4)
    by (cases "ds_reserve now d q g s") fastforce+
next
  case (OpTransition now d st f nc)
  then show ?thesis
    using assms by (cases "ds_transition now d st f nc s") (auto dest: approvals_unchanged)
next
  case (OpEvidence now d ev)
  then show ?thesis
    using assms
    by (cases "record_evidence now d ev s") (auto simp: record_evidence_def dest: approvals_unchanged)
next
  case (OpCancelIntent now d)
  then show ?thesis
    using assms
    by (cases "request_cancel now d s") (auto simp: request_cancel_def dest: approvals_unchanged)
next
  case (OpCreate now a q)
  then show ?thesis
    using assms by (cases "create_approval now a q s") (auto dest: create_approval_ids)
next
  case (OpFindGrant now t oper rvn sh fp)
  then show ?thesis using assms by (simp add: approval_ids_kept del: map_map)
next
  case (OpDecide now a actor ok)
  then show ?thesis
    using assms by (auto simp: approval_ids_kept case_prod_beta Let_def simp del: map_map)
qed

lemma ds_exec_ledger_ok:
  assumes "ledger_ok s"
  shows "ledger_ok (ds_after op s)"
proof -
  have ids: "distinct (map ap_id (ds_approvals (ds_after op s)))"
    using assms by (intro ds_exec_approval_ids) (simp add: ledger_ok_def)
  show ?thesis
  proof (cases rule: ds_exec_rows [of s op])
    case 1
    show ?thesis
      using assms ids rows_step_keys [OF 1] by (simp add: ledger_ok_def)
  next
    case (2 now d q g r)
    have adm: "admits_receipt s r (ds_after op s)"
      using 2(2) unfolding admits_receipt_def by blast
    have "distinct (map rv_id (ds_reservations (ds_after op s)))"
      using assms ds_reserve_InrD(2,3) [OF 2(2)]
      by (auto simp: ledger_ok_def insert_conflicts_def)
    then show ?thesis
      using assms ids card_lock.admit_index [OF adm] workspace_lock.admit_index [OF adm]
      by (simp add: ledger_ok_def)
  qed
qed

lemma ledger_ok_empty [simp]: "ledger_ok empty_dstore"
  by (simp add: ledger_ok_def empty_dstore_def)

interpretation ledger_system: invariant_system "\<lambda>s t. \<exists>op. t = ds_after op s" ledger_ok
  by unfold_locales (auto intro: ds_exec_ledger_ok)

lemma ds_run_steps: "(\<lambda>s t. \<exists>op. t = ds_after op s)\<^sup>*\<^sup>* s (ds_run ops s)"
proof (induction ops arbitrary: s)
  case Nil
  then show ?case by simp
next
  case (Cons op ops)
  show ?case
    by (rule converse_rtranclp_into_rtranclp [OF _ Cons.IH [of "ds_after op s", folded ds_run.simps]])
      blast
qed

lemma ds_run_ledger_ok: "ledger_ok s \<Longrightarrow> ledger_ok (ds_run ops s)"
  by (rule ledger_system.steps_inv [OF ds_run_steps])

lemma ledger_ok_reached [simp]: "ledger_ok (ds_run ops empty_dstore)"
  by (rule ds_run_ledger_ok) simp

text \<open>A row is never lost, and a closed one keeps its state for ever.\<close>

lemma ds_exec_keeps_row:
  assumes "r \<in> set (ds_reservations s)"
  shows "\<exists>r'\<in>set (ds_reservations (ds_after op s)). row_step r r'"
proof (cases rule: ds_exec_rows [of s op])
  case 1
  then show ?thesis using rows_step_mem assms by blast
next
  case (2 now d q g r0)
  then show ?thesis
    using ds_reserve_InrD(2) [OF 2(2)] assms by (auto intro: bexI [of _ r])
qed

lemma ds_run_keeps_row:
  "r \<in> set (ds_reservations s) \<Longrightarrow> \<exists>r'\<in>set (ds_reservations (ds_run ops s)). row_step r r'"
proof (induction ops arbitrary: r s)
  case Nil
  then show ?case by (auto intro: bexI [of _ r])
next
  case (Cons op ops)
  obtain r1 where r1: "r1 \<in> set (ds_reservations (ds_after op s))" "row_step r r1"
    using ds_exec_keeps_row [OF Cons.prems] by blast
  then show ?case
    using Cons.IH [OF r1(1)] by (auto intro: row_step_trans)
qed

text \<open>The state of a receipt changes only by a transition of the receipt itself.\<close>

definition moved_by :: "ds_op \<Rightarrow> reservation \<Rightarrow> reservation \<Rightarrow> bool" where
  "moved_by op r r' \<longleftrightarrow> row_step r r'
     \<and> (rv_state r' = rv_state r \<or> (\<exists>now f nc. op = OpTransition now (rv_id r) (rv_state r') f nc))"

lemma moved_by_refl [simp]: "moved_by op r r"
  by (simp add: moved_by_def)

lemma mem_map_if: "x \<in> set xs \<Longrightarrow>
    (if P x then f x else x) \<in> set (map (\<lambda>x. if P x then f x else x) xs)"
  unfolding set_map by (rule image_eqI [OF refl])

lemma touch_moved_by:
  assumes "touch d f s = Inr s'" "r \<in> set (ds_reservations s)"
    and "\<And>r. row_step r (f r) \<and> rv_state (f r) = rv_state r"
  shows "\<exists>r'\<in>set (ds_reservations s'). moved_by op r r'"
proof (rule bexI)
  show "moved_by op r (if rv_id r = d then f r else r)"
    using assms(3) by (simp add: moved_by_def)
  show "(if rv_id r = d then f r else r) \<in> set (ds_reservations s')"
  proof -
    have "ds_reservations s' = map (\<lambda>r. if rv_id r = d then f r else r) (ds_reservations s)"
      by (subst touch_InrD(1) [OF assms(1)]) simp
    then show ?thesis
      using mem_map_if [OF assms(2), of "\<lambda>r. rv_id r = d" f] by (simp only:)
  qed
qed

lemma ds_exec_row:
  assumes r: "r \<in> set (ds_reservations s)"
  shows "\<exists>r'\<in>set (ds_reservations (ds_after op s)). moved_by op r r'"
proof -
  have kept: ?thesis if "set (ds_reservations s) \<subseteq> set (ds_reservations (ds_after op s))"
    using that r by (auto intro!: bexI [of _ r])
  show ?thesis
  proof (cases op)
    case (OpReserve now d q g)
    show ?thesis
    proof (cases "ds_reserve now d q g s")
      case (Inl e)
      then show ?thesis by (intro kept) (simp add: OpReserve)
    next
      case (Inr x)
      then have "ds_reserve now d q g s = Inr (fst x, snd x)" by simp
      from ds_reserve_InrD(2) [OF this] Inr show ?thesis
        by (intro kept) (auto simp: OpReserve)
    qed
  next
    case (OpTransition now d st f nc)
    show ?thesis
    proof (cases "ds_transition now d st f nc s")
      case (Inl e)
      then show ?thesis by (intro kept) (simp add: OpTransition)
    next
      case (Inr x)
      then have "ds_transition now d st f nc s = Inr (fst x, snd x)" by simp
      from ds_transition_InrD(1) [OF this] Inr
      have "ds_reservations (ds_after op s) =
          map (\<lambda>r. if movable d nc r then moved now st f r else r) (ds_reservations s)"
        using OpTransition by simp
      moreover have "moved_by op r (if movable d nc r then moved now st f r else r)"
        using row_step_moved [of d nc r now st f] OpTransition
        by (auto simp: moved_by_def movable_def moved_def)
      ultimately show ?thesis
        using mem_map_if [OF r, of "movable d nc" "moved now st f"] by (intro bexI) simp_all
    qed
  next
    case (OpEvidence now d ev)
    show ?thesis
    proof (cases "record_evidence now d ev s")
      case (Inl e)
      then show ?thesis by (intro kept) (simp add: OpEvidence)
    next
      case (Inr s')
      then show ?thesis
        using touch_moved_by [OF Inr [unfolded record_evidence_def] r] OpEvidence
        by (simp add: row_step_def)
    qed
  next
    case (OpCancelIntent now d)
    show ?thesis
    proof (cases "request_cancel now d s")
      case (Inl e)
      then show ?thesis by (intro kept) (simp add: OpCancelIntent)
    next
      case (Inr s')
      then show ?thesis
        using touch_moved_by [OF Inr [unfolded request_cancel_def] r] OpCancelIntent
        by (simp add: row_step_def)
    qed
  next
    case (OpCreate now a q)
    have "ds_reservations (ds_after op s) = ds_reservations s"
      by (cases "create_approval now a q s") (auto simp: OpCreate reservations_unchanged)
    then show ?thesis by (intro kept) simp
  next
    case (OpFindGrant now t oper rvn sh fp)
    then show ?thesis by (intro kept) (simp add: reservations_unchanged)
  next
    case (OpDecide now a actor b)
    then show ?thesis
      by (intro kept) (simp add: reservations_unchanged case_prod_beta Let_def)
  qed
qed

lemma only_transitions_close:
  assumes ok: "ledger_ok s" and r: "r \<in> set (ds_reservations s)" and live: "rv_blocks r"
  shows "\<exists>r'\<in>set (ds_reservations (ds_after op s)). rv_id r' = rv_id r \<and> rv_task r' = rv_task r
    \<and> rv_workspace r' = rv_workspace r \<and> (rv_blocks r' \<or> (\<exists>now st f nc.
         op = OpTransition now (rv_id r) st f nc \<and> st \<in> set rv_closed_states))"
proof -
  obtain r' where "r' \<in> set (ds_reservations (ds_after op s))" "moved_by op r r'"
    using ds_exec_row [OF r] by blast
  then show ?thesis
    using live by (intro bexI [of _ r']) (auto simp: moved_by_def row_step_def rv_blocking_iff_not_closed)
qed

section \<open>The history of a grant\<close>

text \<open>The entries of a history that spend the approval \<open>a\<close>.\<close>

fun pays :: "string \<Rightarrow> ds_op \<times> bool \<Rightarrow> bool" where
  "pays a (OpReserve now d q (Some b), ok) = (ok \<and> a = b)"
| "pays a (_, ok) = False"

lemma pays_iff: "pays a (op, ok) \<longleftrightarrow> ok \<and> (\<exists>now d q. op = OpReserve now d q (Some a))"
  by (induction a "(op, ok)" rule: pays.induct) auto

definition same_approval :: "approval \<Rightarrow> approval \<Rightarrow> bool" where
  "same_approval p p' \<longleftrightarrow> ap_id p' = ap_id p \<and> ap_actors p' = ap_actors p
     \<and> ap_expires p' = ap_expires p \<and> ap_task p' = ap_task p \<and> ap_revision p' = ap_revision p
     \<and> ap_spec_hash p' = ap_spec_hash p \<and> ap_policy_fp p' = ap_policy_fp p
     \<and> ap_operation p' = ap_operation p"

definition decision_of :: "ds_op \<Rightarrow> dstore \<Rightarrow> approval \<Rightarrow> bool" where
  "decision_of op s p \<longleftrightarrow> (\<exists>t actor. op = OpDecide t (ap_id p) actor True \<and> ds_runs op s
     \<and> actor \<in> set (ap_actors p) \<and> t < ap_expires p)"

text \<open>A rewritten row that no payment touches.\<close>

definition approval_step :: "ds_op \<Rightarrow> dstore \<Rightarrow> approval \<Rightarrow> approval \<Rightarrow> bool" where
  "approval_step op s p p' \<longleftrightarrow> same_approval p p'
     \<and> (ap_state p' = ApConsumed \<longleftrightarrow> ap_state p = ApConsumed)
     \<and> (ap_state p' = ApApplied \<longrightarrow> ap_state p = ApApplied \<or> decision_of op s p)"

lemma approval_step_refl [simp]: "approval_step op s p p"
  by (simp add: approval_step_def same_approval_def)

lemma decide_step:
  assumes ids: "distinct (map ap_id (ds_approvals s))" and op: "op = OpDecide t a actor ok"
  shows "\<exists>f. ds_approvals (ds_after op s) = map f (ds_approvals s)
     \<and> (\<forall>p\<in>set (ds_approvals s). approval_step op s p (f p))"
proof -
  define st where "st = (if ok then ApApplied else ApDenied)"
  have after: "ds_after op s = snd (decide_approval t a actor st s)"
    and runs: "ds_runs op s = isOk (fst (decide_approval t a actor st s))"
    by (simp_all add: op st_def case_prod_beta Let_def)
  show ?thesis
  proof (cases "get_approval a s")
    case None
    then show ?thesis
      by (intro exI [of _ "\<lambda>p. p"]) (simp add: after decide_approval_def)
  next
    case (Some p0)
    have p0: "p0 \<in> set (ds_approvals s)" "ap_id p0 = a"
      using Some by (auto simp: get_approval_def dest: find_SomeD)
    have uniq: "p = p0" if "p \<in> set (ds_approvals s)" "ap_id p = a" for p
      using ids that p0 by (auto simp: distinct_map dest: inj_onD)
    consider "ap_state p0 \<noteq> ApPending \<or> actor \<notin> set (ap_actors p0)"
      | "ap_state p0 = ApPending" "actor \<in> set (ap_actors p0)" "ap_expires p0 \<le> t"
      | "ap_state p0 = ApPending" "actor \<in> set (ap_actors p0)" "t < ap_expires p0"
      by fastforce
    then show ?thesis
    proof cases
      case 1
      then have "ds_after op s = s"
        by (auto simp: after decide_approval_def Some)
      then show ?thesis by (intro exI [of _ "\<lambda>p. p"]) simp
    next
      case 2
      then show ?thesis
        using uniq
        by (intro exI [of _ "\<lambda>p. if ap_id p = a then decided t actor ApExpired p else p"])
          (auto simp: after decide_approval_def Some set_approval_def approval_step_def
            same_approval_def decided_def)
    next
      case 3
      then have runs': "ds_runs op s"
        by (simp add: runs decide_approval_def Some)
      have dec: "decision_of op s p0" if ok
        using that 3 runs' p0(2) by (auto simp: decision_of_def op)
      show ?thesis
        using uniq dec 3
        by (intro exI [of _ "\<lambda>p. if ap_id p = a then decided t actor st p else p"])
          (auto simp: after decide_approval_def Some set_approval_def approval_step_def
            same_approval_def decided_def st_def)
    qed
  qed
qed

lemma ds_exec_approvals:
  assumes ids: "distinct (map ap_id (ds_approvals s))"
  obtains (rewrite) f where "ds_approvals (ds_after op s) = map f (ds_approvals s)"
      "\<And>p. p \<in> set (ds_approvals s) \<Longrightarrow> approval_step op s p (f p)"
      "\<And>a. \<not> pays a (op, ds_runs op s)"
  | (create) p where "ds_approvals (ds_after op s) = ds_approvals s @ [p]" "ap_state p = ApPending"
      "\<And>a. \<not> pays a (op, ds_runs op s)"
  | (pay) now d q a where "op = OpReserve now d q (Some a)" "ds_runs op s"
      "count_where (binds_grant now a q) (ds_approvals s) = 1"
      "ds_approvals (ds_after op s) =
         map (\<lambda>p. if binds_grant now a q p then burn now p else p) (ds_approvals s)"
proof (cases op)
  case (OpReserve now d q g)
  show ?thesis
  proof (cases "ds_reserve now d q g s")
    case (Inl e)
    then show ?thesis
      using rewrite [of "\<lambda>p. p"] OpReserve by (simp add: pays_iff)
  next
    case (Inr rs)
    obtain r s' where rs: "rs = (r, s')" by (cases rs)
    have bg: "burn_grant now g q s = Inr (s'\<lparr>ds_reservations := ds_reservations s\<rparr>)"
      using ds_reserve_InrD(4) Inr rs by blast
    have after: "ds_after op s = s'" "ds_runs op s"
      using Inr rs OpReserve by simp_all
    show ?thesis
    proof (cases g)
      case None
      have "ds_approvals s' = ds_approvals s"
        using arg_cong [of _ _ ds_approvals] bg None by (fastforce simp: burn_grant_def)
      then show ?thesis
        using rewrite [of "\<lambda>p. p"] after OpReserve None by (simp add: pays_iff)
    next
      case (Some a)
      have one: "count_where (binds_grant now a q) (ds_approvals s) = 1"
        using bg Some by (auto simp: burn_grant_def split: if_splits)
      have eq: "s'\<lparr>ds_reservations := ds_reservations s\<rparr> = s\<lparr>ds_approvals :=
          map (\<lambda>p. if binds_grant now a q p then burn now p else p) (ds_approvals s)\<rparr>"
        using bg Some one by (simp add: burn_grant_def)
      have "ds_approvals s' =
          map (\<lambda>p. if binds_grant now a q p then burn now p else p) (ds_approvals s)"
        using arg_cong [OF eq, of ds_approvals] by simp
      then show ?thesis
        using pay one after OpReserve Some by simp
    qed
  qed
next
  case (OpTransition now d st f nc)
  then show ?thesis
    using rewrite [of "\<lambda>p. p"]
    by (cases "ds_transition now d st f nc s") (auto dest: approvals_unchanged)
next
  case (OpEvidence now d ev)
  then show ?thesis
    using rewrite [of "\<lambda>p. p"]
    by (cases "record_evidence now d ev s") (auto simp: record_evidence_def dest: approvals_unchanged)
next
  case (OpCancelIntent now d)
  then show ?thesis
    using rewrite [of "\<lambda>p. p"]
    by (cases "request_cancel now d s") (auto simp: request_cancel_def dest: approvals_unchanged)
next
  case (OpCreate now a q)
  show ?thesis
  proof (cases "ds_approvals (ds_after op s) = ds_approvals s")
    case True
    then show ?thesis using rewrite [of "\<lambda>p. p"] OpCreate by simp
  next
    case False
    then have "ds_approvals (ds_after op s) = ds_approvals s @ [new_approval now a q]"
      by (auto simp: OpCreate create_approval_def split: if_splits option.splits)
    then show ?thesis
      using create [of "new_approval now a q"] OpCreate by (simp add: new_approval_def)
  qed
next
  case (OpFindGrant now t oper rvn sh fp)
  then show ?thesis
    using rewrite [of "\<lambda>p. if ap_state p = ApApplied \<and> ap_expires p \<le> now
        then p\<lparr>ap_state := ApExpired\<rparr> else p"]
    by (simp add: find_applied_grant_def expire_applied_def Let_def approval_step_def
        same_approval_def)
next
  case (OpDecide now a actor ok)
  then show ?thesis
    using decide_step [OF ids OpDecide] rewrite by auto
qed

definition spent :: "string \<Rightarrow> dstore \<Rightarrow> bool" where
  "spent a s \<longleftrightarrow> (\<exists>p\<in>set (ds_approvals s). ap_id p = a \<and> ap_state p = ApConsumed)"

definition was_applied :: "(ds_op \<times> bool) list \<Rightarrow> approval \<Rightarrow> bool" where
  "was_applied h p \<longleftrightarrow> (\<exists>t actor. (OpDecide t (ap_id p) actor True, True) \<in> set h
     \<and> actor \<in> set (ap_actors p) \<and> t < ap_expires p)"

definition grants_ok :: "(ds_op \<times> bool) list \<Rightarrow> dstore \<Rightarrow> bool" where
  "grants_ok h s \<longleftrightarrow> (\<forall>a. count_where (pays a) h = (if spent a s then 1 else 0))
     \<and> (\<forall>p\<in>set (ds_approvals s). ap_state p \<in> {ApApplied, ApConsumed} \<longrightarrow> was_applied h p)"

lemma was_applied_same:
  "was_applied h p \<Longrightarrow> same_approval p p' \<Longrightarrow> was_applied (h @ h') p'"
  unfolding was_applied_def same_approval_def by auto

lemma grants_ok_step:
  assumes ids: "distinct (map ap_id (ds_approvals s))" and inv: "grants_ok h s"
  shows "grants_ok (h @ [(op, ds_runs op s)]) (ds_after op s)"
proof (cases rule: ds_exec_approvals [OF ids, of op, case_names rewrite create pay])
  case (rewrite f)
  have sp: "spent a (ds_after op s) = spent a s" for a
    using rewrite(1,2) by (auto simp: spent_def approval_step_def same_approval_def)
  have ap: "was_applied (h @ [(op, ds_runs op s)]) (f p)"
    if p: "p \<in> set (ds_approvals s)" and st: "ap_state (f p) \<in> {ApApplied, ApConsumed}" for p
  proof -
    have fp: "same_approval p (f p)"
      and "ap_state p \<in> {ApApplied, ApConsumed} \<or> decision_of op s p"
      using rewrite(2) [OF p] st by (auto simp: approval_step_def)
    then consider "was_applied h p" | "decision_of op s p"
      using inv p by (auto simp: grants_ok_def)
    then show ?thesis
    proof cases
      case 1
      then show ?thesis using fp by (rule was_applied_same)
    next
      case 2
      then show ?thesis
        using fp by (auto simp: decision_of_def was_applied_def same_approval_def)
    qed
  qed
  show ?thesis
    using inv rewrite(1,3) sp ap by (auto simp: grants_ok_def)
next
  case (create p)
  have sp: "spent a (ds_after op s) = spent a s" for a
    using create(1,2) by (auto simp: spent_def)
  show ?thesis
    using inv create sp was_applied_same [of h _ _ "[(op, ds_runs op s)]"]
    by (auto simp: grants_ok_def same_approval_def)
next
  case (pay now d q a)
  obtain p where p: "p \<in> set (ds_approvals s)" "binds_grant now a q p"
    and only: "\<And>y. y \<in> set (ds_approvals s) \<Longrightarrow> binds_grant now a q y \<Longrightarrow> y = p"
    using count_where_1E [OF pay(3)] by metis
  have pid: "ap_id p = a" "ap_state p = ApApplied"
    using p(2) by (simp_all add: binds_grant_def)
  have notspent: "\<not> spent a s"
  proof
    assume "spent a s"
    then obtain y where y: "y \<in> set (ds_approvals s)" "ap_id y = a" "ap_state y = ApConsumed"
      by (auto simp: spent_def)
    have "inj_on ap_id (set (ds_approvals s))"
      using ids by (simp add: distinct_map)
    then have "y = p"
      by (rule inj_onD) (use y p(1) pid in simp_all)
    then show False
      using y(3) pid by simp
  qed
  have sp: "spent b (ds_after op s) \<longleftrightarrow> b = a \<or> spent b s" for b
  proof
    assume "spent b (ds_after op s)"
    then obtain y where "y \<in> set (ds_approvals s)"
      and "ap_id (if binds_grant now a q y then burn now y else y) = b"
      and "ap_state (if binds_grant now a q y then burn now y else y) = ApConsumed"
      using pay(4) by (auto simp: spent_def)
    then show "b = a \<or> spent b s"
      by (auto simp: spent_def burn_def binds_grant_def split: if_splits)
  next
    assume "b = a \<or> spent b s"
    then obtain y where y: "y \<in> set (ds_approvals s)" "ap_id y = b"
      "binds_grant now a q y \<or> ap_state y = ApConsumed"
      using p pid by (auto simp: spent_def)
    then have "(if binds_grant now a q y then burn now y else y) \<in> set (ds_approvals (ds_after op s))"
      using pay(4) by auto
    then show "spent b (ds_after op s)"
      unfolding spent_def by (rule bexI [rotated]) (use y in \<open>auto simp: burn_def\<close>)
  qed
  have cnt: "count_where (pays b) [(op, ds_runs op s)] = (if b = a then 1 else 0)" for b
    using pay(1,2) by (auto simp: pays_iff)
  have ap: "was_applied (h @ [(op, ds_runs op s)]) p'"
    if mem: "p' \<in> set (ds_approvals (ds_after op s))"
      and st: "ap_state p' \<in> {ApApplied, ApConsumed}" for p'
  proof -
    obtain y where y: "y \<in> set (ds_approvals s)" "p' = (if binds_grant now a q y then burn now y else y)"
      using mem pay(4) by auto
    then have "ap_state y \<in> {ApApplied, ApConsumed}" "same_approval y p'"
      using st by (auto simp: binds_grant_def burn_def same_approval_def split: if_splits)
    then show ?thesis
      using inv y(1) was_applied_same by (auto simp: grants_ok_def)
  qed
  show ?thesis
    using inv cnt sp ap notspent by (auto simp: grants_ok_def)
qed

lemma ds_run_grants_ok:
  "ledger_ok s \<Longrightarrow> grants_ok h s \<Longrightarrow> grants_ok (h @ ds_history ops s) (ds_run ops s)"
proof (induction ops arbitrary: h s)
  case Nil
  then show ?case by simp
next
  case (Cons op ops)
  have "grants_ok (h @ [(op, ds_runs op s)]) (ds_after op s)"
    using Cons.prems grants_ok_step by (simp add: ledger_ok_def)
  then show ?case
    using Cons.IH [OF ds_exec_ledger_ok [OF Cons.prems(1), of op],
        of "h @ [(op, ds_runs op s)]"] by simp
qed

lemma grants_ok_once: "grants_ok h s \<Longrightarrow> count_where (pays a) h \<le> 1"
  by (simp add: grants_ok_def)

lemma grants_ok_empty [simp]: "grants_ok [] empty_dstore"
  by (simp add: grants_ok_def spent_def empty_dstore_def)

end
