(* ===== verification/KanbanLedgerClaims.thy ===== *)
theory KanbanLedgerClaims
  imports KanbanStoreProps
begin

text \<open>The properties of the receipt ledger of the Kanban dispatcher.\<close>

section \<open>Concrete ledgers\<close>

definition sample_scope :: dispatch_scope where
  "sample_scope = \<lparr>sc_task = ''t1'', sc_revision = ''1'', sc_spec_hash = ''h'', sc_policy_fp = ''p'',
     sc_workspace = ''w1'', sc_base = ''b'', sc_route = ''worker.code.standard''\<rparr>"

definition grant_request :: approval_request where
  "grant_request = \<lparr>aq_task = ''t1'', aq_revision = ''1'', aq_spec_hash = ''h'', aq_policy_fp = ''p'',
     aq_operation = ''dispatch'', aq_run = None, aq_actors = [''op''], aq_ttl = 10\<rparr>"

definition sample_ops :: "ds_op list" where
  "sample_ops = [OpCreate 1 ''a1'' grant_request, OpDecide 2 ''a1'' ''op'' True]"

definition sample_pay :: ds_op where
  "sample_pay = OpReserve 3 ''d1'' sample_scope (Some ''a1'')"

definition sample_lost :: "ds_op list" where
  "sample_lost = [OpReserve 3 ''d1'' sample_scope None, OpTransition 4 ''d1'' RvUnknown no_fields False]"

lemmas sample_ledger_defs = sample_scope_def grant_request_def sample_ops_def sample_pay_def
  sample_lost_def empty_dstore_def

lemmas ledger_eval = ds_reserve_def burn_grant_def binds_grant_def burn_def new_reservation_def
  insert_conflicts_def create_approval_def new_approval_def pending_approval_for_def
  decide_approval_def get_approval_def set_approval_def decided_def ds_transition_def movable_def
  moved_def ds_get_def rv_state_sets no_fields_def Let_def

section \<open>Receipts\<close>

text \<open>
  C8. At most one receipt that is live or unknown exists per card and per workspace, whatever
  sequence of operations all processes issue: such a receipt is the only one of its card and of
  its workspace, no other reservation of either is admitted whatever grant it brings, and the
  receipt goes on blocking through every operation but a transition of itself to a closed state.
  A crash cannot release it, because only a transition can.
\<close>

theorem one_receipt_per_card:
  assumes r: "r \<in> set (ds_reservations (ds_run ops empty_dstore))" and live: "rv_blocks r"
  shows "(\<forall>x\<in>set (ds_reservations (ds_run ops empty_dstore)).
            rv_blocks x \<and> (rv_task x = rv_task r \<or> rv_workspace x = rv_workspace r) \<longrightarrow> x = r)
    \<and> (\<forall>now d q g. sc_task q = rv_task r \<or> sc_workspace q = rv_workspace r \<longrightarrow>
         \<not> isOk (ds_reserve now d q g (ds_run ops empty_dstore)))
    \<and> (\<forall>op. \<exists>r'\<in>set (ds_reservations (ds_after op (ds_run ops empty_dstore))).
         rv_id r' = rv_id r \<and> rv_task r' = rv_task r \<and> rv_workspace r' = rv_workspace r
         \<and> (rv_blocks r' \<or> (\<exists>now st f nc. op = OpTransition now (rv_id r) st f nc
              \<and> st \<in> set rv_closed_states)))"
proof (intro conjI allI ballI impI)
  let ?s = "ds_run ops empty_dstore"
  have ok: "ledger_ok ?s" by simp
  fix x
  assume "x \<in> set (ds_reservations ?s)"
    and "rv_blocks x \<and> (rv_task x = rv_task r \<or> rv_workspace x = rv_workspace r)"
  then show "x = r"
    using ok r live card_lock.one_holder [of ?s x r] workspace_lock.one_holder [of ?s x r]
    by (auto simp: ledger_ok_def)
next
  fix now d g and q :: dispatch_scope
  assume "sc_task q = rv_task r \<or> sc_workspace q = rv_workspace r"
  then show "\<not> isOk (ds_reserve now d q g (ds_run ops empty_dstore))"
    using r live ds_reserve_InrD(1,3) [of now d q g]
    by (fastforce simp: isOk_iff insert_conflicts_def new_reservation_def rv_state_sets)
next
  fix op
  show "\<exists>r'\<in>set (ds_reservations (ds_after op (ds_run ops empty_dstore))).
      rv_id r' = rv_id r \<and> rv_task r' = rv_task r \<and> rv_workspace r' = rv_workspace r
      \<and> (rv_blocks r' \<or> (\<exists>now st f nc. op = OpTransition now (rv_id r) st f nc
           \<and> st \<in> set rv_closed_states))"
    using only_transitions_close [OF _ r live] by simp
qed

section \<open>Grants\<close>

text \<open>
  C9. An approval pays for at most one reservation, and only for the exact scope it was asked
  for: when a reservation that spends the approval \<open>a\<close> is admitted, an actor of its allowlist
  had applied it before it expired, it has not expired since, its card, revision, spec hash and
  policy fingerprint are those of the reservation, and over the whole history of the ledger,
  whatever happens before and after, no other reservation spends it.
\<close>

theorem grant_pays_once:
  assumes "ds_runs (OpReserve now d q (Some a)) (ds_run ops empty_dstore)"
  shows "(\<exists>p t actor. p \<in> set (ds_approvals (ds_run ops empty_dstore)) \<and> ap_id p = a
      \<and> ap_operation p = ''dispatch'' \<and> ap_task p = sc_task q \<and> ap_revision p = sc_revision q
      \<and> ap_spec_hash p = sc_spec_hash q \<and> ap_policy_fp p = sc_policy_fp q \<and> now < ap_expires p
      \<and> (OpDecide t a actor True, True) \<in> set (ds_history ops empty_dstore)
      \<and> actor \<in> set (ap_actors p) \<and> t < ap_expires p)
    \<and> count_where (pays a)
        (ds_history (ops @ OpReserve now d q (Some a) # later) empty_dstore) = 1"
proof
  let ?s = "ds_run ops empty_dstore" and ?op = "OpReserve now d q (Some a)"
  have inv: "grants_ok (ds_history ops empty_dstore) ?s"
    using ds_run_grants_ok [of empty_dstore "[]" ops] by simp
  have ids: "distinct (map ap_id (ds_approvals ?s))"
    using ledger_ok_reached [of ops] unfolding ledger_ok_def by blast
  obtain p where p: "p \<in> set (ds_approvals ?s)" "binds_grant now a q p"
  proof (cases rule: ds_exec_approvals [OF ids, of ?op, case_names rewrite create pay])
    case (pay now' d' q' a')
    show ?thesis
      using that pay(1) by (auto intro: count_where_1E [OF pay(3)])
  qed (use assms in \<open>auto simp: pays_iff\<close>)
  then have "was_applied (ds_history ops empty_dstore) p"
    using inv by (auto simp: grants_ok_def binds_grant_def)
  then show "\<exists>p t actor. p \<in> set (ds_approvals ?s) \<and> ap_id p = a
      \<and> ap_operation p = ''dispatch'' \<and> ap_task p = sc_task q \<and> ap_revision p = sc_revision q
      \<and> ap_spec_hash p = sc_spec_hash q \<and> ap_policy_fp p = sc_policy_fp q \<and> now < ap_expires p
      \<and> (OpDecide t a actor True, True) \<in> set (ds_history ops empty_dstore)
      \<and> actor \<in> set (ap_actors p) \<and> t < ap_expires p"
    using p by (auto simp: was_applied_def binds_grant_def)
next
  let ?h = "ds_history (ops @ OpReserve now d q (Some a) # later) empty_dstore"
  have "grants_ok ?h (ds_run (ops @ OpReserve now d q (Some a) # later) empty_dstore)"
    using ds_run_grants_ok [of empty_dstore "[]"] by (metis append_Nil grants_ok_empty ledger_ok_empty)
  then have "count_where (pays a) ?h \<le> 1"
    by (rule grants_ok_once)
  moreover have "count_where (pays a) ?h \<ge> 1"
    using assms by simp
  ultimately show "count_where (pays a) ?h = 1"
    by (rule antisym)
qed

text \<open>A receipt left unknown by a crash, and an applied grant being spent.\<close>

theorem one_receipt_per_card_witness:
  "\<exists>r\<in>set (ds_reservations (ds_run sample_lost empty_dstore)).
     rv_blocks r \<and> \<not> isOk (ds_reserve 9 ''d2'' sample_scope None (ds_run sample_lost empty_dstore))"
proof -
  have r: "moved 4 RvUnknown no_fields (new_reservation 3 ''d1'' sample_scope)
      \<in> set (ds_reservations (ds_run sample_lost empty_dstore))"
    by (simp add: sample_ledger_defs ledger_eval)
  have live: "rv_blocks (moved 4 RvUnknown no_fields (new_reservation 3 ''d1'' sample_scope))"
    by (simp add: moved_def rv_state_sets)
  have card: "sc_task sample_scope = rv_task (moved 4 RvUnknown no_fields
      (new_reservation 3 ''d1'' sample_scope))"
    by (simp add: moved_def new_reservation_def)
  show ?thesis
    using one_receipt_per_card [OF r live, THEN conjunct2, THEN conjunct1] card r live by blast
qed

lemma sample_create: "create_approval 1 ''a1'' grant_request empty_dstore =
    Inr (new_approval 1 ''a1'' grant_request,
      empty_dstore\<lparr>ds_approvals := [new_approval 1 ''a1'' grant_request]\<rparr>)"
  by (simp add: create_approval_def pending_approval_for_def empty_dstore_def grant_request_def)

lemma sample_decide: "decide_approval 2 ''a1'' ''op'' ApApplied
    (empty_dstore\<lparr>ds_approvals := [new_approval 1 ''a1'' grant_request]\<rparr>) =
    (Inr (decided 2 ''op'' ApApplied (new_approval 1 ''a1'' grant_request)),
     empty_dstore\<lparr>ds_approvals := [decided 2 ''op'' ApApplied (new_approval 1 ''a1'' grant_request)]\<rparr>)"
  by (simp add: decide_approval_def get_approval_def set_approval_def new_approval_def
      grant_request_def)

lemma sample_ops_run: "ds_run sample_ops empty_dstore =
    \<lparr>ds_reservations = [], ds_approvals =
       [decided 2 ''op'' ApApplied (new_approval 1 ''a1'' grant_request)]\<rparr>"
  by (simp add: sample_ops_def sample_create sample_decide) (simp add: empty_dstore_def)

lemma sample_pays: "ds_runs sample_pay (ds_run sample_ops empty_dstore)"
  by (simp add: sample_ops_run sample_pay_def ds_reserve_def burn_grant_def binds_grant_def
      decided_def new_approval_def grant_request_def sample_scope_def insert_conflicts_def Let_def)

theorem grant_pays_once_witness:
  "count_where (pays ''a1'') (ds_history (sample_ops @ sample_pay #
     [OpReserve 5 ''d2'' sample_scope (Some ''a1'')]) empty_dstore) = 1"
  unfolding sample_pay_def
  by (rule grant_pays_once [THEN conjunct2]) (rule sample_pays [unfolded sample_pay_def])

end
