(* ===== verification/KanbanPolicy.thy ===== *)
theory KanbanPolicy
  imports PyText "HOL-Library.Char_ord" "HOL-Library.List_Lexorder"
begin

text \<open>
  The card contract and the routing policy of the Kanban dispatcher
  (\<^verbatim>\<open>packages/kanban/src/cli_provider_kanban/models.py\<close> and \<^verbatim>\<open>policy.py\<close>). A dictionary that comes from
  the policy file is an association list in the order of the file. \<open>policy_ok\<close> is what the
  validators of the models accept; decoding YAML or JSON into typed fields is pydantic's and not
  modelled.
\<close>

section \<open>Enumerations\<close>

datatype jev_role = RoWorker | RoPlanner | RoReviewer | RoResearcher
datatype tier = TiFree | TiEasy | TiStandard | TiHard | TiMax
datatype effort_hint = HiAuto | HiEconomy | HiBalanced | HiThorough | HiMaximum
datatype work_kind = WkImplement | WkReview | WkResearch | WkPlan
datatype readiness = DrReady | DrDraft | DrUnclear
datatype scope_size = SsSmall | SsMedium | SsLarge
datatype risk_flag =
  RkAuthn | RkAuthz | RkSecurity | RkBilling | RkDestruction | RkMigration | RkProduction | RkExternal
datatype jev_action = AcExecute | AcReplan | AcNeedsApproval | AcHold
datatype cost_tier = CoFree | CoLow | CoStandard | CoHigh | CoUnknown
datatype backend_kind = BkDevin | BkAntigravity | BkBai | BkCommandCode
datatype transport = TrNative | TrApi

fun jev_role_text :: "jev_role \<Rightarrow> string" where
  "jev_role_text RoWorker = ''worker''"
| "jev_role_text RoPlanner = ''planner''"
| "jev_role_text RoReviewer = ''reviewer''"
| "jev_role_text RoResearcher = ''researcher''"

fun tier_text :: "tier \<Rightarrow> string" where
  "tier_text TiFree = ''free''"
| "tier_text TiEasy = ''easy''"
| "tier_text TiStandard = ''standard''"
| "tier_text TiHard = ''hard''"
| "tier_text TiMax = ''max''"

fun hint_text :: "effort_hint \<Rightarrow> string" where
  "hint_text HiAuto = ''auto''"
| "hint_text HiEconomy = ''economy''"
| "hint_text HiBalanced = ''balanced''"
| "hint_text HiThorough = ''thorough''"
| "hint_text HiMaximum = ''maximum''"

definition all_roles :: "jev_role list" where
  "all_roles = [RoWorker, RoPlanner, RoReviewer, RoResearcher]"

definition all_tiers :: "tier list" where
  "all_tiers = [TiFree, TiEasy, TiStandard, TiHard, TiMax]"

definition all_hints :: "effort_hint list" where
  "all_hints = [HiAuto, HiEconomy, HiBalanced, HiThorough, HiMaximum]"

definition all_risks :: "risk_flag list" where
  "all_risks = [RkAuthn, RkAuthz, RkSecurity, RkBilling, RkDestruction, RkMigration, RkProduction,
     RkExternal]"

lemma in_all_risks [simp]: "f \<in> set all_risks"
  by (cases f) (simp_all add: all_risks_def)

fun kind_text :: "backend_kind \<Rightarrow> string" where
  "kind_text BkDevin = ''devin''"
| "kind_text BkAntigravity = ''antigravity''"
| "kind_text BkBai = ''bai''"
| "kind_text BkCommandCode = ''commandcode''"

fun kind_transport :: "backend_kind \<Rightarrow> transport" where
  "kind_transport BkDevin = TrNative"
| "kind_transport BkAntigravity = TrNative"
| "kind_transport BkBai = TrApi"
| "kind_transport BkCommandCode = TrApi"

section \<open>The card contract\<close>

record work_spec =
  wk_kind :: work_kind
  wk_design :: readiness
  wk_scope :: scope_size

record verification_spec =
  vs_argv :: "string list"
  vs_criteria :: string

record task_spec =
  ts_task_id :: string
  ts_revision :: string
  ts_role :: "jev_role option"
  ts_capability :: "string option"
  ts_tier :: "tier option"
  ts_work :: "work_spec option"
  ts_effort :: effort_hint
  ts_objective :: string
  ts_inputs :: "string list"
  ts_dependencies :: "string list"
  ts_relevant_files :: "string list"
  ts_allowed_scope :: "string list"
  ts_artifacts :: "string list"
  ts_verification :: verification_spec
  ts_acceptance :: "string list"
  ts_prohibited :: "string list"
  ts_base_revision :: string
  ts_workspace_id :: string
  ts_risk_flags :: "risk_flag list"
  ts_replan_count :: nat
  ts_decomposition :: "(nat \<times> nat) option"

text \<open>
  The field constraints and \<^verbatim>\<open>_route_inputs_present\<close>, by the field each error names. The
  revision has been coerced and stripped before.
\<close>

definition spec_errors :: "task_spec \<Rightarrow> string list" where
  "spec_errors t =
     (if id_full (ts_task_id t) then [] else [''task_id''])
     @ (if ts_revision t = '''' then [''task_revision''] else [])
     @ (if ts_capability t = Some '''' then [''capability''] else [])
     @ (if ts_objective t = '''' then [''objective''] else [])
     @ (if ts_allowed_scope t = [] then [''allowed_scope''] else [])
     @ (if vs_argv (ts_verification t) = [] then [''verification.argv''] else [])
     @ (if vs_criteria (ts_verification t) = '''' then [''verification.criteria''] else [])
     @ (if ts_acceptance t = [] then [''acceptance_criteria''] else [])
     @ (if ts_base_revision t = '''' then [''base_revision''] else [])
     @ (if id_full (ts_workspace_id t) then [] else [''workspace_id''])"

definition route_inputs_present :: "task_spec \<Rightarrow> bool" where
  "route_inputs_present t \<longleftrightarrow> ts_work t \<noteq> None
     \<or> (ts_role t \<noteq> None \<and> ts_capability t \<noteq> None \<and> ts_tier t \<noteq> None)"

text \<open>The model validator runs only where every field passed.\<close>

definition validate_spec :: "task_spec \<Rightarrow> string list + task_spec" where
  "validate_spec t =
     (if spec_errors t \<noteq> [] then Inl (spec_errors t)
      else if \<not> route_inputs_present t then Inl [''<root>'']
      else Inr t)"

section \<open>The policy\<close>

record backend =
  bk_id :: string
  bk_kind :: backend_kind
  bk_transport :: transport
  bk_model :: "string option"
  bk_preset :: "string option"
  bk_driver :: "string option"
  bk_enabled :: bool
  bk_requires_canary :: bool
  bk_capabilities :: "(string \<times> bool) list"
  bk_cost :: cost_tier
  bk_effort_map :: "(string \<times> string option) list"
  bk_disabled_reason :: "string option"

record workspace_entry =
  we_repo :: string
  we_worktree_root :: "string option"
  we_wrapper_id :: "string option"
  we_prepared :: "string option"
  we_runner_config :: "string option"
  we_effort_pin :: "string option"
  we_allow_ephemeral :: bool

record notify_target =
  nt_platform :: string
  nt_chat_id :: string
  nt_thread_id :: "string option"
  nt_user_id :: "string option"

record approval_policy =
  ay_tiers :: "tier list"
  ay_risk_flags :: "risk_flag list"
  ay_cost_tiers :: "cost_tier list"
  ay_expiry :: nat
  ay_notify :: "notify_target option"

datatype exec_mode = EmDirect | EmGateway

record execution_target =
  et_mode :: exec_mode
  et_base_url :: string
  et_model :: "string option"
  et_credential :: "string option"
  et_control_url :: "string option"
  et_control_credential :: "string option"
  et_allow_installed :: bool

record dispatch_config =
  dc_claim_ttl :: nat
  dc_heartbeat :: rat
  dc_http_timeout :: rat
  dc_max_cards_per_tick :: nat
  dc_send_metadata :: bool

record verification_policy =
  vy_executables :: "(string \<times> string) list"
  vy_commands :: "string list list"
  vy_timeout :: rat
  vy_max_output :: nat
  vy_max_diff :: nat

record policy =
  po_version :: string
  po_assignee :: string
  po_statuses :: "string list"
  po_conf_body :: rat
  po_conf_map :: rat
  po_conf_none :: rat
  po_min_confidence :: rat
  po_max_cards :: nat
  po_max_body :: nat
  po_max_spec :: nat
  po_max_depth :: nat
  po_max_children :: nat
  po_replan_cap :: nat
  po_approval :: approval_policy
  po_dispatch :: dispatch_config
  po_execution :: "execution_target option"
  po_wrapper_base :: "string option"
  po_node_prefix :: string
  po_assume_core_guard :: bool
  po_target_names :: "string list"
  po_operators :: "string list"
  po_operator_uids :: "(string \<times> int) list option"
  po_verification :: verification_policy
  po_capabilities :: "string list"
  po_backends :: "backend list"
  po_routes :: "(string \<times> string list) list"
  po_workspaces :: "(string \<times> workspace_entry) list"

section \<open>Approval floors\<close>

definition gated_tier_floor :: "tier list" where
  "gated_tier_floor = [TiHard, TiMax]"

definition gated_cost_floor :: "cost_tier list" where
  "gated_cost_floor = [CoUnknown]"

definition gated_tiers :: "approval_policy \<Rightarrow> tier set" where
  "gated_tiers a = set (ay_tiers a) \<union> set gated_tier_floor"

definition gated_risk_flags :: "approval_policy \<Rightarrow> risk_flag set" where
  "gated_risk_flags a = set (ay_risk_flags a) \<union> set all_risks"

definition gated_cost_tiers :: "approval_policy \<Rightarrow> cost_tier set" where
  "gated_cost_tiers a = set (ay_cost_tiers a) \<union> set gated_cost_floor"

section \<open>Validators\<close>

text \<open>\<^verbatim>\<open>_PROFILE_ID_RE\<close> is used with \<^verbatim>\<open>re.match\<close>; which profiles exist is a parameter.\<close>

definition profile_char :: "char \<Rightarrow> bool" where
  "profile_char c \<longleftrightarrow> ascii_lower c \<or> ascii_digit c \<or> c = CHR ''_'' \<or> c = CHR ''-''"

definition profile_full :: "string \<Rightarrow> bool" where
  "profile_full = token_full (\<lambda>c. ascii_lower c \<or> ascii_digit c) profile_char 63"

definition profile_reserved :: "string list" where
  "profile_reserved = [''hermes'', ''default'', ''test'', ''tmp'', ''root'', ''sudo'']"

definition external_assignee :: "(string \<Rightarrow> bool) \<Rightarrow> string \<Rightarrow> bool" where
  "external_assignee is_profile a \<longleftrightarrow>
     re_match profile_full a \<and> a \<notin> set profile_reserved \<and> \<not> is_profile a"

definition valid_statuses :: "string list" where
  "valid_statuses = [''triage'', ''todo'', ''scheduled'', ''ready'', ''running'', ''blocked'',
     ''review'', ''done'', ''archived'']"

definition is_abs :: "string \<Rightarrow> bool" where
  "is_abs p \<longleftrightarrow> starts_with p ''/''"

text \<open>\<^verbatim>\<open>"codex" in str(v).lower()\<close>.\<close>

definition lower :: "char \<Rightarrow> char" where
  "lower c = (if 65 \<le> code_of c \<and> code_of c \<le> 90 then char_of (code_of c + 32) else c)"

fun contains :: "string \<Rightarrow> string \<Rightarrow> bool" where
  "contains w [] \<longleftrightarrow> w = []"
| "contains w (c # cs) \<longleftrightarrow> starts_with (c # cs) w \<or> contains w cs"

definition mentions_codex :: "string \<Rightarrow> bool" where
  "mentions_codex s \<longleftrightarrow> contains ''codex'' (map lower s)"

definition no_codex :: "backend \<Rightarrow> bool" where
  "no_codex b \<longleftrightarrow> \<not> mentions_codex (bk_id b) \<and> \<not> mentions_codex (kind_text (bk_kind b))
     \<and> \<not> mentions_codex (case bk_model b of None \<Rightarrow> '''' | Some s \<Rightarrow> s)"

definition transport_matches :: "backend \<Rightarrow> bool" where
  "transport_matches b \<longleftrightarrow> bk_transport b = kind_transport (bk_kind b)"

definition api_effort_values :: "string list" where
  "api_effort_values = [''low'', ''high'', ''max'']"

definition py_space :: "char \<Rightarrow> bool" where
  "py_space c \<longleftrightarrow> code_of c \<in> {9, 10, 11, 12, 13, 28, 29, 30, 31, 32, 133, 160}"

definition strip :: "string \<Rightarrow> string" where
  "strip s = rev (dropWhile py_space (rev (dropWhile py_space s)))"

definition effort_wire_ok :: "backend \<Rightarrow> string option \<Rightarrow> bool" where
  "effort_wire_ok b w \<longleftrightarrow>
     (if bk_transport b = TrApi then w \<in> Some ` set api_effort_values
      else if bk_kind b = BkDevin then w = None
      else case w of None \<Rightarrow> True | Some v \<Rightarrow> strip v \<noteq> '''')"

definition effort_map_verified :: "backend \<Rightarrow> bool" where
  "effort_map_verified b \<longleftrightarrow>
     (\<forall>(h, w)\<in>set (bk_effort_map b). h \<in> hint_text ` set all_hints \<and> effort_wire_ok b w)"

definition api_wired :: "backend \<Rightarrow> bool" where
  "api_wired b \<longleftrightarrow> (bk_transport b = TrApi \<longrightarrow> bk_preset b \<noteq> None \<and> bk_preset b \<noteq> Some '''')"

definition backend_ok :: "backend \<Rightarrow> bool" where
  "backend_ok b \<longleftrightarrow> id_full (bk_id b) \<and> no_codex b \<and> transport_matches b
     \<and> effort_map_verified b \<and> api_wired b"

definition workspace_ok :: "workspace_entry \<Rightarrow> bool" where
  "workspace_ok w \<longleftrightarrow>
     is_abs (we_repo w)
     \<and> (\<forall>p\<in>set_option (we_worktree_root w) \<union> set_option (we_prepared w)
          \<union> set_option (we_runner_config w). is_abs p)
     \<and> (\<forall>i\<in>set_option (we_wrapper_id w). id_full i)
     \<and> (\<forall>e\<in>set_option (we_effort_pin w). e \<in> set api_effort_values)
     \<and> (we_prepared w = None \<longleftrightarrow> we_runner_config w = None)
     \<and> \<not> (we_prepared w \<noteq> None \<and> we_allow_ephemeral w)
     \<and> (we_allow_ephemeral w \<longrightarrow> we_worktree_root w \<noteq> None)"

definition command_ok :: "(string \<times> string) list \<Rightarrow> string list \<Rightarrow> bool" where
  "command_ok exes entry \<longleftrightarrow> entry \<noteq> [] \<and> '''' \<notin> set entry \<and> ''*'' \<notin> set (butlast entry)
     \<and> (is_abs (hd entry) \<or> hd entry \<in> fst ` set exes)"

definition verification_ok :: "verification_policy \<Rightarrow> bool" where
  "verification_ok v \<longleftrightarrow> (\<forall>(n, p)\<in>set (vy_executables v). is_abs p)
     \<and> list_all (command_ok (vy_executables v)) (vy_commands v)"

definition dispatch_config_ok :: "dispatch_config \<Rightarrow> bool" where
  "dispatch_config_ok d \<longleftrightarrow> 60 \<le> dc_claim_ttl d \<and> 0 < dc_heartbeat d \<and> 0 < dc_http_timeout d
     \<and> 1 \<le> dc_max_cards_per_tick d \<and> dc_heartbeat d < of_nat (dc_claim_ttl d)"

definition control_ok :: "policy \<Rightarrow> bool" where
  "control_ok p \<longleftrightarrow> (case po_operator_uids p of None \<Rightarrow> True
     | Some m \<Rightarrow> fst ` set m \<subseteq> set (po_operators p))"

definition dot :: char where "dot = CHR ''.''"

definition route_key_ok :: "policy \<Rightarrow> string \<Rightarrow> bool" where
  "route_key_ok p k \<longleftrightarrow> (case split_on dot k of
       [r, c, t] \<Rightarrow> r \<in> jev_role_text ` set all_roles \<and> c \<in> set (po_capabilities p)
         \<and> t \<in> tier_text ` set all_tiers
     | _ \<Rightarrow> False)"

definition policy_references :: "policy \<Rightarrow> bool" where
  "policy_references p \<longleftrightarrow> distinct (map bk_id (po_backends p))
     \<and> (\<forall>(k, cands)\<in>set (po_routes p). route_key_ok p k
          \<and> set cands \<subseteq> bk_id ` set (po_backends p))
     \<and> distinct (po_target_names p)"

text \<open>
  The checks of a loaded policy; those of its execution target are in \<^verbatim>\<open>KanbanUrl\<close>. The keys of a
  JSON or YAML mapping are distinct.
\<close>

definition policy_ok :: "(string \<Rightarrow> bool) \<Rightarrow> policy \<Rightarrow> bool" where
  "policy_ok is_profile p \<longleftrightarrow> po_version p \<noteq> '''' \<and> external_assignee is_profile (po_assignee p)
     \<and> set (po_statuses p) \<subseteq> set valid_statuses \<and> po_capabilities p \<noteq> []
     \<and> 1 \<le> po_max_cards p \<and> 1 \<le> po_max_body p \<and> 1 \<le> po_max_spec p
     \<and> id_full (po_node_prefix p) \<and> 1 \<le> ay_expiry (po_approval p) \<and> dispatch_config_ok (po_dispatch p) \<and> control_ok p
     \<and> verification_ok (po_verification p)
     \<and> list_all backend_ok (po_backends p)
     \<and> list_all (\<lambda>(i, w). workspace_ok w) (po_workspaces p)
     \<and> distinct (map fst (po_routes p)) \<and> distinct (map fst (po_workspaces p))
     \<and> policy_references p"

section \<open>Candidates and effort\<close>

definition backend_map :: "policy \<Rightarrow> string \<rightharpoonup> backend" where
  "backend_map p = dict_by bk_id (po_backends p)"

definition route_key :: "jev_role \<Rightarrow> string \<Rightarrow> tier \<Rightarrow> string" where
  "route_key r c t = jev_role_text r @ ''.'' @ c @ ''.'' @ tier_text t"

definition available :: "string \<Rightarrow> backend \<Rightarrow> bool" where
  "available cap b \<longleftrightarrow> bk_enabled b \<and> map_of (bk_capabilities b) cap = Some True"

text \<open>\<^verbatim>\<open>by_id[candidate_id]\<close> raises \<^verbatim>\<open>KeyError\<close> on an unknown id, which \<^verbatim>\<open>_cross_references\<close> excludes.\<close>

definition available_candidates :: "policy \<Rightarrow> string list \<Rightarrow> string \<Rightarrow> backend list" where
  "available_candidates p cands cap =
     filter (available cap) (List.map_filter (backend_map p) cands)"

definition effort_of :: "effort_hint \<Rightarrow> backend \<Rightarrow> string option option" where
  "effort_of h b =
     (if h = HiAuto \<and> bk_kind b = BkDevin then Some None
      else map_of (bk_effort_map b) (hint_text h))"

text \<open>
  \<^verbatim>\<open>resolve_effort\<close>: the ids without a mapping, or the wire value of every available candidate.
\<close>

definition route_effort ::
  "policy \<Rightarrow> string list \<Rightarrow> string \<Rightarrow> effort_hint \<Rightarrow> string list + (string \<times> string option) list" where
  "route_effort p cands cap h =
     (let av = available_candidates p cands cap;
          unsupported = map bk_id (filter (\<lambda>b. effort_of h b = None) av)
      in if unsupported \<noteq> [] then Inl unsupported
         else Inr (List.map_filter (\<lambda>b. map_option (Pair (bk_id b)) (effort_of h b)) av))"

section \<open>Facts about loaded policies\<close>

lemma available_candidateD:
  "b \<in> set (available_candidates p cands cap) \<Longrightarrow>
     b \<in> set (po_backends p) \<and> bk_id b \<in> set cands \<and> available cap b"
  by (auto simp: available_candidates_def map_filter_def backend_map_def dest: dict_by_SomeD
      split: option.splits)

lemma route_effort_InrD:
  assumes "route_effort p cands cap h = Inr m"
  shows "map fst m = map bk_id (available_candidates p cands cap)"
    and "(i, w) \<in> set m \<Longrightarrow> \<exists>b\<in>set (available_candidates p cands cap).
           bk_id b = i \<and> effort_of h b = Some w"
proof -
  let ?av = "available_candidates p cands cap"
  have m: "m = List.map_filter (\<lambda>b. map_option (Pair (bk_id b)) (effort_of h b)) ?av"
    and all: "\<forall>b\<in>set ?av. effort_of h b \<noteq> None"
    using assms by (auto simp: route_effort_def Let_def filter_empty_conv split: if_splits)
  show "map fst m = map bk_id ?av"
    using all unfolding m by (induction ?av) (auto simp: map_filter_def comp_def
      filter_id_conv intro!: map_cong)
  show "\<exists>b\<in>set ?av. bk_id b = i \<and> effort_of h b = Some w" if "(i, w) \<in> set m"
    using that unfolding m by (auto simp: map_filter_def split: option.splits)
qed

end
