(* ===== verification/KanbanClassifier.thy ===== *)
theory KanbanClassifier
  imports KanbanPolicy
begin

text \<open>
  From a board card to a logical decision: \<^verbatim>\<open>spec.py\<close> finds the card contract in the body or the
  task map, \<^verbatim>\<open>classifier.py\<close> derives the route and the recommended action
  (\<^verbatim>\<open>packages/kanban/src/cli_provider_kanban\<close>). Decoding JSON is a parameter. The text of a
  reason is a constructor for the branch that wrote it.
\<close>

section \<open>Cards\<close>

record board_task =
  bt_id :: string
  bt_title :: string
  bt_body :: "string option"
  bt_assignee :: "string option"
  bt_status :: string
  bt_priority :: int
  bt_created_at :: int
  bt_workspace_kind :: string
  bt_workspace_path :: "string option"
  bt_model_override :: "string option"
  bt_provider_override :: "string option"
  bt_reasoning_effort :: "string option"
  bt_max_retries :: "int option"
  bt_parents :: "string list"

text \<open>A Python string field is true where it is neither \<^verbatim>\<open>None\<close> nor empty.\<close>

definition truthy :: "string option \<Rightarrow> bool" where
  "truthy v \<longleftrightarrow> v \<noteq> None \<and> v \<noteq> Some ''''"

section \<open>Finding the contract\<close>

text \<open>
  What \<^verbatim>\<open>json.loads\<close> and pydantic's decoding make of a text: no JSON, no object, or an object with
  the \<^verbatim>\<open>task_id\<close> it declares and either the errors of its shape or the typed fields.
\<close>

datatype spec_json =
    NotJson
  | NotObject
  | SpecObject "string option" "string list + task_spec"

datatype spec_source = SrcBody | SrcTaskMap | SrcNone

datatype spec_problem =
    InvalidJson
  | NotAnObject
  | IdMismatch "string option"
  | SchemaErrors "string list"
  | BodyTooLong
  | BlockTooLong
  | MultipleBlocks

record spec_result =
  sr_spec :: "task_spec option"
  sr_source :: spec_source
  sr_errors :: "spec_problem list"

definition spec_found :: "spec_source \<Rightarrow> string list + task_spec \<Rightarrow> spec_result" where
  "spec_found src d =
     (case bindE d validate_spec of
        Inl es \<Rightarrow> \<lparr>sr_spec = None, sr_source = src, sr_errors = [SchemaErrors es]\<rparr>
      | Inr t \<Rightarrow> \<lparr>sr_spec = Some t, sr_source = src, sr_errors = []\<rparr>)"

definition spec_bad :: "spec_source \<Rightarrow> spec_problem \<Rightarrow> spec_result" where
  "spec_bad src e = \<lparr>sr_spec = None, sr_source = src, sr_errors = [e]\<rparr>"

definition parse_spec_json :: "(string \<Rightarrow> spec_json) \<Rightarrow> string \<Rightarrow> string \<Rightarrow> spec_result" where
  "parse_spec_json loads raw t =
     (case loads raw of
        NotJson \<Rightarrow> spec_bad SrcBody InvalidJson
      | NotObject \<Rightarrow> spec_bad SrcBody NotAnObject
      | SpecObject declared d \<Rightarrow>
          if declared \<noteq> Some t then spec_bad SrcBody (IdMismatch declared)
          else spec_found SrcBody d)"

definition no_spec :: spec_result where
  "no_spec = \<lparr>sr_spec = None, sr_source = SrcNone, sr_errors = []\<rparr>"

text \<open>\<^verbatim>\<open>data["task_id"] = task_id\<close>: the entry gets the id of the card.\<close>

definition from_task_map :: "string \<Rightarrow> (string \<rightharpoonup> spec_json) \<Rightarrow> spec_result" where
  "from_task_map t m =
     (case m t of
        Some (SpecObject declared d) \<Rightarrow>
          (if declared \<noteq> None \<and> declared \<noteq> Some t then spec_bad SrcTaskMap (IdMismatch declared)
           else spec_found SrcTaskMap (case d of Inl e \<Rightarrow> Inl e | Inr s \<Rightarrow> Inr (s\<lparr>ts_task_id := t\<rparr>)))
      | Some _ \<Rightarrow> spec_bad SrcTaskMap NotAnObject
      | None \<Rightarrow> no_spec)"

text \<open>
  \<^verbatim>\<open>_BLOCK_RE.findall\<close>: after the opening fence \<^verbatim>\<open>\s*\n\<close> takes the white space up to its last
  newline and gives newlines back while no closing fence follows; \<^verbatim>\<open>(.*?)\<close> then runs to the first
  newline that only white space separates from a closing fence.
\<close>

definition fence :: string where "fence = ''```''"

definition block_open :: string where "block_open = ''```jev-task-spec''"

fun block_end :: "string \<Rightarrow> (string \<times> string) option" where
  "block_end [] = None"
| "block_end (c # cs) =
     (if c = newline \<and> starts_with (dropWhile py_space cs) fence
      then Some ([], drop (length fence) (dropWhile py_space cs))
      else map_option (\<lambda>(g, rest). (c # g, rest)) (block_end cs))"

text \<open>The positions at which \<^verbatim>\<open>\s*\n\<close> can stop, the latest first.\<close>

definition block_starts :: "string \<Rightarrow> string list" where
  "block_starts s = rev (map (\<lambda>i. drop (Suc i) s)
     (filter (\<lambda>i. s ! i = newline) [0..<length (takeWhile py_space s)]))"

definition block_here :: "string \<Rightarrow> (string \<times> string) option" where
  "block_here s = (if starts_with s block_open
     then find_map block_end (block_starts (drop (length block_open) s)) else None)"

lemma block_end_shorter: "block_end s = Some (g, rest) \<Longrightarrow> length rest < length s"
proof (induction s arbitrary: g)
  case Nil
  then show ?case by simp
next
  case (Cons c cs)
  have "length (dropWhile py_space cs) \<le> length cs"
    by (rule length_dropWhile_le)
  with Cons show ?case
    by (fastforce split: if_splits)
qed

lemma block_starts_shorter: "x \<in> set (block_starts s) \<Longrightarrow> length x \<le> length s"
  by (auto simp: block_starts_def)

lemma block_here_shorter:
  assumes "block_here s = Some (g, rest)"
  shows "length rest < length s"
proof -
  obtain x where "x \<in> set (block_starts (drop (length block_open) s))" "block_end x = Some (g, rest)"
    using assms by (auto simp: block_here_def dest!: find_map_SomeD split: if_splits)
  then show ?thesis
    using block_end_shorter [of x g rest] block_starts_shorter [of x "drop (length block_open) s"]
    by simp
qed

function blocks :: "string \<Rightarrow> string list" where
  "blocks s = (case block_here s of
     Some (g, rest) \<Rightarrow> g # blocks rest
   | None \<Rightarrow> (case s of [] \<Rightarrow> [] | c # cs \<Rightarrow> blocks cs))"
  by pat_completeness auto
termination
  by (relation "measure length") (auto dest: block_here_shorter)

text \<open>\<^verbatim>\<open>len(text.encode("utf-8"))\<close> for code points below 256.\<close>

definition utf8_size :: "string \<Rightarrow> nat" where
  "utf8_size s = sum_list (map (\<lambda>c. if code_of c < 128 then 1 else 2) s)"

definition resolve_spec ::
  "(string \<Rightarrow> spec_json) \<Rightarrow> board_task \<Rightarrow> (string \<rightharpoonup> spec_json) \<Rightarrow> nat \<Rightarrow> nat \<Rightarrow> spec_result" where
  "resolve_spec loads task m max_body max_spec =
     (case bt_body task of
        None \<Rightarrow> from_task_map (bt_id task) m
      | Some body \<Rightarrow>
          if strip body = '''' then from_task_map (bt_id task) m
          else if max_body < utf8_size body then spec_bad SrcNone BodyTooLong
          else (case blocks body of
              [] \<Rightarrow> (if starts_with (strip body) ''{''
                     then parse_spec_json loads (strip body) (bt_id task)
                     else from_task_map (bt_id task) m)
            | [b] \<Rightarrow> (if max_spec < utf8_size b then spec_bad SrcBody BlockTooLong
                      else parse_spec_json loads b (bt_id task))
            | _ \<Rightarrow> spec_bad SrcBody MultipleBlocks))"

section \<open>Decisions\<close>

datatype jev_reason =
    UntrustedOverrides
  | InvalidSpec "spec_problem list"
  | NoContract
  | ForeignSpec
  | DesignNotReady
  | ConflictingHints
  | UnknownCapability
  | UntrustedWorkspace
  | DependencyDrift
  | TooDeep
  | TooManyChildren
  | NoRoute
  | LowConfidence
  | ReplanCapExceeded
  | GatedRisks
  | GatedTier
  | NoCandidate
  | GatedCost "string list"
  | RouteResolved

record jev_decision =
  jd_task_id :: string
  jd_revision :: string
  jd_role :: jev_role
  jd_capability :: "string option"
  jd_tier :: "tier option"
  jd_hint :: "effort_hint option"
  jd_route :: "string option"
  jd_action :: jev_action
  jd_risk_flags :: "risk_flag list"
  jd_confidence :: rat
  jd_reason :: jev_reason
  jd_policy_version :: string

fun work_role_capability :: "work_kind \<Rightarrow> jev_role \<times> string" where
  "work_role_capability WkImplement = (RoWorker, ''code'')"
| "work_role_capability WkReview = (RoReviewer, ''review'')"
| "work_role_capability WkResearch = (RoResearcher, ''research'')"
| "work_role_capability WkPlan = (RoPlanner, ''planning'')"

fun scope_tier :: "scope_size \<Rightarrow> tier" where
  "scope_tier SsSmall = TiEasy"
| "scope_tier SsMedium = TiStandard"
| "scope_tier SsLarge = TiHard"

definition confidence_of :: "spec_source \<Rightarrow> policy \<Rightarrow> rat" where
  "confidence_of src p = (case src of SrcBody \<Rightarrow> po_conf_body p | SrcTaskMap \<Rightarrow> po_conf_map p
     | SrcNone \<Rightarrow> po_conf_none p)"

text \<open>The route a contract derives, or the reason to replan.\<close>

definition agrees :: "'a option \<Rightarrow> 'a \<Rightarrow> bool" where
  "agrees hint derived \<longleftrightarrow> hint = None \<or> hint = Some derived"

definition derive_route :: "task_spec \<Rightarrow> jev_reason + jev_role \<times> string \<times> tier" where
  "derive_route t =
     (case ts_work t of
        Some w \<Rightarrow>
          if wk_design w \<noteq> DrReady then Inl DesignNotReady
          else let (r, c) = work_role_capability (wk_kind w); ti = scope_tier (wk_scope w)
               in if agrees (ts_role t) r \<and> agrees (ts_capability t) c \<and> agrees (ts_tier t) ti
                  then Inr (r, c, ti) else Inl ConflictingHints
      | None \<Rightarrow>
          (case (ts_role t, ts_capability t, ts_tier t) of
             (Some r, Some c, Some ti) \<Rightarrow> Inr (r, c, ti)
           | _ \<Rightarrow> Inl NoContract))"

definition has_overrides :: "board_task \<Rightarrow> bool" where
  "has_overrides task \<longleftrightarrow> truthy (bt_model_override task) \<or> truthy (bt_provider_override task)
     \<or> truthy (bt_reasoning_effort task) \<or> truthy (bt_workspace_path task)"

text \<open>The checks between the route and its lookup, in the order of the code.\<close>

definition contract_problem ::
  "policy \<Rightarrow> board_task \<Rightarrow> task_spec \<Rightarrow> string \<Rightarrow> jev_reason option" where
  "contract_problem p task t cap =
     (if cap \<notin> set (po_capabilities p) then Some UnknownCapability
      else if map_of (po_workspaces p) (ts_workspace_id t) = None then Some UntrustedWorkspace
      else if set (ts_dependencies t) \<noteq> set (bt_parents task) then Some DependencyDrift
      else (case ts_decomposition t of
          None \<Rightarrow> None
        | Some (depth, children) \<Rightarrow>
            if po_max_depth p < depth then Some TooDeep
            else if po_max_children p < children then Some TooManyChildren
            else None))"

text \<open>The gates on a resolved route: an action and its reason.\<close>

definition gate ::
  "policy \<Rightarrow> task_spec \<Rightarrow> tier \<Rightarrow> backend list \<Rightarrow> rat \<Rightarrow> jev_action \<times> jev_reason" where
  "gate p t ti av conf =
     (if po_replan_cap p < ts_replan_count t then (AcNeedsApproval, ReplanCapExceeded)
      else if set (ts_risk_flags t) \<inter> gated_risk_flags (po_approval p) \<noteq> {}
      then (AcNeedsApproval, GatedRisks)
      else if ti \<in> gated_tiers (po_approval p) then (AcNeedsApproval, GatedTier)
      else if av = [] then (AcHold, NoCandidate)
      else let gated = map bk_id (filter (\<lambda>b. bk_cost b \<in> gated_cost_tiers (po_approval p)) av)
      in if gated \<noteq> [] then (AcNeedsApproval, GatedCost gated)
      else if conf < po_min_confidence p then (AcReplan, LowConfidence)
      else (AcExecute, RouteResolved))"

text \<open>
  A replan carries the hints of the contract and no route; the role is the hint, or the derived
  role once the work block was read.
\<close>

definition replan ::
  "policy \<Rightarrow> board_task \<Rightarrow> spec_result \<Rightarrow> jev_role option \<Rightarrow> jev_reason \<Rightarrow> jev_decision" where
  "replan p task res derived why =
     (let sp = sr_spec res in
      \<lparr>jd_task_id = bt_id task,
       jd_revision = (case sp of None \<Rightarrow> ''0'' | Some t \<Rightarrow> ts_revision t),
       jd_role = (case orelse derived (Option.bind sp ts_role) of None \<Rightarrow> RoWorker | Some r \<Rightarrow> r),
       jd_capability = Option.bind sp ts_capability,
       jd_tier = Option.bind sp ts_tier,
       jd_hint = map_option ts_effort sp,
       jd_route = None, jd_action = AcReplan,
       jd_risk_flags = (case sp of None \<Rightarrow> [] | Some t \<Rightarrow> ts_risk_flags t),
       jd_confidence = confidence_of (sr_source res) p,
       jd_reason = why, jd_policy_version = po_version p\<rparr>)"

definition classify :: "board_task \<Rightarrow> spec_result \<Rightarrow> policy \<Rightarrow> jev_decision" where
  "classify task res p =
     (if has_overrides task then replan p task res None UntrustedOverrides
      else if sr_errors res \<noteq> [] then replan p task res None (InvalidSpec (sr_errors res))
      else case sr_spec res of
        None \<Rightarrow> replan p task res None NoContract
      | Some t \<Rightarrow>
          if ts_task_id t \<noteq> bt_id task then replan p task res None ForeignSpec
          else (case derive_route t of
              Inl why \<Rightarrow> replan p task res None why
            | Inr (r, cap, ti) \<Rightarrow>
                (case contract_problem p task t cap of
                   Some why \<Rightarrow> replan p task res (Some r) why
                 | None \<Rightarrow>
                     (case map_of (po_routes p) (route_key r cap ti) of
                        None \<Rightarrow> replan p task res (Some r) NoRoute
                      | Some cands \<Rightarrow>
                          let conf = confidence_of (sr_source res) p;
                              (act, why) = gate p t ti (available_candidates p cands cap) conf
                          in if act = AcReplan then replan p task res (Some r) why
                             else \<lparr>jd_task_id = bt_id task, jd_revision = ts_revision t, jd_role = r,
                               jd_capability = Some cap, jd_tier = Some ti,
                               jd_hint = Some (ts_effort t), jd_route = Some (route_key r cap ti),
                               jd_action = act, jd_risk_flags = ts_risk_flags t,
                               jd_confidence = conf, jd_reason = why,
                               jd_policy_version = po_version p\<rparr>))))"

end
