(* ===== verification/KanbanEffects.thy ===== *)
theory KanbanEffects
  imports KanbanStoreProps KanbanClassifier
begin

text \<open>
  Programs of the dispatcher: sequences of actions on the receipt ledger, the kernel bridge, the
  wrapper and the worktrees, with exceptions. The environment is a strategy: what the other
  parties reply, and what other processes write to the ledger before the action, are functions of
  the log of actions so far, so a theorem about every environment covers every schedule. The log
  is not in the code; it is what the properties speak about.
\<close>

section \<open>Actions\<close>

record exec_meta =
  em_task_revision :: string
  em_base_revision :: string
  em_route :: string
  em_policy_version :: string

text \<open>The run view of a wrapper reply; a field that is missing or of another type is \<open>None\<close>.\<close>

record run_view =
  ru_run_id :: "string option"
  ru_attempt :: "string option"
  ru_status :: "string option"
  ru_outcome :: "string option"
  ru_task :: "string option"
  ru_workspace :: "string option"
  ru_execution :: "exec_meta option"
  ru_preset :: "string option"
  ru_synthetic :: bool

record chat_submission =
  su_model :: string
  su_task :: string
  su_workspace :: string
  su_prompt :: string
  su_execution :: "exec_meta option"

datatype submit_reply =
    Accepted string run_view
  | TransportFailed
  | HttpRefused nat "run_view option"

record kernel_task =
  kt_status :: string
  kt_metadata_revision :: "string option"
  kt_result_revision :: "string option"

record verify_result =
  vr_ok :: bool
  vr_exit :: "int option"
  vr_output :: string
  vr_truncated :: bool
  vr_timed_out :: bool

record worktree =
  wt_path :: string
  wt_branch :: "string option"

datatype block_reason =
    BrReplan jev_reason
  | BrApproval string jev_reason
  | BrPreClaim
  | BrDispatch string
  | BrCancelled

datatype effect =
    EvRead
  | EvStore ds_op bool
  | EvKernelError
  | EvLock bool
  | EvScope
  | EvGetTask string
  | EvBlock string "int option" block_reason bool
  | EvMaxRetries string
  | EvClaim string string bool "int option"
  | EvReview string string "int option" bool
  | EvReopen string "int option" bool
  | EvNotify string
  | EvSubmit string chat_submission submit_reply
  | EvCancelRun string
  | EvRepo
  | EvAncestors
  | EvPrepared
  | EvBinding
  | EvWorktree string
  | EvVerify string verify_result
  | EvArtifacts string "string list"
  | EvChanged string "string list"
  | EvCapture string
  | EvPersist string
  | EvHashes string bool
  | EvInspectFailed string

section \<open>The environment\<close>

text \<open>A call returns, fails with the exception its caller may handle, or ends the process.\<close>

datatype 'a answer = Ans 'a | Fails | Dies

text \<open>
  The writes of the control commands (\<^verbatim>\<open>control.py\<close>), which run in processes of their own: a
  cancel intent, the transitions of \<^verbatim>\<open>cancel\<close> and \<^verbatim>\<open>resolve\<close>, evidence, and approvals decided.
  The dispatch lock of the kernel keeps a second dispatcher out.
\<close>

datatype control_target = ToReview | ToBlocked | ToCancelled | ToFailed | ToUnknown

fun target_state :: "control_target \<Rightarrow> rstate" where
  "target_state ToReview = RvReview"
| "target_state ToBlocked = RvBlocked"
| "target_state ToCancelled = RvCancelled"
| "target_state ToFailed = RvFailed"
| "target_state ToUnknown = RvUnknown"

datatype control_write =
    CtlCancelIntent rat string
  | CtlTransition rat string control_target rv_fields bool
  | CtlEvidence rat string evidence
  | CtlDecide rat string string bool

fun control_op :: "control_write \<Rightarrow> ds_op" where
  "control_op (CtlCancelIntent now d) = OpCancelIntent now d"
| "control_op (CtlTransition now d to f nc) = OpTransition now d (target_state to) f nc"
| "control_op (CtlEvidence now d ev) = OpEvidence now d ev"
| "control_op (CtlDecide now a actor ok) = OpDecide now a actor ok"

text \<open>The decoded binding of a workspace in the Runner's execution config.\<close>

record runner_binding =
  rb_root :: string
  rb_presets :: "string list option"
  rb_models :: "string list option"

record env =
  en_others :: "effect list \<Rightarrow> control_write list"
  en_clock :: "effect list \<Rightarrow> rat"
  en_token :: "effect list \<Rightarrow> string"
  en_spec_hash :: "task_spec \<Rightarrow> string"
  en_policy_fp :: "policy \<Rightarrow> string"
  en_loads :: "string \<Rightarrow> spec_json"
  en_task_map :: "string \<rightharpoonup> spec_json"
  en_canon :: "string \<Rightarrow> string"
  en_kill :: "effect list \<Rightarrow> bool"
  en_lock :: "effect list \<Rightarrow> bool answer"
  en_scope :: "effect list \<Rightarrow> board_task list answer"
  en_get_task :: "effect list \<Rightarrow> kernel_task option answer"
  en_block :: "effect list \<Rightarrow> bool answer"
  en_unit :: "effect list \<Rightarrow> unit answer"
  en_claim :: "effect list \<Rightarrow> (bool \<times> int option) answer"
  en_review :: "effect list \<Rightarrow> bool answer"
  en_reopen :: "effect list \<Rightarrow> bool answer"
  en_submit :: "effect list \<Rightarrow> submit_reply answer"
  en_repo :: "effect list \<Rightarrow> string answer"
  en_ancestors :: "effect list \<Rightarrow> (string \<Rightarrow> bool) answer"
  en_prepared :: "effect list \<Rightarrow> worktree answer"
  en_binding :: "effect list \<Rightarrow> runner_binding answer"
  en_worktree :: "effect list \<Rightarrow> worktree answer"
  en_run :: "effect list \<Rightarrow> verify_result answer"
  en_artifacts :: "effect list \<Rightarrow> (string list \<times> string list) answer"
  en_changed :: "effect list \<Rightarrow> string list answer"
  en_diff :: "effect list \<Rightarrow> (string \<times> string \<times> nat) answer"
  en_hashes :: "effect list \<Rightarrow> ((string \<times> string \<times> nat) list \<times> bool) answer"

record world =
  w_env :: env
  w_store :: dstore
  w_log :: "effect list"

datatype exn =
    KernelError
  | StoreError ds_error
  | WorktreeError
  | WrapperError
  | Died

section \<open>Programs\<close>

type_synonym 'a prog = "world \<Rightarrow> (exn + 'a) \<times> world"

definition ret :: "'a \<Rightarrow> 'a prog" where
  "ret x w = (Inr x, w)"

definition throw :: "exn \<Rightarrow> 'a prog" where
  "throw e w = (Inl e, w)"

definition bindP :: "'a prog \<Rightarrow> ('a \<Rightarrow> 'b prog) \<Rightarrow> 'b prog" where
  "bindP m f w = (case m w of (Inl e, w') \<Rightarrow> (Inl e, w') | (Inr x, w') \<Rightarrow> f x w')"

text \<open>\<^verbatim>\<open>try: m except ...: h e\<close>; a handler raises again what it does not name.\<close>

definition catchP :: "'a prog \<Rightarrow> (exn \<Rightarrow> 'a prog) \<Rightarrow> 'a prog" where
  "catchP m h w = (case m w of (Inl e, w') \<Rightarrow> h e w' | (Inr x, w') \<Rightarrow> (Inr x, w'))"

definition attemptP :: "'a prog \<Rightarrow> (exn + 'a) prog" where
  "attemptP m w = (let (r, w') = m w in (Inr r, w'))"

definition foreignP :: "world \<Rightarrow> dstore" where
  "foreignP w = ds_run (map control_op (en_others (w_env w) (w_log w))) (w_store w)"

definition noted :: "dstore \<Rightarrow> effect \<Rightarrow> world \<Rightarrow> world" where
  "noted s ev w = w\<lparr>w_store := s, w_log := w_log w @ [ev]\<rparr>"

text \<open>
  The process may also end before it touches the ledger (\<open>en_kill\<close>), which leaves a read in the log.
  An action of another party; \<open>e\<close> is the exception of its failure.\<close>

definition call :: "(env \<Rightarrow> effect list \<Rightarrow> 'a answer) \<Rightarrow> exn \<Rightarrow> effect \<Rightarrow> ('a \<Rightarrow> effect) \<Rightarrow> 'a prog" where
  "call sel e failed ev w =
     (case sel (w_env w) (w_log w) of
        Ans x \<Rightarrow> (Inr x, noted (foreignP w) (ev x) w)
      | Fails \<Rightarrow> (Inl e, noted (foreignP w) failed w)
      | Dies \<Rightarrow> (Inl Died, noted (foreignP w) failed w))"

abbreviation kernel :: "(env \<Rightarrow> effect list \<Rightarrow> 'a answer) \<Rightarrow> ('a \<Rightarrow> effect) \<Rightarrow> 'a prog" where
  "kernel sel ev \<equiv> call sel KernelError EvKernelError ev"

definition ledger_read :: "(dstore \<Rightarrow> 'a) \<Rightarrow> 'a prog" where
  "ledger_read f w =
     (if en_kill (w_env w) (w_log w) then (Inl Died, noted (foreignP w) EvRead w)
      else (Inr (f (foreignP w)), noted (foreignP w) EvRead w))"

text \<open>A method of \<^verbatim>\<open>DispatchStore\<close> that writes: \<open>op\<close> is what it does, \<open>res\<close> what it returns.\<close>

definition ledger_write ::
  "(rat \<Rightarrow> string \<Rightarrow> ds_op) \<Rightarrow> (rat \<Rightarrow> string \<Rightarrow> dstore \<Rightarrow> ds_error + 'a) \<Rightarrow> 'a prog" where
  "ledger_write op res w =
     (if en_kill (w_env w) (w_log w) then (Inl Died, noted (foreignP w) EvRead w)
      else let now = en_clock (w_env w) (w_log w); tok = en_token (w_env w) (w_log w);
          s = foreignP w; (ok, s') = ds_exec (op now tok) s; w' = noted s' (EvStore (op now tok) ok) w
      in (case res now tok s of Inl e \<Rightarrow> (Inl (StoreError e), w') | Inr x \<Rightarrow> (Inr x, w')))"

definition env_value :: "(env \<Rightarrow> 'a) \<Rightarrow> 'a prog" where
  "env_value f w = (Inr (f (w_env w)), w)"

section \<open>The methods of the ledger\<close>

definition p_get :: "string \<Rightarrow> reservation option prog" where
  "p_get d = ledger_read (ds_get d)"

definition p_transition :: "string \<Rightarrow> rstate \<Rightarrow> rv_fields \<Rightarrow> bool \<Rightarrow> reservation prog" where
  "p_transition d st f nc =
     ledger_write (\<lambda>now tok. OpTransition now d st f nc)
       (\<lambda>now tok s. map_sum id fst (ds_transition now d st f nc s))"

definition p_reserve :: "dispatch_scope \<Rightarrow> string option \<Rightarrow> reservation prog" where
  "p_reserve q g =
     ledger_write (\<lambda>now tok. OpReserve now (''d_'' @ tok) q g)
       (\<lambda>now tok s. map_sum id fst (ds_reserve now (''d_'' @ tok) q g s))"

definition p_evidence :: "string \<Rightarrow> evidence \<Rightarrow> unit prog" where
  "p_evidence d ev =
     ledger_write (\<lambda>now tok. OpEvidence now d ev) (\<lambda>now tok s. map_sum id (\<lambda>_. ()) (record_evidence now d ev s))"

definition p_create_approval :: "approval_request \<Rightarrow> approval prog" where
  "p_create_approval q =
     ledger_write (\<lambda>now tok. OpCreate now (''a_'' @ tok) q)
       (\<lambda>now tok s. map_sum id fst (create_approval now (''a_'' @ tok) q s))"

definition p_find_grant :: "string \<Rightarrow> string \<Rightarrow> string \<Rightarrow> string \<Rightarrow> string \<Rightarrow> approval option prog" where
  "p_find_grant t oper rvn sh fp =
     ledger_write (\<lambda>now tok. OpFindGrant now t oper rvn sh fp)
       (\<lambda>now tok s. Inr (fst (find_applied_grant now t oper rvn sh fp s)))"

section \<open>Reasoning\<close>

text \<open>
  From every world in \<open>P\<close> the program ends in \<open>Q\<close> of what it returns or in \<open>E\<close> of what it raises.
\<close>

definition valid ::
  "(world \<Rightarrow> bool) \<Rightarrow> 'a prog \<Rightarrow> ('a \<Rightarrow> world \<Rightarrow> bool) \<Rightarrow> (exn \<Rightarrow> world \<Rightarrow> bool) \<Rightarrow> bool" where
  "valid P m Q E \<longleftrightarrow> (\<forall>w. P w \<longrightarrow> (case m w of (Inl e, w') \<Rightarrow> E e w' | (Inr x, w') \<Rightarrow> Q x w'))"

named_theorems valid_rules \<open>one rule per construct of a program\<close>

lemma validI:
  "(\<And>w. P w \<Longrightarrow> case m w of (Inl e, w') \<Rightarrow> E e w' | (Inr x, w') \<Rightarrow> Q x w') \<Longrightarrow> valid P m Q E"
  by (simp add: valid_def)

lemma valid_InrD: "valid P m Q E \<Longrightarrow> P w \<Longrightarrow> m w = (Inr x, w') \<Longrightarrow> Q x w'"
  by (auto simp: valid_def)

lemma valid_InlD: "valid P m Q E \<Longrightarrow> P w \<Longrightarrow> m w = (Inl e, w') \<Longrightarrow> E e w'"
  by (auto simp: valid_def)

lemma valid_conseq:
  assumes "valid P' m Q' E'" "\<And>w. P w \<Longrightarrow> P' w" "\<And>x w. Q' x w \<Longrightarrow> Q x w" "\<And>e w. E' e w \<Longrightarrow> E e w"
  shows "valid P m Q E"
  using assms by (fastforce simp: valid_def split: sum.splits prod.splits)

lemma valid_pre: "valid P' m Q E \<Longrightarrow> (\<And>w. P w \<Longrightarrow> P' w) \<Longrightarrow> valid P m Q E"
  by (auto simp: valid_def)

lemma valid_ret: "(\<And>w. P w \<Longrightarrow> Q x w) \<Longrightarrow> valid P (ret x) Q E"
  by (simp add: valid_def ret_def)

lemma valid_throw: "(\<And>w. P w \<Longrightarrow> E e w) \<Longrightarrow> valid P (throw e) Q E"
  by (simp add: valid_def throw_def)

lemma valid_bind:
  assumes "valid P m R E" "\<And>x. valid (R x) (f x) Q E"
  shows "valid P (bindP m f) Q E"
  using assms by (fastforce simp: valid_def bindP_def split: sum.splits prod.splits)

lemma valid_catch:
  assumes "valid P m Q R" "\<And>e. valid (R e) (h e) Q E"
  shows "valid P (catchP m h) Q E"
  using assms by (fastforce simp: valid_def catchP_def split: sum.splits prod.splits)

lemma valid_attempt:
  assumes "valid P m (\<lambda>x. Q (Inr x)) (\<lambda>e. Q (Inl e))"
  shows "valid P (attemptP m) Q E"
proof (rule validI)
  fix w
  assume "P w"
  then show "case attemptP m w of (Inl e, w') \<Rightarrow> E e w' | (Inr x, w') \<Rightarrow> Q x w'"
    using assms by (cases "m w"; cases "fst (m w)") (fastforce simp: valid_def attemptP_def)+
qed

lemma valid_env_value: "valid P (env_value f) (\<lambda>x w. P w \<and> x = f (w_env w)) E"
  by (simp add: valid_def env_value_def)

lemma valid_call:
  assumes "\<And>w x. P w \<Longrightarrow> sel (w_env w) (w_log w) = Ans x \<Longrightarrow> Q x (noted (foreignP w) (ev x) w)"
    and "\<And>w. P w \<Longrightarrow> E e (noted (foreignP w) failed w)"
    and "\<And>w. P w \<Longrightarrow> E Died (noted (foreignP w) failed w)"
  shows "valid P (call sel e failed ev) Q E"
  using assms by (auto simp: valid_def call_def split: answer.splits)

lemma valid_ledger_read:
  assumes "\<And>w. P w \<Longrightarrow> Q (f (foreignP w)) (noted (foreignP w) EvRead w)"
    and "\<And>w. P w \<Longrightarrow> E Died (noted (foreignP w) EvRead w)"
  shows "valid P (ledger_read f) Q E"
  using assms by (simp add: valid_def ledger_read_def)

lemma valid_ledger_write:
  assumes "\<And>w now tok x. P w \<Longrightarrow> res now tok (foreignP w) = Inr x \<Longrightarrow>
      Q x (noted (ds_after (op now tok) (foreignP w)) (EvStore (op now tok) (ds_runs (op now tok) (foreignP w))) w)"
    and "\<And>w now tok e. P w \<Longrightarrow> res now tok (foreignP w) = Inl e \<Longrightarrow>
      E (StoreError e) (noted (ds_after (op now tok) (foreignP w)) (EvStore (op now tok) (ds_runs (op now tok) (foreignP w))) w)"
    and "\<And>w. P w \<Longrightarrow> E Died (noted (foreignP w) EvRead w)"
  shows "valid P (ledger_write op res) Q E"
  using assms by (auto simp: valid_def ledger_write_def Let_def case_prod_beta split: sum.splits)

lemma valid_if:
  "(b \<Longrightarrow> valid P m Q E) \<Longrightarrow> (\<not> b \<Longrightarrow> valid P n Q E) \<Longrightarrow> valid P (if b then m else n) Q E"
  by simp

lemma valid_option:
  "(x = None \<Longrightarrow> valid P m Q E) \<Longrightarrow> (\<And>y. x = Some y \<Longrightarrow> valid P (f y) Q E) \<Longrightarrow>
     valid P (case x of None \<Rightarrow> m | Some y \<Rightarrow> f y) Q E"
  by (cases x) simp_all

lemma valid_sum:
  "(\<And>a. x = Inl a \<Longrightarrow> valid P (f a) Q E) \<Longrightarrow> (\<And>b. x = Inr b \<Longrightarrow> valid P (g b) Q E) \<Longrightarrow>
     valid P (case x of Inl a \<Rightarrow> f a | Inr b \<Rightarrow> g b) Q E"
  by (cases x) simp_all

end
