(* ===== verification/KanbanChecks.thy ===== *)
theory KanbanChecks
  imports KanbanPolicy
begin

text \<open>
  The pure checks of \<^verbatim>\<open>worktree.py\<close> (\<^verbatim>\<open>packages/kanban/src/cli_provider_kanban\<close>): declared scope
  against changed files, the verification command against the operator's allowlist, integrated
  dependencies, and the binding the Runner's trusted config gives a workspace. Git, the file
  system and the processes they run are parameters.
\<close>

section \<open>Glob patterns\<close>

text \<open>
  \<^verbatim>\<open>fnmatch.fnmatch\<close> of the standard library: \<^verbatim>\<open>*\<close> and \<^verbatim>\<open>?\<close> match any character, the slash included;
  \<^verbatim>\<open>[...]\<close> is a set of characters and ranges, \<^verbatim>\<open>[!...]\<close> its complement; an unclosed bracket stands
  for itself.
\<close>

datatype glob_token =
    GStar
  | GAny
  | GLit char
  | GSet bool "(char \<times> char) list"

fun glob_ranges :: "string \<Rightarrow> (char \<times> char) list" where
  "glob_ranges (a # b # c # cs) =
     (if b = CHR ''-'' then (a, c) # glob_ranges cs else (a, a) # glob_ranges (b # c # cs))"
| "glob_ranges (a # cs) = (a, a) # glob_ranges cs"
| "glob_ranges [] = []"

definition chop :: "char \<Rightarrow> string \<Rightarrow> bool \<times> string" where
  "chop c s = (if s \<noteq> '''' \<and> hd s = c then (True, tl s) else (False, s))"

text \<open>The text between the brackets and what follows; a \<^verbatim>\<open>]\<close> in first place is a member.\<close>

definition bracket :: "string \<Rightarrow> (bool \<times> string \<times> string) option" where
  "bracket s =
     (let (neg, s1) = chop (CHR ''!'') s;
          (first, s2) = chop (CHR '']'') s1;
          body = takeWhile (\<lambda>c. c \<noteq> CHR '']'') s2
      in if length body = length s2 then None
         else Some (neg, (if first then '']'' else '''') @ body, drop (Suc (length body)) s2))"

lemma chop_shorter: "length (snd (chop c s)) \<le> length s"
  by (simp add: chop_def)

lemma bracket_shorter:
  assumes "bracket s = Some (neg, body, rest)"
  shows "length rest < length s"
proof -
  define s2 where "s2 = snd (chop (CHR '']'') (snd (chop (CHR ''!'') s)))"
  have "length s2 \<le> length s"
    unfolding s2_def using chop_shorter le_trans by blast
  moreover have "s2 \<noteq> []" and "\<exists>k. rest = drop (Suc k) s2"
    using assms by (auto simp: bracket_def case_prod_beta Let_def s2_def [symmetric] split: if_splits)
  ultimately show ?thesis by (cases s2) auto
qed

function glob_tokens :: "string \<Rightarrow> glob_token list" where
  "glob_tokens s =
     (case s of
        [] \<Rightarrow> []
      | c # cs \<Rightarrow>
          if c = CHR ''*'' then GStar # glob_tokens cs
          else if c = CHR ''?'' then GAny # glob_tokens cs
          else if c = CHR ''['' then
            (case bracket cs of
               None \<Rightarrow> GLit c # glob_tokens cs
             | Some (neg, body, rest) \<Rightarrow> GSet neg (glob_ranges body) # glob_tokens rest)
          else GLit c # glob_tokens cs)"
  by pat_completeness auto
termination
  by (relation "measure length") (auto dest: bracket_shorter)

fun glob_char :: "glob_token \<Rightarrow> char \<Rightarrow> bool" where
  "glob_char GStar c = True"
| "glob_char GAny c = True"
| "glob_char (GLit d) c = (c = d)"
| "glob_char (GSet neg rs) c =
     (neg \<noteq> list_ex (\<lambda>(lo, hi). code_of lo \<le> code_of c \<and> code_of c \<le> code_of hi) rs)"

fun glob_match :: "glob_token list \<Rightarrow> string \<Rightarrow> bool" where
  "glob_match [] s = (s = [])"
| "glob_match (GStar # ts) [] = glob_match ts []"
| "glob_match (GStar # ts) (c # cs) = (glob_match ts (c # cs) \<or> glob_match (GStar # ts) cs)"
| "glob_match (t # ts) [] = False"
| "glob_match (t # ts) (c # cs) = (glob_char t c \<and> glob_match ts cs)"

definition fnmatch :: "string \<Rightarrow> string \<Rightarrow> bool" where
  "fnmatch path pat = glob_match (glob_tokens pat) path"

section \<open>Declared scope\<close>

definition slash :: char where "slash = CHR ''/''"

definition scope_char :: "char \<Rightarrow> bool" where
  "scope_char c \<longleftrightarrow> ascii_alnum c \<or> c \<in> set ''_-./*?[]{}!''"

text \<open>\<^verbatim>\<open>_SCOPE_CHARS\<close> is used with \<^verbatim>\<open>re.match\<close>.\<close>

definition scope_entry_enforceable :: "string \<Rightarrow> bool" where
  "scope_entry_enforceable e \<longleftrightarrow> e \<noteq> '''' \<and> \<not> is_abs e \<and> ''..'' \<notin> set (split_on slash e)
     \<and> re_match (\<lambda>s. s \<noteq> '''' \<and> list_all scope_char s) e"

definition scope_entry_matches :: "string \<Rightarrow> string \<Rightarrow> bool" where
  "scope_entry_matches e path \<longleftrightarrow>
     (if ends_with_slash e then starts_with path e
      else if list_ex (\<lambda>c. c \<in> set ''*?['') e then fnmatch path e
      else path = e)"

definition check_scope :: "string list \<Rightarrow> string list \<Rightarrow> string list" where
  "check_scope changed scope =
     filter (\<lambda>p. \<not> list_ex (\<lambda>e. scope_entry_matches e p) (filter scope_entry_enforceable scope)) changed"

lemma check_scope_Nil_iff:
  "check_scope changed scope = [] \<longleftrightarrow>
     (\<forall>p\<in>set changed. \<exists>e\<in>set scope. scope_entry_enforceable e \<and> scope_entry_matches e p)"
  by (auto simp: check_scope_def filter_empty_conv list_ex_iff)

section \<open>Verification commands\<close>

definition base_name :: "string \<Rightarrow> string" where
  "base_name p = (let parts = filter (\<lambda>w. w \<noteq> '''' \<and> w \<noteq> ''.'') (split_on slash p)
     in if parts = [] then '''' else last parts)"

definition resolve_argv0 :: "(string \<times> string) list \<Rightarrow> string \<Rightarrow> string option" where
  "resolve_argv0 exes a = (if is_abs a then Some a else map_of exes (base_name a))"

definition entry_allows :: "(string \<times> string) list \<Rightarrow> string list \<Rightarrow> string list \<Rightarrow> bool" where
  "entry_allows exes resolved entry =
     (case entry of
        [] \<Rightarrow> False
      | h # args \<Rightarrow>
          (case resolve_argv0 exes h of
             None \<Rightarrow> False
           | Some eh \<Rightarrow>
               let pat = eh # args in
               if last pat = ''*'' then take (length pat - 1) resolved = butlast pat
               else resolved = pat))"

definition argv_allowed ::
  "(string \<times> string) list \<Rightarrow> string list list \<Rightarrow> string list \<Rightarrow> string list option" where
  "argv_allowed exes commands argv =
     (case argv of
        [] \<Rightarrow> None
      | h # args \<Rightarrow>
          (case resolve_argv0 exes h of
             None \<Rightarrow> None
           | Some r \<Rightarrow> if list_ex (entry_allows exes (r # args)) commands then Some (r # args)
                        else None))"

section \<open>Dependencies\<close>

text \<open>\<^verbatim>\<open>_FULL_COMMIT_RE\<close> with \<^verbatim>\<open>re.match\<close>; \<open>anc\<close> is \<^verbatim>\<open>git merge-base --is-ancestor\<close> with the base.\<close>

definition hex_char :: "char \<Rightarrow> bool" where
  "hex_char c \<longleftrightarrow> ascii_digit c \<or> (97 \<le> code_of c \<and> code_of c \<le> 102)"

definition full_commit :: "string \<Rightarrow> bool" where
  "full_commit v \<longleftrightarrow> re_match (\<lambda>s. length s = 40 \<and> list_all hex_char s) v"

definition dependency_ok :: "(string \<Rightarrow> bool) \<Rightarrow> string option \<Rightarrow> bool" where
  "dependency_ok anc r = (case r of None \<Rightarrow> False | Some v \<Rightarrow> v \<noteq> '''' \<and> full_commit v \<and> anc v)"

section \<open>The Runner's binding\<close>

text \<open>
  \<^verbatim>\<open>validate_runner_binding\<close> after the trusted file was read: \<open>canon\<close> is \<^verbatim>\<open>os.path.realpath\<close>.
\<close>

definition binding_admits ::
  "(string \<Rightarrow> string) \<Rightarrow> string \<Rightarrow> string list option \<Rightarrow> string list option \<Rightarrow> string \<Rightarrow>
     string list \<Rightarrow> string list \<Rightarrow> bool" where
  "binding_admits canon bound_root presets models prepared required descriptors \<longleftrightarrow>
     is_abs bound_root \<and> canon bound_root = canon prepared \<and> required \<noteq> []
     \<and> (case presets of None \<Rightarrow> True | Some ps \<Rightarrow> set required \<subseteq> set ps)
     \<and> (case models of None \<Rightarrow> True | Some ms \<Rightarrow> set descriptors \<subseteq> set ms)"

section \<open>The prompt\<close>

fun join_lines :: "string list \<Rightarrow> string" where
  "join_lines [] = ''''"
| "join_lines [l] = l"
| "join_lines (l # ls) = l @ newline # join_lines ls"

definition bullets :: "string list \<Rightarrow> string list" where
  "bullets xs = map (\<lambda>x. ''- '' @ x) xs"

definition section_of :: "string \<Rightarrow> string list \<Rightarrow> string list" where
  "section_of title xs = ['''', title] @ bullets xs"

definition prompt_text :: "task_spec \<Rightarrow> string" where
  "prompt_text t = join_lines (
     [''Task: '' @ ts_objective t, '''', ''Base revision: '' @ ts_base_revision t]
     @ (if ts_dependencies t = [] then [] else section_of ''Depends on:'' (ts_dependencies t))
     @ section_of ''Inputs:'' (ts_inputs t)
     @ section_of ''Relevant files:'' (ts_relevant_files t)
     @ section_of ''Allowed scope:'' (ts_allowed_scope t)
     @ section_of ''Acceptance criteria:'' (ts_acceptance t)
     @ (if ts_artifacts t = [] then []
        else section_of ''Deliverables (must exist afterwards):'' (ts_artifacts t))
     @ ['''', ''Verification that will gate this work:'',
        ''- argv: '' @ join_with (CHR '' '') (vs_argv (ts_verification t)),
        ''- criteria: '' @ vs_criteria (ts_verification t)]
     @ (if ts_prohibited t = [] then [] else section_of ''Prohibited:'' (ts_prohibited t)))"

end
