(* ===== verification/KanbanCompiler.thy ===== *)
theory KanbanCompiler
  imports KanbanPolicy
begin

text \<open>
  The part of the 9Router compiler that renders a plan
  (\<^verbatim>\<open>packages/kanban/src/cli_provider_kanban/compiler.py\<close>): the driver contract, which candidate may
  become a member of a combo and under which model name, and the combos themselves. The dispatcher
  uses the same functions to bind the candidates of a route. Applying a plan over HTTP is not
  modelled.
\<close>

section \<open>The driver contract\<close>

datatype driver_contract =
    PinnedPresets "backend_kind list" "(string \<times> string \<times> string) list" "(backend_kind \<times> string) list"
  | PinnedModels "backend_kind list" "string list"

definition driver_contracts :: "(string \<times> driver_contract) list" where
  "driver_contracts =
     [(''hermes-api'', PinnedPresets [BkBai, BkCommandCode]
        [(''bai/deepseek-v4.1-flash'', ''deepseek-v4.1-flash'', ''bai:deepseek-v4.1-flash''),
         (''commandcode/deepseek-v4.1-flash'', ''deepseek/deepseek-v4.1-flash'',
           ''commandcode:deepseek-v4.1-flash'')]
        [(BkBai, ''bai/deepseek-v4.1-flash''), (BkCommandCode, ''commandcode/deepseek-v4.1-flash'')]),
      (''devin'', PinnedModels [BkDevin] [''swe-2-max''])]"

definition contract_for :: "backend \<Rightarrow> driver_contract option" where
  "contract_for b = Option.bind (bk_driver b) (map_of driver_contracts)"

fun contract_kinds :: "driver_contract \<Rightarrow> backend_kind list" where
  "contract_kinds (PinnedPresets ks _ _) = ks"
| "contract_kinds (PinnedModels ks _) = ks"

datatype ineligible = BackendDisabled | CanaryPending | CapabilityUnmapped

definition member_eligibility :: "backend \<Rightarrow> string \<Rightarrow> ineligible option" where
  "member_eligibility b cap =
     (if \<not> bk_enabled b then Some BackendDisabled
      else if bk_requires_canary b then Some CanaryPending
      else if map_of (bk_capabilities b) cap \<noteq> Some True then Some CapabilityUnmapped
      else None)"

datatype compile_error =
    NoContractFor "string option"
  | KindNotServed
  | NoPresetNorModel
  | BadAlias
  | NotThePinnedPreset
  | PresetNotPinned
  | WrongWireModel
  | ModelUnsupported

text \<open>\<^verbatim>\<open>a or b\<close> on optional strings.\<close>

definition or_else :: "string option \<Rightarrow> string option \<Rightarrow> string option" where
  "or_else a b = (case a of Some (c # cs) \<Rightarrow> a | _ \<Rightarrow> b)"

definition member_model :: "backend \<Rightarrow> compile_error + string" where
  "member_model b =
     (case contract_for b of
        None \<Rightarrow> Inl (NoContractFor (bk_driver b))
      | Some con \<Rightarrow>
          if bk_kind b \<notin> set (contract_kinds con) then Inl KindNotServed
          else (case or_else (bk_preset b) (bk_model b) of
              None \<Rightarrow> Inl NoPresetNorModel
            | Some m \<Rightarrow>
                if m = '''' then Inl NoPresetNorModel
                else if \<not> alias_ok m then Inl BadAlias
                else (case con of
                    PinnedPresets _ pins kp \<Rightarrow>
                      (if map_of kp (bk_kind b) \<notin> {None, Some m} then Inl NotThePinnedPreset
                       else case map_of pins m of
                         None \<Rightarrow> Inl PresetNotPinned
                       | Some (wire, _) \<Rightarrow>
                           if bk_model b \<noteq> Some wire then Inl WrongWireModel else Inr m)
                  | PinnedModels _ ms \<Rightarrow>
                      (if bk_model b \<notin> Some ` set ms then Inl ModelUnsupported else Inr m))))"

definition descriptor_for :: "backend \<Rightarrow> string option" where
  "descriptor_for b =
     (case contract_for b of
        None \<Rightarrow> None
      | Some (PinnedPresets _ pins _) \<Rightarrow>
          map_option snd (map_of pins (case bk_preset b of None \<Rightarrow> '''' | Some m \<Rightarrow> m))
      | Some (PinnedModels _ ms) \<Rightarrow> if bk_model b \<in> Some ` set ms then bk_model b else None)"

section \<open>Combos\<close>

definition combo_name :: "string \<Rightarrow> string" where
  "combo_name r = ''jev.'' @ r"

record combo =
  cb_name :: string
  cb_route :: string
  cb_models :: "string list"
  cb_operational :: bool
  cb_held :: bool
  cb_dropped :: "(string \<times> ineligible) list"

text \<open>The loop over the candidates of a route; \<^verbatim>\<open>seen\<close> holds the members registered so far.\<close>

fun members_of ::
  "string \<Rightarrow> string \<Rightarrow> backend list \<Rightarrow> string list \<Rightarrow> compile_error + string list" where
  "members_of prefix cap [] seen = Inr []"
| "members_of prefix cap (b # bs) seen =
     (if member_eligibility b cap \<noteq> None then members_of prefix cap bs seen
      else bindE (member_model b) (\<lambda>m.
        let member = prefix @ ''/'' @ m in
        if member \<in> set seen then members_of prefix cap bs seen
        else bindE (members_of prefix cap bs (member # seen)) (\<lambda>ms. Inr (member # ms))))"

definition dropped_of :: "string \<Rightarrow> backend list \<Rightarrow> (string \<times> ineligible) list" where
  "dropped_of cap bs =
     List.map_filter (\<lambda>b. map_option (Pair (bk_id b)) (member_eligibility b cap)) bs"

definition route_capability :: "string \<Rightarrow> string" where
  "route_capability r = (case split_on dot r of _ # c # _ \<Rightarrow> c | _ \<Rightarrow> '''')"

definition compile_route :: "policy \<Rightarrow> string \<times> string list \<Rightarrow> compile_error + combo" where
  "compile_route p rt =
     (let cands = List.map_filter (backend_map p) (snd rt); cap = route_capability (fst rt)
      in bindE (members_of (po_node_prefix p) cap cands []) (\<lambda>ms.
           Inr \<lparr>cb_name = combo_name (fst rt), cb_route = fst rt, cb_models = ms,
             cb_operational = (ms \<noteq> [] \<and> po_assume_core_guard p), cb_held = (ms = []),
             cb_dropped = dropped_of cap cands\<rparr>))"

fun mapE :: "('a \<Rightarrow> 'e + 'b) \<Rightarrow> 'a list \<Rightarrow> 'e + 'b list" where
  "mapE f [] = Inr []"
| "mapE f (x # xs) = bindE (f x) (\<lambda>y. bindE (mapE f xs) (\<lambda>ys. Inr (y # ys)))"

definition compile_combos :: "policy \<Rightarrow> compile_error + combo list" where
  "compile_combos p = mapE (compile_route p) (sort_key fst (po_routes p))"

section \<open>Bindings of a dispatch\<close>

text \<open>\<^verbatim>\<open>_candidate_bindings\<close> of \<^verbatim>\<open>dispatch.py\<close>: \<open>None\<close> where it raises \<^verbatim>\<open>WorktreeError\<close>.\<close>

fun bindings_of :: "string \<Rightarrow> backend list \<Rightarrow> (string \<times> string) list option" where
  "bindings_of cap [] = Some []"
| "bindings_of cap (b # bs) =
     (if member_eligibility b cap \<noteq> None then bindings_of cap bs
      else case (member_model b, descriptor_for b) of
        (Inr m, Some d) \<Rightarrow> map_option (Cons (m, d)) (bindings_of cap bs)
      | _ \<Rightarrow> None)"

definition candidate_bindings :: "policy \<Rightarrow> string list \<Rightarrow> string \<Rightarrow> (string \<times> string) list option" where
  "candidate_bindings p cands cap = bindings_of cap (List.map_filter (backend_map p) cands)"

section \<open>What a plan contains\<close>

lemma mapE_InrD:
  "mapE f xs = Inr ys \<Longrightarrow> list_all2 (\<lambda>x y. f x = Inr y) xs ys"
  by (induction xs arbitrary: ys) auto

lemma members_of_InrD:
  assumes "members_of prefix cap bs seen = Inr ms"
  shows "distinct ms" and "set ms \<inter> set seen = {}"
    and "x \<in> set ms \<Longrightarrow> \<exists>b\<in>set bs. member_eligibility b cap = None
           \<and> (\<exists>m. member_model b = Inr m \<and> x = prefix @ ''/'' @ m)"
    and "b \<in> set bs \<Longrightarrow> member_eligibility b cap = None \<Longrightarrow>
           \<exists>m. member_model b = Inr m \<and> prefix @ ''/'' @ m \<in> set ms \<union> set seen"
proof -
  have "distinct ms \<and> set ms \<inter> set seen = {}
    \<and> (\<forall>x\<in>set ms. \<exists>b\<in>set bs. member_eligibility b cap = None
           \<and> (\<exists>m. member_model b = Inr m \<and> x = prefix @ ''/'' @ m))
    \<and> (\<forall>b\<in>set bs. member_eligibility b cap = None \<longrightarrow>
           (\<exists>m. member_model b = Inr m \<and> prefix @ ''/'' @ m \<in> set ms \<union> set seen))"
    using assms
  proof (induction prefix cap bs seen arbitrary: ms rule: members_of.induct)
    case (1 prefix cap seen)
    then show ?case by simp
  next
    case (2 prefix cap b bs seen)
    show ?case
    proof (cases "member_eligibility b cap")
      case (Some r)
      then show ?thesis using 2 by auto
    next
      case None
      obtain m where m: "member_model b = Inr m"
        using 2(4) None by (auto split: if_splits)
      show ?thesis
      proof (cases "prefix @ ''/'' @ m \<in> set seen")
        case True
        then show ?thesis
          using 2(2) [of m] 2(4) None m by (auto simp: Let_def)
      next
        case False
        then obtain ms' where "members_of prefix cap bs ((prefix @ ''/'' @ m) # seen) = Inr ms'"
          "ms = (prefix @ ''/'' @ m) # ms'"
          using 2(4) None m by (auto simp: Let_def)
        then show ?thesis
          using 2(3) [of m] False None m by (auto simp: Let_def)
      qed
    qed
  qed
  then show "distinct ms" "set ms \<inter> set seen = {}"
    and "x \<in> set ms \<Longrightarrow> \<exists>b\<in>set bs. member_eligibility b cap = None
           \<and> (\<exists>m. member_model b = Inr m \<and> x = prefix @ ''/'' @ m)"
    and "b \<in> set bs \<Longrightarrow> member_eligibility b cap = None \<Longrightarrow>
           \<exists>m. member_model b = Inr m \<and> prefix @ ''/'' @ m \<in> set ms \<union> set seen"
    by blast+
qed

text \<open>The dispatcher's bindings are the members of the compiled combo, with their descriptors.\<close>

lemma bindings_of_SomeD:
  "bindings_of cap bs = Some m \<Longrightarrow> (preset, d) \<in> set m \<Longrightarrow>
     \<exists>b\<in>set bs. member_eligibility b cap = None \<and> member_model b = Inr preset
       \<and> descriptor_for b = Some d"
  by (induction bs arbitrary: m) (auto split: if_splits sum.splits option.splits)

end
