(* ===== verification/KanbanDispatch.thy ===== *)
theory KanbanDispatch
  imports KanbanEffects KanbanChecks KanbanCompiler
begin

text \<open>
  One tick of the dispatcher (\<^verbatim>\<open>packages/kanban/src/cli_provider_kanban/dispatch.py\<close>): recovery of
  stale receipts, then every ready card through reservation, claim, submission, verification and
  the review handoff. Each function is a program over the receipt ledger and the environment of
  \<^verbatim>\<open>KanbanEffects\<close>; what another process does may happen before each of its actions. The heartbeat
  thread, which only renews the kernel's claim, the redaction of evidence and the text of
  reasons are not modelled.
\<close>

section \<open>Outcomes\<close>

datatype oc_action =
    OcHold | OcReplan | OcNeedsApproval | OcSkipped | OcBlocked | OcUnknown | OcCancelled
  | OcFailed | OcInFlight | OcReview

record card_outcome =
  co_task :: string
  co_dispatch :: "string option"
  co_action :: oc_action
  co_run :: "string option"
  co_dispatched :: bool
  co_synthetic :: bool

definition card_result :: "string \<Rightarrow> oc_action \<Rightarrow> card_outcome" where
  "card_result t act = \<lparr>co_task = t, co_dispatch = None, co_action = act, co_run = None,
     co_dispatched = False, co_synthetic = False\<rparr>"

definition receipt_result :: "reservation \<Rightarrow> oc_action \<Rightarrow> card_outcome" where
  "receipt_result res act = \<lparr>co_task = rv_task res, co_dispatch = Some (rv_id res), co_action = act,
     co_run = rv_run res, co_dispatched = False, co_synthetic = False\<rparr>"

section \<open>Calls of the kernel bridge\<close>

definition k_block :: "string \<Rightarrow> int option \<Rightarrow> block_reason \<Rightarrow> bool prog" where
  "k_block t run why = kernel en_block (EvBlock t run why)"

definition k_get_task :: "string \<Rightarrow> kernel_task option prog" where
  "k_get_task t = kernel en_get_task (\<lambda>_. EvGetTask t)"

definition k_reopen :: "string \<Rightarrow> int option \<Rightarrow> bool prog" where
  "k_reopen t run = kernel en_reopen (EvReopen t run)"

definition k_max_retries :: "string \<Rightarrow> unit prog" where
  "k_max_retries t = kernel en_unit (\<lambda>_. EvMaxRetries t)"

definition k_claim :: "string \<Rightarrow> string \<Rightarrow> (bool \<times> int option) prog" where
  "k_claim t d = kernel en_claim (\<lambda>(ok, run). EvClaim t d ok run)"

definition k_review :: "string \<Rightarrow> string \<Rightarrow> int option \<Rightarrow> bool prog" where
  "k_review t d run = kernel en_review (EvReview t d run)"

definition k_notify :: "policy \<Rightarrow> string \<Rightarrow> unit prog" where
  "k_notify p t = (case ay_notify (po_approval p) of None \<Rightarrow> ret ()
     | Some _ \<Rightarrow> kernel en_unit (\<lambda>_. EvNotify t))"

section \<open>Handlers\<close>

fun is_store_error :: "exn \<Rightarrow> bool" where
  "is_store_error (StoreError e) = True"
| "is_store_error _ = False"

definition ignoring :: "(exn \<Rightarrow> bool) \<Rightarrow> 'a prog \<Rightarrow> unit prog" where
  "ignoring which m = catchP (bindP m (\<lambda>_. ret ())) (\<lambda>e. if which e then ret () else throw e)"

text \<open>
  \<^verbatim>\<open>_cancelled_path\<close>. With no kernel bridge (\<^verbatim>\<open>None\<close>, as \<^verbatim>\<open>_execute\<close> passes it) the first call is an
  \<^verbatim>\<open>AttributeError\<close>, which nothing handles.
\<close>

definition cancelled_board :: "string \<Rightarrow> int option \<Rightarrow> unit prog" where
  "cancelled_board t krun =
     bindP (k_get_task t) (\<lambda>cur.
       if (case cur of Some kt \<Rightarrow> kt_status kt = ''review'' | None \<Rightarrow> False)
       then bindP (k_reopen t krun) (\<lambda>ro.
              if ro then bindP (k_block t krun BrCancelled) (\<lambda>_. ret ()) else ret ())
       else bindP (k_block t krun BrCancelled) (\<lambda>_. ret ()))"

definition cancel_wrapper_run :: "reservation \<Rightarrow> unit prog" where
  "cancel_wrapper_run res =
     (case rv_run res of
        None \<Rightarrow> ret ()
      | Some r \<Rightarrow> if r = '''' then ret ()
                  else ignoring (\<lambda>e. e = WrapperError)
                    (call en_unit WrapperError (EvCancelRun r) (\<lambda>_. EvCancelRun r)))"

definition cancelled_path :: "bool \<Rightarrow> reservation \<Rightarrow> string \<Rightarrow> int option \<Rightarrow> card_outcome prog" where
  "cancelled_path bridge res t krun =
     bindP (cancel_wrapper_run res) (\<lambda>_.
     bindP (if bridge then ignoring (\<lambda>e. e = KernelError) (cancelled_board t krun) else throw Died) (\<lambda>_.
     bindP (ignoring is_store_error (p_transition (rv_id res) RvCancelled no_fields False)) (\<lambda>_.
     ret (receipt_result res OcCancelled))))"

text \<open>\<^verbatim>\<open>_cancelled_path(..., store.get(d), ...)\<close>: the receipt as the ledger has it now.\<close>

definition cancelled_receipt :: "string \<Rightarrow> string \<Rightarrow> int option \<Rightarrow> card_outcome prog" where
  "cancelled_receipt d t krun =
     bindP (p_get d) (\<lambda>cur. case cur of None \<Rightarrow> throw Died | Some c \<Rightarrow> cancelled_path True c t krun)"

text \<open>\<^verbatim>\<open>_transition_guarded\<close>: \<open>Some\<close> is the result of a cancel that won.\<close>

definition transition_guarded ::
  "bool \<Rightarrow> reservation \<Rightarrow> string \<Rightarrow> int option \<Rightarrow> rstate \<Rightarrow> rv_fields \<Rightarrow> card_outcome option prog" where
  "transition_guarded bridge res t krun st f =
     bindP (attemptP (p_transition (rv_id res) st f False)) (\<lambda>r. case r of
         Inr _ \<Rightarrow> ret None
       | Inl e \<Rightarrow>
           if is_store_error e
           then bindP (p_get (rv_id res)) (\<lambda>cur. case cur of
               None \<Rightarrow> throw e
             | Some c \<Rightarrow> if rv_cancel c \<or> rv_state c = RvCancelled
                         then bindP (cancelled_path bridge c t krun) (\<lambda>out. ret (Some out))
                         else throw e)
           else throw e)"

text \<open>The pattern that follows it everywhere: a won cancel is the result, otherwise \<open>out\<close>.\<close>

definition finish_with ::
  "bool \<Rightarrow> reservation \<Rightarrow> string \<Rightarrow> int option \<Rightarrow> rstate \<Rightarrow> card_outcome \<Rightarrow> card_outcome prog" where
  "finish_with bridge res t krun st out =
     bindP (transition_guarded bridge res t krun st no_fields) (\<lambda>c. case c of
         Some won \<Rightarrow> ret won
       | None \<Rightarrow> ret out)"

text \<open>A block of the card followed by the guarded end of the receipt.\<close>

definition block_and_finish ::
  "reservation \<Rightarrow> string \<Rightarrow> int option \<Rightarrow> rstate \<Rightarrow> card_outcome \<Rightarrow> card_outcome prog" where
  "block_and_finish res t krun st out =
     bindP (k_block t krun (BrDispatch (rv_id res))) (\<lambda>_. finish_with True res t krun st out)"

text \<open>\<^verbatim>\<open>_record_block\<close> as its callers use it, without a control client.\<close>

definition record_block :: "reservation \<Rightarrow> int option \<Rightarrow> card_outcome prog" where
  "record_block res krun =
     bindP (k_block (rv_task res) krun (BrDispatch (rv_id res))) (\<lambda>_.
     bindP (attemptP (p_transition (rv_id res) RvBlocked no_fields False)) (\<lambda>r. case r of
         Inr _ \<Rightarrow> ret (receipt_result res OcBlocked)
       | Inl e \<Rightarrow>
           if is_store_error e
           then bindP (p_get (rv_id res)) (\<lambda>cur. case cur of
               Some c \<Rightarrow> if rv_cancel c then ret (receipt_result res OcCancelled) else throw e
             | None \<Rightarrow> throw e)
           else throw e))"

section \<open>Recovery\<close>

fun recover_each :: "reservation list \<Rightarrow> unit prog" where
  "recover_each [] = ret ()"
| "recover_each (r # rs) =
     bindP
       (if rv_state r = RvUnknown then ret ()
        else if rv_state r = RvReserved
        then ignoring is_store_error (p_transition (rv_id r) RvAborted no_fields False)
        else bindP (ignoring is_store_error (p_transition (rv_id r) RvUnknown no_fields False)) (\<lambda>_.
             bindP (k_block (rv_task r) (rv_kernel_run r) (BrDispatch (rv_id r))) (\<lambda>_. ret ())))
       (\<lambda>_. recover_each rs)"

definition recover_stale :: "unit prog" where
  "recover_stale = bindP (ledger_read list_live) recover_each"

section \<open>From the run view to review\<close>

definition run_status :: "run_view \<Rightarrow> string" where
  "run_status run = (case ru_status run of Some (c # cs) \<Rightarrow> c # cs | _ \<Rightarrow> ''unknown'')"

definition foreign_run :: "run_view \<Rightarrow> string \<Rightarrow> string \<Rightarrow> exec_meta option \<Rightarrow> bool" where
  "foreign_run run t ws meta \<longleftrightarrow> ru_task run \<noteq> Some t \<or> ru_workspace run \<noteq> Some ws
     \<or> (meta \<noteq> None \<and> ru_execution run \<noteq> meta)"

record inspection =
  in_verify :: verify_result
  in_artifacts :: "string list"
  in_missing :: "string list"
  in_changed :: "string list"
  in_violations :: "string list"
  in_diff :: "string \<times> string \<times> nat"

definition refused_verification :: verify_result where
  "refused_verification = \<lparr>vr_ok = False, vr_exit = None, vr_output = ''not allowed'',
     vr_truncated = False, vr_timed_out = False\<rparr>"

definition run_verification :: "policy \<Rightarrow> task_spec \<Rightarrow> string \<Rightarrow> verify_result prog" where
  "run_verification p sp d =
     (case argv_allowed (vy_executables (po_verification p)) (vy_commands (po_verification p))
             (vs_argv (ts_verification sp)) of
        None \<Rightarrow> ret refused_verification
      | Some _ \<Rightarrow> call en_run WorktreeError (EvInspectFailed d) (EvVerify d))"

text \<open>The block that \<^verbatim>\<open>except (WorktreeError, OSError)\<close> guards.\<close>

definition inspect_run :: "policy \<Rightarrow> task_spec \<Rightarrow> string \<Rightarrow> inspection prog" where
  "inspect_run p sp d =
     bindP (run_verification p sp d) (\<lambda>v.
     bindP (call en_artifacts WorktreeError (EvInspectFailed d) (\<lambda>(a, m). EvArtifacts d m)) (\<lambda>(arts, missing).
     bindP (call en_changed WorktreeError (EvInspectFailed d) (EvChanged d)) (\<lambda>changed.
     bindP (call en_diff WorktreeError (EvInspectFailed d) (\<lambda>_. EvCapture d)) (\<lambda>diff.
     ret \<lparr>in_verify = v, in_artifacts = arts, in_missing = missing, in_changed = changed,
       in_violations = check_scope changed (ts_allowed_scope sp), in_diff = diff\<rparr>))))"

definition submitted_model :: "policy \<Rightarrow> string \<Rightarrow> string" where
  "submitted_model p route =
     (case po_execution p of
        Some x \<Rightarrow> (case et_mode x of
            EmDirect \<Rightarrow> (case et_model x of None \<Rightarrow> '''' | Some m \<Rightarrow> m)
          | EmGateway \<Rightarrow> combo_name route)
      | None \<Rightarrow> combo_name route)"

definition is_direct :: "policy \<Rightarrow> bool" where
  "is_direct p \<longleftrightarrow> (case po_execution p of Some x \<Rightarrow> et_mode x = EmDirect | None \<Rightarrow> False)"

definition route_presets :: "policy \<Rightarrow> string \<Rightarrow> string \<Rightarrow> string list" where
  "route_presets p route cap =
     (case map_of (po_routes p) route of
        None \<Rightarrow> []
      | Some cands \<Rightarrow> (case candidate_bindings p cands cap of None \<Rightarrow> [] | Some bs \<Rightarrow> map fst bs))"

definition is_mock_fixture :: "string \<Rightarrow> bool" where
  "is_mock_fixture m \<longleftrightarrow> starts_with m ''mock/''"

text \<open>
  The gate of the second look uses \<^verbatim>\<open>spec.capability\<close>, which a card with a \<^verbatim>\<open>work\<close> block may leave
  empty, where the first used the derived capability of the decision.
\<close>

definition classified_run :: "policy \<Rightarrow> task_spec \<Rightarrow> string \<Rightarrow> bool" where
  "classified_run p sp route \<longleftrightarrow> \<not> is_direct p
     \<or> submitted_model p route \<in> set (case ts_capability sp of
          None \<Rightarrow> [] | Some cap \<Rightarrow> route_presets p route cap)"

definition evidence_of ::
  "policy \<Rightarrow> task_spec \<Rightarrow> reservation \<Rightarrow> run_view \<Rightarrow> inspection \<Rightarrow> (string \<times> string \<times> nat) list \<Rightarrow>
     bool \<Rightarrow> bool \<Rightarrow> bool \<Rightarrow> evidence" where
  "evidence_of p sp res run ins hashes ephemeral classified synthetic =
     \<lparr>ev_argv = vs_argv (ts_verification sp), ev_exit_code = vr_exit (in_verify ins),
      ev_output = vr_output (in_verify ins), ev_truncated = vr_truncated (in_verify ins),
      ev_timed_out = vr_timed_out (in_verify ins), ev_artifacts = hashes, ev_diff = in_diff ins,
      ev_changed_files = in_changed ins, ev_scope_violations = in_violations ins,
      ev_base_revision = ts_base_revision sp, ev_policy_fingerprint = rv_policy_fp res,
      ev_provenance = Some \<lparr>
        pv_lane = (if ephemeral then ''ephemeral'' else if is_direct p then ''direct'' else ''gateway''),
        pv_classified_route = rv_route res, pv_submitted_model = submitted_model p (rv_route res),
        pv_server_preset = ru_preset run, pv_classified = classified, pv_synthetic = synthetic,
        pv_effort_hint = hint_text (ts_effort sp),
        pv_runner_pin = Option.bind (map_of (po_workspaces p) (rv_workspace res)) we_effort_pin\<rparr>,
      ev_resolved_by = None\<rparr>"

definition hand_to_review ::
  "policy \<Rightarrow> reservation \<Rightarrow> string \<Rightarrow> int option \<Rightarrow> bool \<Rightarrow> card_outcome prog" where
  "hand_to_review p res t krun synthetic =
     bindP (k_review t (rv_id res) krun) (\<lambda>ok.
       if \<not> ok
       then finish_with True res t krun RvUnknown
              ((receipt_result res OcUnknown)\<lparr>co_run := None, co_dispatched := True\<rparr>)
       else bindP (attemptP (p_transition (rv_id res) RvReview no_fields True)) (\<lambda>r. case r of
           Inl e \<Rightarrow> if is_store_error e then cancelled_receipt (rv_id res) t krun else throw e
         | Inr _ \<Rightarrow> bindP (k_notify p t) (\<lambda>_.
             ret ((receipt_result res OcReview)\<lparr>co_dispatched := True, co_synthetic := synthetic\<rparr>))))"

definition verify_and_review ::
  "policy \<Rightarrow> task_spec \<Rightarrow> reservation \<Rightarrow> run_view \<Rightarrow> string \<Rightarrow> int option \<Rightarrow> bool \<Rightarrow> card_outcome prog" where
  "verify_and_review p sp res run t krun ephemeral =
     (let classified = classified_run p sp (rv_route res);
          synthetic = ephemeral \<or> ru_synthetic run;
          blocked = (receipt_result res OcBlocked)\<lparr>co_run := None, co_dispatched := True\<rparr>
      in bindP (attemptP (inspect_run p sp (rv_id res))) (\<lambda>r. case r of
          Inl e \<Rightarrow> if e = WorktreeError then block_and_finish res t krun RvBlocked blocked else throw e
        | Inr ins \<Rightarrow>
            bindP (call en_unit Died (EvInspectFailed (rv_id res)) (\<lambda>_. EvPersist (rv_id res))) (\<lambda>_.
            bindP (call en_hashes Died (EvInspectFailed (rv_id res))
                     (\<lambda>(hs, failed). EvHashes (rv_id res) failed)) (\<lambda>(hashes, hash_failed).
            bindP (p_evidence (rv_id res)
                     (evidence_of p sp res run ins hashes ephemeral classified synthetic)) (\<lambda>_.
              if \<not> vr_ok (in_verify ins) \<or> in_missing ins \<noteq> [] \<or> in_violations ins \<noteq> []
                 \<or> hash_failed \<or> (\<not> classified \<and> \<not> synthetic)
              then block_and_finish res t krun RvBlocked blocked
              else hand_to_review p res t krun synthetic)))))"

definition handle_run_status ::
  "policy \<Rightarrow> task_spec \<Rightarrow> reservation \<Rightarrow> run_view \<Rightarrow> string \<Rightarrow> int option \<Rightarrow> exec_meta option \<Rightarrow>
     string \<Rightarrow> bool \<Rightarrow> card_outcome prog" where
  "handle_run_status p sp res run t krun meta ws ephemeral =
     (if foreign_run run t ws meta
      then block_and_finish res t krun RvUnknown (receipt_result res OcUnknown)
      else if run_status run = ''cancelled''
      then block_and_finish res t krun RvCancelled (receipt_result res OcCancelled)
      else if run_status run = ''failed''
      then block_and_finish res t krun RvFailed (receipt_result res OcFailed)
      else if run_status run \<noteq> ''completed''
      then bindP (k_block t krun (BrDispatch (rv_id res))) (\<lambda>_.
             ret ((receipt_result res OcInFlight)\<lparr>co_dispatched := True\<rparr>))
      else if ru_outcome run \<noteq> Some ''succeeded''
      then block_and_finish res t krun RvFailed
             ((receipt_result res OcBlocked)\<lparr>co_dispatched := True\<rparr>)
      else bindP (attemptP (p_transition (rv_id res) RvCompleting no_fields True)) (\<lambda>r. case r of
          Inl e \<Rightarrow> if is_store_error e then cancelled_receipt (rv_id res) t krun else throw e
        | Inr res' \<Rightarrow> verify_and_review p sp res' run t krun ephemeral))"

section \<open>From the reservation to the submission\<close>

definition integrated_revision :: "kernel_task option \<Rightarrow> string option" where
  "integrated_revision k = (case k of None \<Rightarrow> None
     | Some kt \<Rightarrow> or_else (kt_metadata_revision kt) (kt_result_revision kt))"

fun parent_states :: "string list \<Rightarrow> (string \<times> string option \<times> string option) list prog" where
  "parent_states [] = ret []"
| "parent_states (t # ts) =
     bindP (k_get_task t) (\<lambda>k. bindP (parent_states ts) (\<lambda>rest.
       ret ((t, integrated_revision k, map_option kt_status k) # rest)))"

text \<open>
  \<^verbatim>\<open>None\<close> is the admission without a worktree, which is created after the claim.
\<close>

definition admit_workspace ::
  "policy \<Rightarrow> task_spec \<Rightarrow> jev_decision \<Rightarrow> workspace_entry \<Rightarrow> string list \<Rightarrow> worktree option prog" where
  "admit_workspace p sp dec ws cands =
     (let cap = (case jd_capability dec of None \<Rightarrow> '''' | Some c \<Rightarrow> c);
          model = submitted_model p (case jd_route dec of None \<Rightarrow> '''' | Some r \<Rightarrow> r)
      in case we_prepared ws of
        Some prepared \<Rightarrow>
          if \<not> full_commit (ts_base_revision sp) then throw WorktreeError
          else bindP (call en_prepared WorktreeError EvPrepared (\<lambda>_. EvPrepared)) (\<lambda>wt.
            (case candidate_bindings p cands cap of
               None \<Rightarrow> throw WorktreeError
             | Some bs \<Rightarrow>
                bindP (call en_binding WorktreeError EvBinding (\<lambda>_. EvBinding)) (\<lambda>b.
                bindP (env_value en_canon) (\<lambda>canon.
                  if binding_admits canon (rb_root b) (rb_presets b) (rb_models b) (wt_path wt)
                       (if is_direct p then [model] else map fst bs) (map snd bs)
                  then ret (Some wt) else throw WorktreeError))))
      | None \<Rightarrow> if we_allow_ephemeral ws then ret None else throw WorktreeError)"

text \<open>Direct mode: the preset is a candidate of the classified route, or the mock fixture.\<close>

definition preset_refused :: "policy \<Rightarrow> jev_decision \<Rightarrow> string list \<Rightarrow> bool" where
  "preset_refused p dec cands \<longleftrightarrow>
     (let cap = (case jd_capability dec of None \<Rightarrow> '''' | Some c \<Rightarrow> c);
          model = submitted_model p (case jd_route dec of None \<Rightarrow> '''' | Some r \<Rightarrow> r)
      in is_direct p
         \<and> model \<notin> set (case candidate_bindings p cands cap of None \<Rightarrow> [] | Some bs \<Rightarrow> map fst bs)
         \<and> \<not> is_mock_fixture model)"

definition meta_of :: "policy \<Rightarrow> task_spec \<Rightarrow> string \<Rightarrow> exec_meta option" where
  "meta_of p sp route =
     (if dc_send_metadata (po_dispatch p)
      then Some \<lparr>em_task_revision = ts_revision sp, em_base_revision = ts_base_revision sp,
             em_route = route, em_policy_version = po_version p\<rparr>
      else None)"

definition submit_workspace :: "workspace_entry \<Rightarrow> task_spec \<Rightarrow> string" where
  "submit_workspace ws sp =
     (case we_wrapper_id ws of Some i \<Rightarrow> i | None \<Rightarrow> ts_workspace_id sp)"

text \<open>Step 7 and what follows it: one request, then its reply.\<close>

definition submit_and_handle ::
  "policy \<Rightarrow> task_spec \<Rightarrow> jev_decision \<Rightarrow> workspace_entry \<Rightarrow> reservation \<Rightarrow> string \<Rightarrow> int option \<Rightarrow>
     bool \<Rightarrow> card_outcome prog" where
  "submit_and_handle p sp dec ws res t krun ephemeral =
     (let route = (case jd_route dec of None \<Rightarrow> '''' | Some r \<Rightarrow> r);
          wsid = submit_workspace ws sp; meta = meta_of p sp route;
          sub = \<lparr>su_model = submitted_model p route, su_task = t, su_workspace = wsid,
                 su_prompt = prompt_text sp, su_execution = meta\<rparr>;
          unknown = block_and_finish res t krun RvUnknown (receipt_result res OcUnknown);
          reconcile = (\<lambda>rid run.
            bindP (attemptP (p_transition (rv_id res) RvSubmitted
                     (no_fields\<lparr>rf_run := Some rid, rf_attempt := ru_attempt run\<rparr>) False)) (\<lambda>r. case r of
                Inl e \<Rightarrow> if is_store_error e then cancelled_receipt (rv_id res) t krun else throw e
              | Inr res' \<Rightarrow> handle_run_status p sp res' run t krun meta wsid ephemeral))
      in bindP (call en_submit WrapperError (EvSubmit (rv_id res) sub TransportFailed)
                  (EvSubmit (rv_id res) sub)) (\<lambda>reply. case reply of
          TransportFailed \<Rightarrow> unknown
        | HttpRefused status run \<Rightarrow>
            (case run of
               Some v \<Rightarrow> (case ru_run_id v of
                   Some (c # cs) \<Rightarrow> reconcile (c # cs) v
                 | _ \<Rightarrow> unknown)
             | None \<Rightarrow> unknown)
        | Accepted rid v \<Rightarrow> reconcile rid v))"

definition claim_and_submit ::
  "policy \<Rightarrow> task_spec \<Rightarrow> jev_decision \<Rightarrow> workspace_entry \<Rightarrow> reservation \<Rightarrow> string \<Rightarrow>
     worktree option \<Rightarrow> card_outcome prog" where
  "claim_and_submit p sp dec ws res t admitted =
     bindP (k_max_retries t) (\<lambda>_.
     bindP (k_claim t (rv_id res)) (\<lambda>(claimed, krun).
       if \<not> claimed
       then bindP (attemptP (p_transition (rv_id res) RvAborted no_fields False)) (\<lambda>r. case r of
           Inl e \<Rightarrow> if is_store_error e then cancelled_receipt (rv_id res) t None else throw e
         | Inr _ \<Rightarrow> ret (receipt_result res OcSkipped))
       else
         bindP (attemptP (case admitted of
             Some wt \<Rightarrow> ret wt
           | None \<Rightarrow> if \<not> full_commit (ts_base_revision sp) then throw WorktreeError
                     else call en_worktree WorktreeError (EvWorktree (rv_id res))
                            (\<lambda>_. EvWorktree (rv_id res)))) (\<lambda>made. case made of
           Inl e \<Rightarrow> if e = WorktreeError then record_block res krun else throw e
         | Inr wt \<Rightarrow>
             bindP (attemptP (p_transition (rv_id res) RvClaimed
                      (no_fields\<lparr>rf_kernel_run := krun, rf_branch := wt_branch wt,
                         rf_worktree := Some (wt_path wt)\<rparr>) False)) (\<lambda>r. case r of
               Inl e \<Rightarrow> if is_store_error e then cancelled_receipt (rv_id res) t krun else throw e
             | Inr res1 \<Rightarrow>
                 bindP (p_get (rv_id res1)) (\<lambda>cur.
                   let res2 = (case cur of None \<Rightarrow> res1 | Some c \<Rightarrow> c) in
                   if rv_cancel res2 then cancelled_path True res2 t krun
                   else submit_and_handle p sp dec ws res2 t krun (admitted = None))))))"

definition execute_reserved ::
  "policy \<Rightarrow> board_task \<Rightarrow> task_spec \<Rightarrow> jev_decision \<Rightarrow> workspace_entry \<Rightarrow> string list \<Rightarrow>
     reservation \<Rightarrow> card_outcome prog" where
  "execute_reserved p task sp dec ws cands res =
     bindP (attemptP (call en_repo WorktreeError EvRepo (\<lambda>_. EvRepo))) (\<lambda>repo. case repo of
       Inl e \<Rightarrow> if e = WorktreeError then record_block res None else throw e
     | Inr _ \<Rightarrow>
         bindP (parent_states (bt_parents task)) (\<lambda>deps.
           if list_ex (\<lambda>(i, r, st). st \<noteq> Some ''done'') deps
           then bindP (attemptP (p_transition (rv_id res) RvAborted no_fields False)) (\<lambda>r. case r of
               Inl e \<Rightarrow> if is_store_error e then cancelled_receipt (rv_id res) (bt_id task) None else throw e
             | Inr _ \<Rightarrow> ret (receipt_result res OcSkipped))
           else bindP (call en_ancestors Died EvAncestors (\<lambda>_. EvAncestors)) (\<lambda>anc.
             if list_ex (\<lambda>(i, r, st). \<not> dependency_ok anc r) deps then record_block res None
             else bindP (attemptP (admit_workspace p sp dec ws cands)) (\<lambda>adm. case adm of
                 Inl e \<Rightarrow> if e = WorktreeError then record_block res None else throw e
               | Inr admitted \<Rightarrow>
                   if preset_refused p dec cands then record_block res None
                   else claim_and_submit p sp dec ws res (bt_id task) admitted))))"

section \<open>One card\<close>

definition fenced_block :: "string \<Rightarrow> card_outcome prog" where
  "fenced_block t =
     bindP (k_block t None BrPreClaim) (\<lambda>ok. ret (card_result t (if ok then OcBlocked else OcSkipped)))"

definition effort_unpinned :: "workspace_entry \<Rightarrow> (string \<times> string option) list \<Rightarrow> bool" where
  "effort_unpinned ws m \<longleftrightarrow>
     (let applied = remdups (List.map_filter snd m)
      in applied \<noteq> [] \<and> (case we_effort_pin ws of None \<Rightarrow> True | Some pin \<Rightarrow> applied \<noteq> [pin]))"

definition scope_for ::
  "board_task \<Rightarrow> task_spec \<Rightarrow> string \<Rightarrow> string \<Rightarrow> string \<Rightarrow> dispatch_scope" where
  "scope_for task sp sh fp route =
     \<lparr>sc_task = bt_id task, sc_revision = ts_revision sp, sc_spec_hash = sh, sc_policy_fp = fp,
      sc_workspace = ts_workspace_id sp, sc_base = ts_base_revision sp, sc_route = route\<rparr>"

definition execute ::
  "policy \<Rightarrow> board_task \<Rightarrow> task_spec \<Rightarrow> jev_decision \<Rightarrow> string option \<Rightarrow> card_outcome prog" where
  "execute p task sp dec grant =
     (let t = bt_id task; route = (case jd_route dec of None \<Rightarrow> '''' | Some r \<Rightarrow> r) in
      case map_of (po_routes p) route of
        None \<Rightarrow> fenced_block t
      | Some cands \<Rightarrow>
          (case map_of (po_workspaces p) (ts_workspace_id sp) of
             None \<Rightarrow> fenced_block t
           | Some ws \<Rightarrow>
               (case route_effort p cands (case jd_capability dec of None \<Rightarrow> '''' | Some c \<Rightarrow> c)
                       (ts_effort sp) of
                  Inl _ \<Rightarrow> fenced_block t
                | Inr m \<Rightarrow>
                    if effort_unpinned ws m then fenced_block t
                    else
                      bindP (env_value (\<lambda>e. en_spec_hash e sp)) (\<lambda>sh.
                      bindP (env_value (\<lambda>e. en_policy_fp e p)) (\<lambda>fp.
                      bindP (attemptP (p_reserve (scope_for task sp sh fp route) grant)) (\<lambda>r. case r of
                          Inl (StoreError (ReservationExists _ _)) \<Rightarrow> ret (card_result t OcSkipped)
                        | Inl (StoreError (GrantMismatch _)) \<Rightarrow> ret (card_result t OcNeedsApproval)
                        | Inl e \<Rightarrow> throw e
                        | Inr res \<Rightarrow>
                            catchP (execute_reserved p task sp dec ws cands res) (\<lambda>e.
                              if e = KernelError
                              then finish_with False res t None RvUnknown (receipt_result res OcUnknown)
                              else throw e)))))))"

definition gate_for_approval :: "policy \<Rightarrow> board_task \<Rightarrow> task_spec \<Rightarrow> jev_decision \<Rightarrow> card_outcome prog" where
  "gate_for_approval p task sp dec =
     bindP (env_value (\<lambda>e. en_spec_hash e sp)) (\<lambda>sh.
     bindP (env_value (\<lambda>e. en_policy_fp e p)) (\<lambda>fp.
     bindP (p_create_approval \<lparr>aq_task = bt_id task, aq_revision = jd_revision dec, aq_spec_hash = sh,
              aq_policy_fp = fp, aq_operation = ''dispatch'', aq_run = None,
              aq_actors = po_operators p, aq_ttl = ay_expiry (po_approval p)\<rparr>) (\<lambda>a.
     bindP (k_block (bt_id task) None (BrApproval (ap_id a) (jd_reason dec))) (\<lambda>_.
     bindP (k_notify p (bt_id task)) (\<lambda>_.
     ret (card_result (bt_id task) OcNeedsApproval))))))"

definition dispatch_card :: "policy \<Rightarrow> board_task \<Rightarrow> card_outcome prog" where
  "dispatch_card p task =
     bindP (env_value en_loads) (\<lambda>loads.
     bindP (env_value en_task_map) (\<lambda>tm.
       let res = resolve_spec loads task tm (po_max_body p) (po_max_spec p);
           dec = classify task res p; t = bt_id task
       in case jd_action dec of
         AcHold \<Rightarrow> ret (card_result t OcHold)
       | AcReplan \<Rightarrow> bindP (k_block t None (BrReplan (jd_reason dec))) (\<lambda>ok.
             ret (card_result t (if ok then OcReplan else OcHold)))
       | act \<Rightarrow>
           (case sr_spec res of
              None \<Rightarrow> throw Died
            | Some sp \<Rightarrow>
                if act = AcNeedsApproval
                then bindP (env_value (\<lambda>e. en_spec_hash e sp)) (\<lambda>sh.
                     bindP (env_value (\<lambda>e. en_policy_fp e p)) (\<lambda>fp.
                     bindP (p_find_grant t ''dispatch'' (jd_revision dec) sh fp) (\<lambda>g. case g of
                         Some a \<Rightarrow> execute p task sp dec (Some (ap_id a))
                       | None \<Rightarrow> gate_for_approval p task sp dec)))
                else execute p task sp dec None)))"

section \<open>One tick\<close>

fun dispatch_cards :: "policy \<Rightarrow> board_task list \<Rightarrow> nat \<Rightarrow> card_outcome list prog" where
  "dispatch_cards p [] n = ret []"
| "dispatch_cards p (task # rest) n =
     (if dc_max_cards_per_tick (po_dispatch p) \<le> n then ret []
      else bindP (ledger_read (live_for_card (bt_id task))) (\<lambda>live.
        bindP (case live of
            Some _ \<Rightarrow> ret (card_result (bt_id task) OcSkipped)
          | None \<Rightarrow> dispatch_card p task) (\<lambda>out.
        bindP (dispatch_cards p rest (if co_dispatched out then Suc n else n)) (\<lambda>outs.
        ret (out # outs)))))"

text \<open>\<^verbatim>\<open>dispatch_once\<close>: \<^verbatim>\<open>None\<close> where another tick holds the lock.\<close>

definition dispatch_once :: "policy \<Rightarrow> card_outcome list option prog" where
  "dispatch_once p =
     (if po_execution p = None then throw Died
      else bindP (kernel en_lock EvLock) (\<lambda>held.
        if \<not> held then ret None
        else bindP recover_stale (\<lambda>_.
             bindP (kernel en_scope (\<lambda>_. EvScope)) (\<lambda>tasks.
             bindP (dispatch_cards p (take (po_max_cards p) tasks) 0) (\<lambda>outs.
             ret (Some outs))))))"

end
