(* ===== verification/KanbanDispatchInv.thy ===== *)
theory KanbanDispatchInv
  imports KanbanDispatch
begin

text \<open>
  What every action of the dispatcher presupposes: the conditions speak about the actions before
  it, and the state of the ledger is tied to the log by an invariant that the writes of other
  processes keep. \<open>KanbanDispatchRuns\<close> shows that \<^verbatim>\<open>dispatch.py\<close> respects the conditions.
\<close>

section \<open>What the log tells about a receipt\<close>

definition reserved_in :: "string \<Rightarrow> dispatch_scope \<Rightarrow> string option \<Rightarrow> effect list \<Rightarrow> bool" where
  "reserved_in d q g l \<longleftrightarrow> (\<exists>now. EvStore (OpReserve now d q g) True \<in> set l)"

definition claimed_in :: "string \<Rightarrow> effect list \<Rightarrow> bool" where
  "claimed_in d l \<longleftrightarrow> (\<exists>now f nc. EvStore (OpTransition now d RvClaimed f nc) True \<in> set l)"

definition sent :: "string \<Rightarrow> string \<Rightarrow> effect list \<Rightarrow> bool" where
  "sent d t l \<longleftrightarrow> (\<exists>sub rep. EvSubmit d sub rep \<in> set l \<and> su_task sub = t)"

definition submitted_in :: "string \<Rightarrow> effect list \<Rightarrow> bool" where
  "submitted_in d l \<longleftrightarrow> (\<exists>sub rep. EvSubmit d sub rep \<in> set l)"

text \<open>The reservation of \<open>d\<close> is the last that was admitted.\<close>

definition latest_reserved :: "string \<Rightarrow> dispatch_scope \<Rightarrow> effect list \<Rightarrow> bool" where
  "latest_reserved d q l \<longleftrightarrow> (\<exists>a b now g. l = a @ EvStore (OpReserve now d q g) True # b
     \<and> (\<forall>d' q' g'. \<not> reserved_in d' q' g' b))"

text \<open>After the submission of \<open>d\<close> for the card \<open>t\<close> the card was reserved again.\<close>

definition superseded :: "string \<Rightarrow> string \<Rightarrow> effect list \<Rightarrow> bool" where
  "superseded d t l \<longleftrightarrow> (\<exists>a b d' q g. l = a @ b \<and> sent d t a \<and> reserved_in d' q g b \<and> sc_task q = t)"

lemma reserved_in_snoc:
  "reserved_in d q g (l @ [ev]) \<longleftrightarrow> reserved_in d q g l \<or> (\<exists>now. ev = EvStore (OpReserve now d q g) True)"
  by (auto simp: reserved_in_def)

lemma claimed_in_snoc:
  "claimed_in d (l @ [ev]) \<longleftrightarrow>
     claimed_in d l \<or> (\<exists>now f nc. ev = EvStore (OpTransition now d RvClaimed f nc) True)"
  by (auto simp: claimed_in_def)

lemma sent_snoc:
  "sent d t (l @ [ev]) \<longleftrightarrow> sent d t l \<or> (\<exists>sub rep. ev = EvSubmit d sub rep \<and> su_task sub = t)"
  by (auto simp: sent_def)

lemma submitted_in_snoc:
  "submitted_in d (l @ [ev]) \<longleftrightarrow> submitted_in d l \<or> (\<exists>sub rep. ev = EvSubmit d sub rep)"
  by (auto simp: submitted_in_def)

lemma superseded_snoc:
  "superseded d t (l @ [ev]) \<longleftrightarrow> superseded d t l
     \<or> (sent d t l \<and> (\<exists>now d' q g. ev = EvStore (OpReserve now d' q g) True \<and> sc_task q = t))"
    (is "?L \<longleftrightarrow> ?A \<or> ?B")
proof
  assume ?L
  then obtain a b d' q g where ab: "l @ [ev] = a @ b" "sent d t a" "reserved_in d' q g b" "sc_task q = t"
    by (auto simp: superseded_def)
  show "?A \<or> ?B"
  proof (cases b rule: rev_cases)
    case Nil
    then show ?thesis using ab(3) by (simp add: reserved_in_def)
  next
    case (snoc b' x)
    then have l: "l = a @ b'" "x = ev" using ab(1) by auto
    show ?thesis
    proof (cases "reserved_in d' q g b'")
      case True
      then show ?thesis using l ab(2,4) unfolding superseded_def by blast
    next
      case False
      then have "\<exists>now. ev = EvStore (OpReserve now d' q g) True"
        using ab(3) snoc l by (simp add: reserved_in_snoc)
      moreover have "sent d t l" using ab(2) l by (auto simp: sent_def)
      ultimately show ?thesis using ab(4) by blast
    qed
  qed
next
  assume "?A \<or> ?B"
  then show ?L
  proof
    assume ?A
    then obtain a b d' q g where "l = a @ b" "sent d t a" "reserved_in d' q g b" "sc_task q = t"
      by (auto simp: superseded_def)
    then have "l @ [ev] = a @ (b @ [ev]) \<and> sent d t a \<and> reserved_in d' q g (b @ [ev]) \<and> sc_task q = t"
      by (simp add: reserved_in_snoc)
    then show ?L unfolding superseded_def by blast
  next
    assume ?B
    then obtain now d' q g where "ev = EvStore (OpReserve now d' q g) True" "sc_task q = t" "sent d t l"
      by blast
    then have "sent d t l \<and> reserved_in d' q g [ev] \<and> sc_task q = t"
      by (auto simp: reserved_in_def)
    then show ?L unfolding superseded_def by blast
  qed
qed

lemmas log_snoc = reserved_in_snoc claimed_in_snoc sent_snoc superseded_snoc

section \<open>The conditions of the actions\<close>

definition contract_of :: "env \<Rightarrow> policy \<Rightarrow> board_task \<Rightarrow> spec_result" where
  "contract_of e p task = resolve_spec (en_loads e) task (en_task_map e) (po_max_body p) (po_max_spec p)"

definition chosen_route :: "jev_decision \<Rightarrow> string" where
  "chosen_route dec = (case jd_route dec of None \<Rightarrow> '''' | Some r \<Rightarrow> r)"

text \<open>The decision is the classifier's; a gated one comes with a grant.\<close>

definition authorises ::
  "env \<Rightarrow> policy \<Rightarrow> board_task \<Rightarrow> task_spec \<Rightarrow> jev_decision \<Rightarrow> string option \<Rightarrow> bool" where
  "authorises e p task sp dec g \<longleftrightarrow> sr_spec (contract_of e p task) = Some sp
     \<and> dec = classify task (contract_of e p task) p
     \<and> (jd_action dec = AcExecute \<and> g = None \<or> jd_action dec = AcNeedsApproval \<and> g \<noteq> None)"

definition exact_scope :: "env \<Rightarrow> policy \<Rightarrow> board_task \<Rightarrow> task_spec \<Rightarrow> jev_decision \<Rightarrow> dispatch_scope" where
  "exact_scope e p task sp dec =
     scope_for task sp (en_spec_hash e sp) (en_policy_fp e p) (chosen_route dec)"

definition dispatched ::
  "env \<Rightarrow> policy list \<Rightarrow> effect list \<Rightarrow> string \<Rightarrow> policy \<Rightarrow> board_task \<Rightarrow> task_spec \<Rightarrow> jev_decision \<Rightarrow> bool" where
  "dispatched e ps l d p task sp dec \<longleftrightarrow> p \<in> set ps
     \<and> (\<exists>g. authorises e p task sp dec g \<and> reserved_in d (exact_scope e p task sp dec) g l)"

text \<open>What the submission carries comes from the policy and the contract alone.\<close>

definition faithful_submission ::
  "policy \<Rightarrow> board_task \<Rightarrow> task_spec \<Rightarrow> jev_decision \<Rightarrow> chat_submission \<Rightarrow> bool" where
  "faithful_submission p task sp dec sub \<longleftrightarrow>
     su_task sub = bt_id task \<and> su_prompt sub = prompt_text sp
     \<and> su_model sub = submitted_model p (chosen_route dec)
     \<and> su_execution sub = meta_of p sp (chosen_route dec)
     \<and> (\<exists>ws. map_of (po_workspaces p) (ts_workspace_id sp) = Some ws
          \<and> su_workspace sub = submit_workspace ws sp)
     \<and> (\<exists>cands. map_of (po_routes p) (chosen_route dec) = Some cands \<and> \<not> preset_refused p dec cands)"

definition submit_ok :: "env \<Rightarrow> policy list \<Rightarrow> effect list \<Rightarrow> string \<Rightarrow> chat_submission \<Rightarrow> bool" where
  "submit_ok e ps l d sub \<longleftrightarrow> \<not> submitted_in d l \<and> claimed_in d l
     \<and> (\<exists>p task sp dec. dispatched e ps l d p task sp dec
          \<and> latest_reserved d (exact_scope e p task sp dec) l \<and> faithful_submission p task sp dec sub
          \<and> EvMaxRetries (bt_id task) \<in> set l \<and> (\<exists>run. EvClaim (bt_id task) d True run \<in> set l))"

fun reply_view :: "submit_reply \<Rightarrow> run_view option" where
  "reply_view (Accepted rid v) = Some v"
| "reply_view TransportFailed = None"
| "reply_view (HttpRefused st v) = v"

text \<open>The run of the submission: completed, succeeded, and of this card, workspace and revision.\<close>

definition succeeded_run :: "effect list \<Rightarrow> string \<Rightarrow> string \<Rightarrow> bool" where
  "succeeded_run l d t \<longleftrightarrow> (\<exists>sub rep v. EvSubmit d sub rep \<in> set l \<and> su_task sub = t
     \<and> reply_view rep = Some v \<and> run_status v = ''completed'' \<and> ru_outcome v = Some ''succeeded''
     \<and> \<not> foreign_run v t (su_workspace sub) (su_execution sub))"

text \<open>What the verification of the contract found in the worktree.\<close>

definition verified_work :: "policy \<Rightarrow> task_spec \<Rightarrow> effect list \<Rightarrow> string \<Rightarrow> bool" where
  "verified_work p sp l d \<longleftrightarrow>
     argv_allowed (vy_executables (po_verification p)) (vy_commands (po_verification p))
       (vs_argv (ts_verification sp)) \<noteq> None
     \<and> (\<exists>v. EvVerify d v \<in> set l \<and> vr_ok v)
     \<and> EvArtifacts d [] \<in> set l
     \<and> (\<exists>changed. EvChanged d changed \<in> set l \<and> check_scope changed (ts_allowed_scope sp) = [])
     \<and> EvHashes d False \<in> set l
     \<and> (\<exists>now ev. EvStore (OpEvidence now d ev) True \<in> set l)"

definition completing_in :: "string \<Rightarrow> effect list \<Rightarrow> bool" where
  "completing_in d l \<longleftrightarrow> (\<exists>now f. EvStore (OpTransition now d RvCompleting f True) True \<in> set l)"

definition review_ok :: "env \<Rightarrow> policy list \<Rightarrow> effect list \<Rightarrow> string \<Rightarrow> string \<Rightarrow> bool" where
  "review_ok e ps l t d \<longleftrightarrow> (\<exists>p task sp dec. dispatched e ps l d p task sp dec \<and> t = bt_id task
     \<and> succeeded_run l d t \<and> completing_in d l \<and> verified_work p sp l d)"

definition move_ok :: "effect list \<Rightarrow> string \<Rightarrow> rstate \<Rightarrow> bool \<Rightarrow> bool" where
  "move_ok l d st nc \<longleftrightarrow> st \<noteq> RvReserved
     \<and> (st = RvClaimed \<longrightarrow> (\<exists>t run. EvClaim t d True run \<in> set l))
     \<and> (st = RvAborted \<longrightarrow> \<not> claimed_in d l)
     \<and> (st = RvReview \<longrightarrow> nc \<and> (\<exists>t run. EvReview t d run True \<in> set l))"

fun write_ok :: "env \<Rightarrow> policy list \<Rightarrow> effect list \<Rightarrow> ds_op \<Rightarrow> bool" where
  "write_ok e ps l (OpReserve now d q g) =
     (\<exists>p\<in>set ps. \<exists>task sp dec. authorises e p task sp dec g \<and> q = exact_scope e p task sp dec)"
| "write_ok e ps l (OpTransition now d st f nc) = move_ok l d st nc"
| "write_ok e ps l _ = True"

fun effect_ok :: "env \<Rightarrow> policy list \<Rightarrow> effect list \<Rightarrow> effect \<Rightarrow> bool" where
  "effect_ok e ps l (EvStore op ok) = write_ok e ps l op"
| "effect_ok e ps l (EvSubmit d sub rep) = submit_ok e ps l d sub"
| "effect_ok e ps l (EvReview t d run ok) = (ok \<longrightarrow> review_ok e ps l t d)"
| "effect_ok e ps l _ = True"

section \<open>The ledger against the log\<close>

abbreviation has_row :: "dstore \<Rightarrow> (reservation \<Rightarrow> bool) \<Rightarrow> bool" where
  "has_row s Q \<equiv> \<exists>r\<in>set (ds_reservations s). Q r"

definition history_ok :: "effect list \<Rightarrow> dstore \<Rightarrow> bool" where
  "history_ok l s \<longleftrightarrow> ledger_ok s
     \<and> (\<forall>d q g. reserved_in d q g l \<longrightarrow> has_row s (\<lambda>r. rv_id r = d \<and> rv_task r = sc_task q))
     \<and> (\<forall>d t. sent d t l \<longrightarrow> has_row s (\<lambda>r. rv_id r = d \<and> rv_task r = t))
     \<and> (\<forall>d. claimed_in d l \<longrightarrow> has_row s (\<lambda>r. rv_id r = d \<and> rv_state r \<noteq> RvReserved \<and> rv_state r \<noteq> RvAborted))
     \<and> (\<forall>d t. superseded d t l \<longrightarrow> has_row s (\<lambda>r. rv_id r = d \<and> \<not> rv_blocks r))"

lemma history_okD:
  assumes "history_ok l s"
  shows "ledger_ok s"
    and "reserved_in d q g l \<Longrightarrow> has_row s (\<lambda>r. rv_id r = d \<and> rv_task r = sc_task q)"
    and "sent d t l \<Longrightarrow> has_row s (\<lambda>r. rv_id r = d \<and> rv_task r = t)"
    and "claimed_in d l \<Longrightarrow>
      has_row s (\<lambda>r. rv_id r = d \<and> rv_state r \<noteq> RvReserved \<and> rv_state r \<noteq> RvAborted)"
    and "superseded d t l \<Longrightarrow> has_row s (\<lambda>r. rv_id r = d \<and> \<not> rv_blocks r)"
  using assms unfolding history_ok_def by metis+

lemma has_row_kept:
  assumes "has_row s Q" "\<And>r r'. Q r \<Longrightarrow> moved_by op r r' \<Longrightarrow> Q r'"
  shows "has_row (ds_after op s) Q"
  using assms ds_exec_row by blast

text \<open>An operation that takes no claimed receipt back to \<^verbatim>\<open>reserved\<close> or to \<^verbatim>\<open>aborted\<close>.\<close>

definition onward :: "effect list \<Rightarrow> ds_op \<Rightarrow> bool" where
  "onward l op \<longleftrightarrow> (\<forall>now d st f nc. op = OpTransition now d st f nc \<longrightarrow>
     st \<noteq> RvReserved \<and> (claimed_in d l \<longrightarrow> st \<noteq> RvAborted))"

lemma history_ok_after:
  assumes h: "history_ok l s" and op: "onward l op"
  shows "history_ok l (ds_after op s)"
  unfolding history_ok_def
proof (intro conjI allI impI)
  show "ledger_ok (ds_after op s)"
    using ds_exec_ledger_ok [OF history_okD(1) [OF h]] .
  show "has_row (ds_after op s) (\<lambda>r. rv_id r = d \<and> rv_task r = sc_task q)" if "reserved_in d q g l" for d q g
    by (rule has_row_kept [OF history_okD(2) [OF h that]]) (simp add: moved_by_def row_step_def)
  show "has_row (ds_after op s) (\<lambda>r. rv_id r = d \<and> rv_task r = t)" if "sent d t l" for d t
    by (rule has_row_kept [OF history_okD(3) [OF h that]]) (simp add: moved_by_def row_step_def)
  show "has_row (ds_after op s) (\<lambda>r. rv_id r = d \<and> rv_state r \<noteq> RvReserved \<and> rv_state r \<noteq> RvAborted)"
    if c: "claimed_in d l" for d
    using op c by (intro has_row_kept [OF history_okD(4) [OF h c]])
      (auto simp: moved_by_def row_step_def onward_def)
  show "has_row (ds_after op s) (\<lambda>r. rv_id r = d \<and> \<not> rv_blocks r)" if "superseded d t l" for d t
    by (rule has_row_kept [OF history_okD(5) [OF h that]])
      (auto simp: moved_by_def row_step_def)
qed

lemma control_onward: "onward l (control_op c)"
  by (cases c) (auto simp: onward_def elim: target_state.elims)

lemma history_ok_others: "history_ok l s \<Longrightarrow> history_ok l (ds_run (map control_op cs) s)"
  by (induction cs arbitrary: s) (simp_all add: history_ok_after control_onward)

lemma history_ok_reserve:
  assumes h: "history_ok l s" and r: "ds_runs (OpReserve now d q g) s"
  shows "history_ok (l @ [EvStore (OpReserve now d q g) True]) (ds_after (OpReserve now d q g) s)"
proof -
  obtain r s' where s': "ds_reserve now d q g s = Inr (r, s')"
    using r by (cases "ds_reserve now d q g s") auto
  have after: "ds_after (OpReserve now d q g) s = s'" using s' by simp
  have h': "history_ok l s'"
    using history_ok_after [OF h, of "OpReserve now d q g"] after by (simp add: onward_def)
  have rows: "ds_reservations s' = ds_reservations s @ [r]" and new: "r = new_reservation now d q"
    and free: "\<not> insert_conflicts r (ds_reservations s)"
    using ds_reserve_InrD [OF s'] by auto
  have mine: "has_row s' (\<lambda>r. rv_id r = d \<and> rv_task r = sc_task q)"
    using rows new by (auto simp: new_reservation_def)
  have old: "has_row s' (\<lambda>r. rv_id r = d1 \<and> \<not> rv_blocks r)" if se: "sent d1 (sc_task q) l" for d1
  proof -
    obtain r1 where r1: "r1 \<in> set (ds_reservations s)" "rv_id r1 = d1" "rv_task r1 = sc_task q"
      using history_okD(3) [OF h se] by blast
    have "rv_blocks r" "rv_task r = sc_task q"
      using new by (simp_all add: new_reservation_def rv_state_sets)
    then have "\<not> rv_blocks r1"
      using free r1 by (auto simp: insert_conflicts_def)
    then show ?thesis using r1 rows by auto
  qed
  show ?thesis
    unfolding after history_ok_def
    using history_okD [OF h'] mine old by (auto simp: log_snoc)
qed

lemma history_ok_write:
  assumes h: "history_ok l s" and ok: "write_ok e ps l op"
  shows "history_ok (l @ [EvStore op (ds_runs op s)]) (ds_after op s)"
proof (cases "\<exists>now d q g. op = OpReserve now d q g")
  case True
  then obtain now d q g where op: "op = OpReserve now d q g" by blast
  show ?thesis
  proof (cases "ds_runs op s")
    case True
    then show ?thesis using history_ok_reserve [OF h] op by metis
  next
    case False
    have "history_ok l (ds_after op s)"
      by (rule history_ok_after [OF h]) (simp add: onward_def op)
    then show ?thesis using False by (simp add: history_ok_def log_snoc)
  qed
next
  case False
  have on: "onward l op" using ok by (auto simp: onward_def move_ok_def)
  have h': "history_ok l (ds_after op s)" by (rule history_ok_after [OF h on])
  have claims: "has_row (ds_after op s) (\<lambda>r. rv_id r = d \<and> rv_state r \<noteq> RvReserved \<and> rv_state r \<noteq> RvAborted)"
    if runs: "ds_runs op s" and op: "op = OpTransition now d RvClaimed f nc" for now d f nc
  proof -
    obtain r s' where s': "ds_transition now d RvClaimed f nc s = Inr (r, s')"
      using runs op by (cases "ds_transition now d RvClaimed f nc s") auto
    obtain r0 where r0: "r0 \<in> set (ds_reservations s)" "movable d nc r0"
      using count_where_1E [OF ds_transition_InrD(3) [OF s']] by blast
    have "moved now RvClaimed f r0 \<in> set (ds_reservations s')"
      using mem_map_if [OF r0(1), of "movable d nc" "moved now RvClaimed f"] r0(2)
        ds_transition_InrD(1) [OF s'] by simp
    then show ?thesis
      using op s' r0(2) by (intro bexI [of _ "moved now RvClaimed f r0"]) (simp_all add: moved_def movable_def)
  qed
  have claimed: "has_row (ds_after op s) (\<lambda>r. rv_id r = d \<and> rv_state r \<noteq> RvReserved \<and> rv_state r \<noteq> RvAborted)"
    if "claimed_in d (l @ [EvStore op (ds_runs op s)])" for d
    using that history_okD(4) [OF h'] claims by (auto simp: claimed_in_snoc)
  have same: "reserved_in d q g (l @ [EvStore op (ds_runs op s)]) \<longleftrightarrow> reserved_in d q g l"
    "sent d t (l @ [EvStore op (ds_runs op s)]) \<longleftrightarrow> sent d t l"
    "superseded d t (l @ [EvStore op (ds_runs op s)]) \<longleftrightarrow> superseded d t l" for d q g t
    using False by (auto simp: log_snoc)
  show ?thesis
    unfolding history_ok_def same
    by (intro conjI allI impI history_okD(1,2,3,5) [OF h'] claimed)
qed

section \<open>The invariant of a tick\<close>

definition effects_ok :: "env \<Rightarrow> policy list \<Rightarrow> effect list \<Rightarrow> bool" where
  "effects_ok e ps l \<longleftrightarrow> (\<forall>i<length l. effect_ok e ps (take i l) (l ! i))"

lemma effects_ok_snoc: "effects_ok e ps (l @ [ev]) \<longleftrightarrow> effects_ok e ps l \<and> effect_ok e ps l ev"
  by (auto simp: effects_ok_def less_Suc_eq nth_append)

definition sound :: "env \<Rightarrow> policy list \<Rightarrow> world \<Rightarrow> bool" where
  "sound e ps w \<longleftrightarrow> w_env w = e \<and> history_ok (w_log w) (w_store w) \<and> effects_ok e ps (w_log w)"

text \<open>Sound, and \<open>F\<close> holds of the log.\<close>

definition knows :: "env \<Rightarrow> policy list \<Rightarrow> (effect list \<Rightarrow> bool) \<Rightarrow> world \<Rightarrow> bool" where
  "knows e ps F w \<longleftrightarrow> sound e ps w \<and> F (w_log w)"

lemma noted_simps [simp]:
  "w_env (noted s ev w) = w_env w"
  "w_store (noted s ev w) = s"
  "w_log (noted s ev w) = w_log w @ [ev]"
  by (simp_all add: noted_def)

lemma knows_sound: "knows e ps F w \<Longrightarrow> sound e ps w"
  by (simp add: knows_def)

lemma sound_knows [simp]: "knows e ps (\<lambda>_. True) = sound e ps"
  by (simp add: knows_def fun_eq_iff)

lemma history_ok_foreign: "sound e ps w \<Longrightarrow> history_ok (w_log w) (foreignP w)"
  by (simp add: sound_def foreignP_def history_ok_others)

fun is_write :: "effect \<Rightarrow> bool" where
  "is_write (EvStore op ok) = True"
| "is_write _ = False"

lemma is_write_iff: "is_write ev \<longleftrightarrow> (\<exists>op ok. ev = EvStore op ok)"
  by (cases ev) simp_all

lemma sound_effect:
  assumes w: "sound e ps w" and ok: "effect_ok e ps (w_log w) ev" and nw: "\<not> is_write ev"
  shows "sound e ps (noted (foreignP w) ev w)"
proof -
  have h: "history_ok (w_log w) (foreignP w)" by (rule history_ok_foreign [OF w])
  have same: "reserved_in d q g (w_log w @ [ev]) \<longleftrightarrow> reserved_in d q g (w_log w)"
    "claimed_in d (w_log w @ [ev]) \<longleftrightarrow> claimed_in d (w_log w)"
    "superseded d t (w_log w @ [ev]) \<longleftrightarrow> superseded d t (w_log w)" for d q g t
    using nw by (auto simp: log_snoc)
  have row: "has_row (foreignP w) (\<lambda>r. rv_id r = d \<and> rv_task r = t)"
    if s: "sent d t (w_log w @ [ev])" for d t
  proof (cases "sent d t (w_log w)")
    case True
    then show ?thesis by (rule history_okD(3) [OF h])
  next
    case False
    then obtain sub rep where ev: "ev = EvSubmit d sub rep" "su_task sub = t"
      using s by (auto simp: sent_snoc)
    then obtain p task sp dec g where
      "reserved_in d (exact_scope e p task sp dec) g (w_log w)" "su_task sub = bt_id task"
      using ok by (auto simp: submit_ok_def dispatched_def faithful_submission_def)
    then show ?thesis
      using history_okD(2) [OF h] ev(2) by (fastforce simp: exact_scope_def scope_for_def)
  qed
  have "history_ok (w_log w @ [ev]) (foreignP w)"
    unfolding history_ok_def same by (intro conjI allI impI history_okD(1,2,4,5) [OF h] row)
  then show ?thesis
    using w ok by (simp add: sound_def effects_ok_snoc)
qed

lemma sound_write:
  assumes w: "sound e ps w" and ok: "write_ok e ps (w_log w) op"
  shows "sound e ps (noted (ds_after op (foreignP w)) (EvStore op (ds_runs op (foreignP w))) w)"
  using w ok history_ok_write [OF history_ok_foreign [OF w] ok]
  by (simp add: sound_def effects_ok_snoc)

section \<open>Rules\<close>

text \<open>Effects that presuppose nothing, and knowledge that the effects between two steps keep.\<close>

fun plain :: "effect \<Rightarrow> bool" where
  "plain (EvStore op ok) = False"
| "plain (EvSubmit d sub rep) = False"
| "plain (EvReview t d run ok) = (\<not> ok)"
| "plain _ = True"

lemma plainD: "plain ev \<Longrightarrow> effect_ok e ps l ev \<and> \<not> is_write ev"
  by (cases ev) simp_all

fun calm :: "effect \<Rightarrow> bool" where
  "calm (EvSubmit d sub rep) = False"
| "calm (EvStore (OpTransition now d st f nc) ok) = (st \<noteq> RvClaimed)"
| "calm (EvStore (OpReserve now d q g) ok) = False"
| "calm _ = True"

lemma plain_calm: "plain ev \<Longrightarrow> calm ev"
  by (cases ev) simp_all

definition lasting :: "(effect list \<Rightarrow> bool) \<Rightarrow> bool" where
  "lasting F \<longleftrightarrow> (\<forall>l ev. F l \<longrightarrow> calm ev \<longrightarrow> F (l @ [ev]))"

lemma lastingD: "lasting F \<Longrightarrow> F l \<Longrightarrow> calm ev \<Longrightarrow> F (l @ [ev])"
  by (simp add: lasting_def)

named_theorems lasting_intros \<open>knowledge that lasts\<close>

lemma lasting_const [lasting_intros]: "lasting (\<lambda>l. P)"
  by (simp add: lasting_def)

lemma lasting_mem [lasting_intros]: "lasting (\<lambda>l. ev \<in> set l)"
  by (simp add: lasting_def)

lemma lasting_conj [lasting_intros]: "lasting F \<Longrightarrow> lasting G \<Longrightarrow> lasting (\<lambda>l. F l \<and> G l)"
  by (simp add: lasting_def)

lemma lasting_ex [lasting_intros]: "(\<And>x. lasting (F x)) \<Longrightarrow> lasting (\<lambda>l. \<exists>x. F x l)"
  unfolding lasting_def by blast

lemma lasting_unclaimed [lasting_intros]: "lasting (\<lambda>l. \<not> claimed_in d l)"
  unfolding lasting_def
proof (intro allI impI)
  fix l ev
  assume "\<not> claimed_in d l" "calm ev"
  then show "\<not> claimed_in d (l @ [ev])"
    by (auto simp: claimed_in_snoc)
qed

lemma lasting_unsent [lasting_intros]: "lasting (\<lambda>l. \<not> submitted_in d l)"
  unfolding lasting_def by (auto simp: submitted_in_snoc)

lemma lasting_claimed [lasting_intros]: "lasting (claimed_in d)"
  unfolding lasting_def by (auto simp: claimed_in_snoc)

lemma lasting_reserved [lasting_intros]: "lasting (reserved_in d q g)"
  unfolding lasting_def by (auto simp: reserved_in_snoc)

lemma latest_reserved_snoc:
  assumes "latest_reserved d q l" "\<And>now d' q' g'. ev \<noteq> EvStore (OpReserve now d' q' g') True"
  shows "latest_reserved d q (l @ [ev])"
proof -
  obtain a b now g where l: "l = a @ EvStore (OpReserve now d q g) True # b"
    and b: "\<And>d' q' g'. \<not> reserved_in d' q' g' b"
    using assms(1) by (auto simp: latest_reserved_def)
  have "l @ [ev] = a @ EvStore (OpReserve now d q g) True # (b @ [ev])"
    and "\<not> reserved_in d' q' g' (b @ [ev])" for d' q' g'
    using l b assms(2) by (auto simp: reserved_in_snoc)
  then show ?thesis unfolding latest_reserved_def by blast
qed

lemma latest_reserved_new: "latest_reserved d q (l @ [EvStore (OpReserve now d q g) True])"
  unfolding latest_reserved_def by (intro exI [of _ l] exI [of _ "[]"]) (auto simp: reserved_in_def)

lemma lasting_latest [lasting_intros]: "lasting (latest_reserved d q)"
  unfolding lasting_def by (auto intro!: latest_reserved_snoc)

lemma lasting_dispatched [lasting_intros]: "lasting (\<lambda>l. dispatched e ps l d p task sp dec)"
  unfolding dispatched_def by (intro lasting_intros)

abbreviation keeps :: "env \<Rightarrow> policy list \<Rightarrow> 'a prog \<Rightarrow> bool" where
  "keeps e ps m \<equiv> valid (sound e ps) m (\<lambda>_. sound e ps) (\<lambda>_. sound e ps)"

lemma knows_call:
  assumes F: "lasting F" and p: "\<And>x. plain (ev x)" "plain failed"
  shows "valid (knows e ps F) (call sel x failed ev)
    (\<lambda>r. knows e ps (\<lambda>l. F l \<and> ev r \<in> set l)) (\<lambda>_. sound e ps)"
  using plainD [OF p(1)] plainD [OF p(2)]
  by (intro valid_call) (auto simp: knows_def intro!: sound_effect lastingD [OF F] plain_calm p)

lemma knows_read:
  assumes F: "lasting F"
  shows "valid (knows e ps F) (ledger_read f)
    (\<lambda>r w. knows e ps F w \<and> history_ok (w_log w) (w_store w) \<and> r = f (w_store w)) (\<lambda>_. sound e ps)"
proof -
  have "sound e ps (noted (foreignP w) EvRead w)" if "sound e ps w" for w
    by (rule sound_effect [OF that]) simp_all
  then show ?thesis
    by (intro valid_ledger_read) (auto simp: knows_def sound_def intro: lastingD [OF F])
qed

lemma knows_write:
  assumes ok: "\<And>l now tok. F l \<Longrightarrow> write_ok e ps l (op now tok)"
    and G: "\<And>l now tok s x. F l \<Longrightarrow> history_ok l s \<Longrightarrow> res now tok s = Inr x \<Longrightarrow>
      G x (l @ [EvStore (op now tok) (ds_runs (op now tok) s)])"
  shows "valid (knows e ps F) (ledger_write op res) (\<lambda>x. knows e ps (G x)) (\<lambda>_. sound e ps)"
proof -
  have "sound e ps (noted (foreignP w) EvRead w)" if "sound e ps w" for w
    by (rule sound_effect [OF that]) simp_all
  then show ?thesis
    by (intro valid_ledger_write) (auto simp: knows_def intro!: sound_write ok G history_ok_foreign)
qed

text \<open>A transition; the last is the only one that ends the knowledge of an unclaimed receipt.\<close>

definition moved_in :: "string \<Rightarrow> rstate \<Rightarrow> rv_fields \<Rightarrow> bool \<Rightarrow> effect list \<Rightarrow> bool" where
  "moved_in d st f nc l \<longleftrightarrow> (\<exists>now. EvStore (OpTransition now d st f nc) True \<in> set l)"

lemma lasting_moved [lasting_intros]: "lasting (moved_in d st f nc)"
  unfolding lasting_def by (auto simp: moved_in_def)

lemma ds_get_id: "ds_get d s = Some r \<Longrightarrow> rv_id r = d \<and> r \<in> set (ds_reservations s)"
  by (auto simp: ds_get_def find_Some_iff)

lemma transition_result:
  assumes "map_sum id fst (ds_transition now d st f nc s) = Inr r"
  shows "rv_id r = d" and "ds_runs (OpTransition now d st f nc) s"
proof -
  obtain s' where "ds_transition now d st f nc s = Inr (r, s')"
    using assms by (cases "ds_transition now d st f nc s") auto
  then show "rv_id r = d" "ds_runs (OpTransition now d st f nc) s"
    by (simp_all add: ds_get_id [OF ds_transition_InrD(2)])
qed

lemma knows_transition:
  assumes "lasting F" "st \<noteq> RvClaimed" "\<And>l. F l \<Longrightarrow> move_ok l d st nc"
  shows "valid (knows e ps F) (p_transition d st f nc)
    (\<lambda>r. knows e ps (\<lambda>l. (F l \<and> moved_in d st f nc l) \<and> rv_id r = d)) (\<lambda>_. sound e ps)"
  unfolding p_transition_def
proof (rule knows_write)
  show "write_ok e ps l (OpTransition now d st f nc)" if "F l" for l now
    using assms(3) [OF that] by simp
  show "((F (l @ [EvStore (OpTransition now d st f nc) (ds_runs (OpTransition now d st f nc) s)])
      \<and> moved_in d st f nc (l @ [EvStore (OpTransition now d st f nc) (ds_runs (OpTransition now d st f nc) s)]))
      \<and> rv_id r = d)"
    if "F l" "map_sum id fst (ds_transition now d st f nc s) = Inr r" for l now s r
    using transition_result [OF that(2)] lastingD [OF assms(1) that(1)] assms(2)
    by (auto simp: moved_in_def)
qed

end
