(* ===== verification/KanbanDispatchRuns.thy ===== *)
theory KanbanDispatchRuns
  imports KanbanDispatchInv
begin

text \<open>
  Each function of \<^verbatim>\<open>dispatch.py\<close> respects the conditions of \<open>KanbanDispatchInv\<close> against every
  environment: what is known of the log before a step, and what of it the step keeps.
\<close>

section \<open>Functions without preconditions\<close>

named_theorems keeps_intros \<open>programs that respect the conditions in every sound world\<close>

lemma keeps_ret [keeps_intros]: "keeps e ps (ret x)"
  by (rule valid_ret)

lemma keeps_throw [keeps_intros]: "keeps e ps (throw x)"
  by (rule valid_throw)

lemma keeps_bind [keeps_intros]: "keeps e ps m \<Longrightarrow> (\<And>x. keeps e ps (f x)) \<Longrightarrow> keeps e ps (bindP m f)"
  by (rule valid_bind)

lemma keeps_catch [keeps_intros]: "keeps e ps m \<Longrightarrow> (\<And>x. keeps e ps (h x)) \<Longrightarrow> keeps e ps (catchP m h)"
  by (rule valid_catch)

lemma keeps_attempt [keeps_intros]: "keeps e ps m \<Longrightarrow> keeps e ps (attemptP m)"
  by (rule valid_attempt)

lemma keeps_if [keeps_intros]:
  "(b \<Longrightarrow> keeps e ps m) \<Longrightarrow> (\<not> b \<Longrightarrow> keeps e ps n) \<Longrightarrow> keeps e ps (if b then m else n)"
  by simp

lemma keeps_option [keeps_intros]:
  "(x = None \<Longrightarrow> keeps e ps m) \<Longrightarrow> (\<And>y. x = Some y \<Longrightarrow> keeps e ps (f y)) \<Longrightarrow>
     keeps e ps (case x of None \<Rightarrow> m | Some y \<Rightarrow> f y)"
  by (rule valid_option)

lemma keeps_sum [keeps_intros]:
  "(\<And>a. x = Inl a \<Longrightarrow> keeps e ps (f a)) \<Longrightarrow> (\<And>b. x = Inr b \<Longrightarrow> keeps e ps (g b)) \<Longrightarrow>
     keeps e ps (case x of Inl a \<Rightarrow> f a | Inr b \<Rightarrow> g b)"
  by (rule valid_sum)

lemma keeps_pair [keeps_intros]:
  "(\<And>a b. keeps e ps (f a b)) \<Longrightarrow> keeps e ps (case x of (a, b) \<Rightarrow> f a b)"
  by (cases x) simp

lemma keeps_env_value [keeps_intros]: "keeps e ps (env_value f)"
  by (simp add: valid_def env_value_def)

lemma keeps_call [keeps_intros]:
  assumes "\<And>x. plain (ev x)" "plain failed"
  shows "keeps e ps (call sel x failed ev)"
  using knows_call [OF lasting_const [of True] assms] by (rule valid_conseq) (auto simp: knows_sound)

lemma keeps_read [keeps_intros]: "keeps e ps (ledger_read f)"
  using knows_read [OF lasting_const [of True]] by (rule valid_conseq) auto

lemma keeps_write:
  assumes "\<And>l now tok. write_ok e ps l (op now tok)"
  shows "keeps e ps (ledger_write op res)"
proof -
  have "valid (knows e ps (\<lambda>_. True)) (ledger_write op res) (\<lambda>x. knows e ps (\<lambda>_. True)) (\<lambda>_. sound e ps)"
    by (rule knows_write) (auto simp: assms)
  then show ?thesis by simp
qed

text \<open>The states a transition may always write.\<close>

definition free_state :: "rstate \<Rightarrow> bool" where
  "free_state st \<longleftrightarrow> st \<notin> {RvReserved, RvClaimed, RvAborted, RvReview}"

lemma free_state_simps [simp]:
  "free_state RvSubmitted" "free_state RvCompleting" "free_state RvBlocked" "free_state RvCancelled"
  "free_state RvFailed" "free_state RvUnknown"
  by (simp_all add: free_state_def)

lemma free_move: "free_state st \<Longrightarrow> move_ok l d st nc"
  by (auto simp: free_state_def move_ok_def)

lemma keeps_transition [keeps_intros]: "free_state st \<Longrightarrow> keeps e ps (p_transition d st f nc)"
  unfolding p_transition_def by (intro keeps_write) (simp add: free_move)

lemma keeps_get [keeps_intros]: "keeps e ps (p_get d)"
  unfolding p_get_def by (intro keeps_intros)

lemma keeps_evidence [keeps_intros]: "keeps e ps (p_evidence d ev)"
  unfolding p_evidence_def by (intro keeps_write) simp

lemma keeps_create [keeps_intros]: "keeps e ps (p_create_approval q)"
  unfolding p_create_approval_def by (intro keeps_write) simp

lemma keeps_find [keeps_intros]: "keeps e ps (p_find_grant t oper rvn sh fp)"
  unfolding p_find_grant_def by (intro keeps_write) simp

lemma keeps_kernel [keeps_intros]:
  "keeps e ps (k_block t run why)" "keeps e ps (k_get_task t)" "keeps e ps (k_reopen t run)"
  "keeps e ps (k_max_retries t)" "keeps e ps (k_claim t d)" "keeps e ps (k_notify p t)"
  unfolding k_block_def k_get_task_def k_reopen_def k_max_retries_def k_claim_def k_notify_def
  by (auto intro!: keeps_intros)

lemma keeps_ignoring [keeps_intros]: "keeps e ps m \<Longrightarrow> keeps e ps (ignoring which m)"
  unfolding ignoring_def by (intro keeps_intros)

lemma keeps_cancelled_board [keeps_intros]: "keeps e ps (cancelled_board t krun)"
  unfolding cancelled_board_def by (intro keeps_intros)

lemma keeps_cancel_wrapper_run [keeps_intros]: "keeps e ps (cancel_wrapper_run res)"
  unfolding cancel_wrapper_run_def by (intro keeps_intros) simp_all

lemma keeps_cancelled_path [keeps_intros]: "keeps e ps (cancelled_path bridge res t krun)"
  unfolding cancelled_path_def by (intro keeps_intros) simp_all

lemma keeps_cancelled_receipt [keeps_intros]: "keeps e ps (cancelled_receipt d t krun)"
  unfolding cancelled_receipt_def by (intro keeps_intros)

lemma keeps_transition_guarded [keeps_intros]:
  "free_state st \<Longrightarrow> keeps e ps (transition_guarded bridge res t krun st f)"
  unfolding transition_guarded_def by (intro keeps_intros)

lemma keeps_finish_with [keeps_intros]:
  "free_state st \<Longrightarrow> keeps e ps (finish_with bridge res t krun st out)"
  unfolding finish_with_def by (intro keeps_intros)

lemma keeps_block_and_finish [keeps_intros]:
  "free_state st \<Longrightarrow> keeps e ps (block_and_finish res t krun st out)"
  unfolding block_and_finish_def by (intro keeps_intros)

lemma keeps_record_block [keeps_intros]: "keeps e ps (record_block res krun)"
  unfolding record_block_def by (intro keeps_intros) simp_all

lemma keeps_gate_for_approval [keeps_intros]: "keeps e ps (gate_for_approval p task sp dec)"
  unfolding gate_for_approval_def by (intro keeps_intros)

lemma keeps_fenced_block [keeps_intros]: "keeps e ps (fenced_block t)"
  unfolding fenced_block_def by (intro keeps_intros)

lemma keeps_parent_states [keeps_intros]: "keeps e ps (parent_states ts)"
  by (induction ts) (auto intro!: keeps_intros)


section \<open>Steps with preconditions\<close>

abbreviation runs :: "env \<Rightarrow> policy list \<Rightarrow> (effect list \<Rightarrow> bool) \<Rightarrow> 'a prog \<Rightarrow> bool" where
  "runs e ps F m \<equiv> valid (knows e ps F) m (\<lambda>_. sound e ps) (\<lambda>_. sound e ps)"

abbreviation learns ::
  "env \<Rightarrow> policy list \<Rightarrow> (effect list \<Rightarrow> bool) \<Rightarrow> 'a prog \<Rightarrow> ('a \<Rightarrow> effect list \<Rightarrow> bool) \<Rightarrow> bool" where
  "learns e ps F m G \<equiv> valid (knows e ps F) m (\<lambda>x. knows e ps (G x)) (\<lambda>_. sound e ps)"

lemma runs_keeps: "keeps e ps m \<Longrightarrow> runs e ps F m"
  by (erule valid_pre) (simp add: knows_sound)

lemma runs_pre: "runs e ps G m \<Longrightarrow> (\<And>l. F l \<Longrightarrow> G l) \<Longrightarrow> runs e ps F m"
  by (erule valid_pre) (simp add: knows_def)

lemma runs_bind:
  "learns e ps F m G \<Longrightarrow> (\<And>x. runs e ps (G x) (f x)) \<Longrightarrow> runs e ps F (bindP m f)"
  by (rule valid_bind)

lemma learns_bind:
  "learns e ps F m G \<Longrightarrow> (\<And>x. learns e ps (G x) (f x) H) \<Longrightarrow> learns e ps F (bindP m f) H"
  by (rule valid_bind)

lemma runs_attempt:
  assumes "learns e ps F m G" "\<And>x. runs e ps (G x) (f (Inr x))" "\<And>x. keeps e ps (f (Inl x))"
  shows "runs e ps F (bindP (attemptP m) f)"
proof (rule valid_bind)
  show "valid (knows e ps F) (attemptP m)
      (\<lambda>r. case r of Inl x \<Rightarrow> sound e ps | Inr x \<Rightarrow> knows e ps (G x)) (\<lambda>_. sound e ps)"
    by (rule valid_attempt) (simp add: assms(1))
  show "valid ((\<lambda>r. case r of Inl x \<Rightarrow> sound e ps | Inr x \<Rightarrow> knows e ps (G x)) r) (f r)
      (\<lambda>_. sound e ps) (\<lambda>_. sound e ps)" for r
    using assms(2,3) by (cases r) simp_all
qed

lemma learns_ret: "(\<And>l. F l \<Longrightarrow> G x l) \<Longrightarrow> learns e ps F (ret x) G"
  by (rule valid_ret) (simp add: knows_def)

lemma learns_throw: "learns e ps F (throw x) G"
  by (rule valid_throw) (simp add: knows_sound)

lemma learns_post: "learns e ps F m G \<Longrightarrow> (\<And>x l. G x l \<Longrightarrow> H x l) \<Longrightarrow> learns e ps F m H"
  by (erule valid_conseq) (simp_all add: knows_def)

lemma learns_call:
  assumes "\<And>l x. F l \<Longrightarrow> effect_ok e ps l (ev x) \<and> G x (l @ [ev x])"
    and "\<And>l. F l \<Longrightarrow> effect_ok e ps l failed" "\<And>x. \<not> is_write (ev x)" "\<not> is_write failed"
  shows "learns e ps F (call sel x failed ev) G"
  using assms
  by (intro valid_call) (auto simp: knows_def intro!: sound_effect)

lemma learns_get:
  assumes "lasting F"
  shows "learns e ps F (p_get d) (\<lambda>r l. F l \<and> (\<forall>c. r = Some c \<longrightarrow> rv_id c = d))"
  unfolding p_get_def
  by (rule valid_conseq [OF knows_read [OF assms]]) (auto simp: knows_def ds_get_id)

lemma learns_evidence:
  assumes "lasting F"
  shows "learns e ps F (p_evidence d ev)
    (\<lambda>_ l. F l \<and> (\<exists>now ev. EvStore (OpEvidence now d ev) True \<in> set l))"
  unfolding p_evidence_def
proof (rule knows_write)
  show "write_ok e ps l (OpEvidence now d ev)" for l now by simp
  show "F (l @ [EvStore (OpEvidence now d ev) (ds_runs (OpEvidence now d ev) s)])
      \<and> (\<exists>now' ev'. EvStore (OpEvidence now' d ev') True
           \<in> set (l @ [EvStore (OpEvidence now d ev) (ds_runs (OpEvidence now d ev) s)]))"
    if "F l" "map_sum id (\<lambda>_. ()) (record_evidence now d ev s) = Inr x" for l now s x
    using lastingD [OF assms that(1)] that(2) by (cases "record_evidence now d ev s") auto
qed

section \<open>The handoff to review\<close>

lemma succeeded_lasting [lasting_intros]: "lasting (\<lambda>l. succeeded_run l d t)"
  unfolding succeeded_run_def by (intro lasting_intros)

lemma completing_lasting [lasting_intros]: "lasting (completing_in d)"
  unfolding lasting_def completing_in_def by auto

lemma verified_lasting [lasting_intros]: "lasting (\<lambda>l. verified_work p sp l d)"
  unfolding verified_work_def by (intro lasting_intros)

lemma hand_to_review_runs:
  "runs e ps (\<lambda>l. review_ok e ps l t (rv_id res)) (hand_to_review p res t krun synthetic)"
  unfolding hand_to_review_def
proof (rule runs_bind)
  show "learns e ps (\<lambda>l. review_ok e ps l t (rv_id res)) (k_review t (rv_id res) krun)
      (\<lambda>ok l. ok \<longrightarrow> EvReview t (rv_id res) krun True \<in> set l)"
    unfolding k_review_def by (rule learns_call) auto
next
  fix ok
  have step: "learns e ps (\<lambda>l. EvReview t (rv_id res) krun True \<in> set l)
      (p_transition (rv_id res) RvReview no_fields True) (\<lambda>_ _. True)"
    by (rule learns_post [OF knows_transition]) (auto intro!: lasting_intros simp: move_ok_def)
  show "runs e ps (\<lambda>l. ok \<longrightarrow> EvReview t (rv_id res) krun True \<in> set l)
      (if \<not> ok
       then finish_with True res t krun RvUnknown
              ((receipt_result res OcUnknown)\<lparr>co_run := None, co_dispatched := True\<rparr>)
       else bindP (attemptP (p_transition (rv_id res) RvReview no_fields True)) (\<lambda>r. case r of
           Inl e \<Rightarrow> if is_store_error e then cancelled_receipt (rv_id res) t krun else throw e
         | Inr _ \<Rightarrow> bindP (k_notify p t) (\<lambda>_.
             ret ((receipt_result res OcReview)\<lparr>co_dispatched := True, co_synthetic := synthetic\<rparr>))))"
  proof (cases ok)
    case False
    then show ?thesis by (auto intro!: runs_keeps keeps_intros)
  next
    case True
    then show ?thesis
      by (simp, intro runs_attempt [OF step]) (auto intro!: runs_keeps keeps_intros)
  qed
qed

text \<open>What the inspection learns.\<close>

definition inspected :: "policy \<Rightarrow> task_spec \<Rightarrow> string \<Rightarrow> inspection \<Rightarrow> effect list \<Rightarrow> bool" where
  "inspected p sp d ins l \<longleftrightarrow>
     (vr_ok (in_verify ins) \<longrightarrow>
        argv_allowed (vy_executables (po_verification p)) (vy_commands (po_verification p))
          (vs_argv (ts_verification sp)) \<noteq> None
        \<and> EvVerify d (in_verify ins) \<in> set l)
     \<and> EvArtifacts d (in_missing ins) \<in> set l
     \<and> EvChanged d (in_changed ins) \<in> set l
     \<and> in_violations ins = check_scope (in_changed ins) (ts_allowed_scope sp)"

lemma inspect_run_learns:
  assumes F: "lasting F"
  shows "learns e ps F (inspect_run p sp d) (\<lambda>ins l. F l \<and> inspected p sp d ins l)"
proof -
  let ?A = "argv_allowed (vy_executables (po_verification p)) (vy_commands (po_verification p))
    (vs_argv (ts_verification sp)) \<noteq> None"
  have 1: "learns e ps F (run_verification p sp d)
      (\<lambda>v l. F l \<and> (vr_ok v \<longrightarrow> ?A \<and> EvVerify d v \<in> set l))"
    unfolding run_verification_def
  proof (rule valid_option)
    show "learns e ps F (ret refused_verification)
        (\<lambda>v l. F l \<and> (vr_ok v \<longrightarrow> ?A \<and> EvVerify d v \<in> set l))"
      by (rule learns_ret) (simp add: refused_verification_def)
    show "learns e ps F (call en_run WorktreeError (EvInspectFailed d) (EvVerify d))
        (\<lambda>v l. F l \<and> (vr_ok v \<longrightarrow> ?A \<and> EvVerify d v \<in> set l))"
      if "argv_allowed (vy_executables (po_verification p)) (vy_commands (po_verification p))
        (vs_argv (ts_verification sp)) = Some y" for y
      by (rule learns_post [OF knows_call [OF F]]) (auto simp: that)
  qed
  have lasting: "lasting (\<lambda>l. F l \<and> (vr_ok v \<longrightarrow> ?A \<and> EvVerify d v \<in> set l))" for v
    using F by (auto simp: lasting_def)
  show ?thesis
    unfolding inspect_run_def
  proof (intro learns_bind [OF 1])
    fix v
    let ?F1 = "\<lambda>l. F l \<and> (vr_ok v \<longrightarrow> ?A \<and> EvVerify d v \<in> set l)"
    show "learns e ps ?F1
       (bindP (call en_artifacts WorktreeError (EvInspectFailed d) (\<lambda>(a, m). EvArtifacts d m))
         (\<lambda>(arts, missing).
           bindP (call en_changed WorktreeError (EvInspectFailed d) (EvChanged d)) (\<lambda>changed.
           bindP (call en_diff WorktreeError (EvInspectFailed d) (\<lambda>_. EvCapture d)) (\<lambda>diff.
             ret \<lparr>in_verify = v, in_artifacts = arts, in_missing = missing, in_changed = changed,
               in_violations = check_scope changed (ts_allowed_scope sp), in_diff = diff\<rparr>))))
       (\<lambda>ins l. F l \<and> inspected p sp d ins l)"
    proof (rule learns_bind [OF knows_call [OF lasting]])
      show "learns e ps (\<lambda>l. ?F1 l \<and> (case x of (a, m) \<Rightarrow> EvArtifacts d m) \<in> set l)
        (case x of (arts, missing) \<Rightarrow>
           bindP (call en_changed WorktreeError (EvInspectFailed d) (EvChanged d)) (\<lambda>changed.
           bindP (call en_diff WorktreeError (EvInspectFailed d) (\<lambda>_. EvCapture d)) (\<lambda>diff.
             ret \<lparr>in_verify = v, in_artifacts = arts, in_missing = missing, in_changed = changed,
               in_violations = check_scope changed (ts_allowed_scope sp), in_diff = diff\<rparr>)))
        (\<lambda>ins l. F l \<and> inspected p sp d ins l)" for x
      proof (cases x)
        case (Pair a m)
        show ?thesis
          unfolding Pair prod.case
          by (intro learns_bind [OF knows_call] learns_ret lasting_conj lasting lasting_intros)
            (auto simp: inspected_def)
      qed
    qed auto
  qed
qed


lemma inspected_lasting [lasting_intros]: "lasting (inspected p sp d ins)"
  unfolding lasting_def inspected_def by auto

text \<open>What is known when the run view of the submission \<open>sub\<close> is read.\<close>

definition replied ::
  "env \<Rightarrow> policy list \<Rightarrow> string \<Rightarrow> policy \<Rightarrow> board_task \<Rightarrow> task_spec \<Rightarrow> jev_decision \<Rightarrow> run_view \<Rightarrow>
     string \<Rightarrow> exec_meta option \<Rightarrow> effect list \<Rightarrow> bool" where
  "replied e ps d p task sp dec run ws meta l \<longleftrightarrow> dispatched e ps l d p task sp dec
     \<and> (\<exists>sub rep. EvSubmit d sub rep \<in> set l \<and> su_task sub = bt_id task \<and> su_workspace sub = ws
          \<and> su_execution sub = meta \<and> reply_view rep = Some run)"

lemma replied_lasting [lasting_intros]: "lasting (replied e ps d p task sp dec run ws meta)"
  unfolding replied_def by (intro lasting_intros)

definition completed_work ::
  "env \<Rightarrow> policy list \<Rightarrow> string \<Rightarrow> policy \<Rightarrow> board_task \<Rightarrow> task_spec \<Rightarrow> jev_decision \<Rightarrow> effect list \<Rightarrow> bool" where
  "completed_work e ps d p task sp dec l \<longleftrightarrow> dispatched e ps l d p task sp dec
     \<and> succeeded_run l d (bt_id task) \<and> completing_in d l"

lemma completed_lasting [lasting_intros]: "lasting (completed_work e ps d p task sp dec)"
  unfolding completed_work_def by (intro lasting_intros)

lemma review_okI:
  assumes "completed_work e ps d p task sp dec l" "inspected p sp d ins l"
    and "EvHashes d False \<in> set l" "\<exists>now ev. EvStore (OpEvidence now d ev) True \<in> set l"
    and "vr_ok (in_verify ins)" "in_missing ins = []" "in_violations ins = []"
  shows "review_ok e ps l (bt_id task) d"
proof -
  have "verified_work p sp l d"
    using assms(2-7) unfolding verified_work_def inspected_def by metis
  then show ?thesis
    using assms(1) unfolding review_ok_def completed_work_def by blast
qed

lemma verify_and_review_runs:
  assumes d: "rv_id res = d" and t: "t = bt_id task"
  shows "runs e ps (completed_work e ps d p task sp dec)
    (verify_and_review p sp res run t krun ephemeral)"
  unfolding verify_and_review_def Let_def d
proof (intro runs_attempt [OF inspect_run_learns], goal_cases)
  case 1
  show ?case by (intro lasting_intros)
next
  case (2 ins)
  let ?F = "\<lambda>l. completed_work e ps d p task sp dec l \<and> inspected p sp d ins l"
  show ?case
    unfolding sum.case
  proof (intro runs_bind [OF knows_call [where F = ?F]], goal_cases)
    case (4 u)
    let ?F1 = "\<lambda>l. ?F l \<and> EvPersist d \<in> set l"
    show ?case
    proof (intro runs_bind [OF knows_call [where F = ?F1]], goal_cases)
      case (4 x)
      obtain hs failed where x: "x = (hs, failed)" by force
      show ?case
        unfolding x prod.case
      proof (intro runs_bind [OF learns_evidence], goal_cases)
        case 1
        show ?case by (intro lasting_intros)
      next
        case (2 u)
        have review: "runs e ps (\<lambda>l. review_ok e ps l t (rv_id res)) (hand_to_review p res t krun synth)" for synth
          by (rule hand_to_review_runs)
        show ?case
        proof (rule valid_if, goal_cases)
          case 1
          show ?case by (intro runs_keeps keeps_intros) simp
        next
          case 2
          then show ?case
            by (intro runs_pre [OF review], unfold d t, intro review_okI) auto
        qed
      qed
    qed (auto intro!: lasting_intros)
  qed (auto intro!: lasting_intros)
next
  case (3 x)
  show ?case by (auto intro!: keeps_intros)
qed

lemma handle_run_status_runs:
  assumes d: "rv_id res = d" and t: "t = bt_id task"
  shows "runs e ps (replied e ps d p task sp dec run ws meta)
    (handle_run_status p sp res run t krun meta ws ephemeral)"
  unfolding handle_run_status_def
proof (intro valid_if)
  assume ok: "\<not> foreign_run run t ws meta" "\<not> run_status run \<noteq> ''completed''"
    "\<not> ru_outcome run \<noteq> Some ''succeeded''"
  have F: "lasting (\<lambda>l. dispatched e ps l d p task sp dec \<and> succeeded_run l d (bt_id task))"
    by (intro lasting_intros)
  have step: "learns e ps (replied e ps d p task sp dec run ws meta)
      (p_transition (rv_id res) RvCompleting no_fields True)
      (\<lambda>r l. completed_work e ps d p task sp dec l \<and> rv_id r = d)"
  proof (rule valid_conseq [OF knows_transition [OF F]])
    show "knows e ps (\<lambda>l. dispatched e ps l d p task sp dec \<and> succeeded_run l d (bt_id task)) w"
      if "knows e ps (replied e ps d p task sp dec run ws meta) w" for w
      using that ok t by (auto simp: knows_def replied_def succeeded_run_def)
    show "knows e ps (\<lambda>l. completed_work e ps d p task sp dec l \<and> rv_id r = d) w"
      if "knows e ps (\<lambda>l. ((dispatched e ps l d p task sp dec \<and> succeeded_run l d (bt_id task))
        \<and> moved_in (rv_id res) RvCompleting no_fields True l) \<and> rv_id r = rv_id res) w" for r w
      using that d by (auto simp: knows_def completed_work_def completing_in_def moved_in_def)
  qed (simp_all add: free_move)
  show "runs e ps (replied e ps d p task sp dec run ws meta)
     (bindP (attemptP (p_transition (rv_id res) RvCompleting no_fields True)) (\<lambda>r. case r of
          Inl e \<Rightarrow> if is_store_error e then cancelled_receipt (rv_id res) t krun else throw e
        | Inr res' \<Rightarrow> verify_and_review p sp res' run t krun ephemeral))"
  proof (intro runs_attempt [OF step], goal_cases)
    case (1 r)
    show ?case
    proof (cases "rv_id r = d")
      case True
      then show ?thesis
        by (simp, intro runs_pre [OF verify_and_review_runs [OF True t]]) simp
    next
      case False
      then show ?thesis by (simp add: valid_def knows_def)
    qed
  next
    case (2 x)
    show ?case by (auto intro!: keeps_intros)
  qed
qed (auto intro!: runs_keeps keeps_intros)

section \<open>The submission\<close>

lemma submit_and_handle_runs:
  assumes d: "rv_id res = d" and t: "t = bt_id task"
    and ws: "map_of (po_workspaces p) (ts_workspace_id sp) = Some ws"
    and cands: "map_of (po_routes p) (chosen_route dec) = Some cands" "\<not> preset_refused p dec cands"
  shows "runs e ps (\<lambda>l. dispatched e ps l d p task sp dec
      \<and> latest_reserved d (exact_scope e p task sp dec) l \<and> \<not> submitted_in d l \<and> claimed_in d l
      \<and> EvMaxRetries t \<in> set l \<and> (\<exists>run. EvClaim t d True run \<in> set l))
    (submit_and_handle p sp dec ws res t krun ephemeral)"
proof -
  define sub where "sub = \<lparr>su_model = submitted_model p (chosen_route dec), su_task = t,
    su_workspace = submit_workspace ws sp, su_prompt = prompt_text sp,
    su_execution = meta_of p sp (chosen_route dec)\<rparr>"
  have faithful: "faithful_submission p task sp dec sub"
    using ws cands by (auto simp: faithful_submission_def sub_def t)
  let ?F = "\<lambda>l. dispatched e ps l d p task sp dec
      \<and> latest_reserved d (exact_scope e p task sp dec) l \<and> \<not> submitted_in d l \<and> claimed_in d l
      \<and> EvMaxRetries t \<in> set l \<and> (\<exists>run. EvClaim t d True run \<in> set l)"
  let ?G = "\<lambda>rep l. \<forall>run. reply_view rep = Some run \<longrightarrow>
      replied e ps d p task sp dec run (submit_workspace ws sp) (meta_of p sp (chosen_route dec)) l"
  have send: "learns e ps ?F (call en_submit WrapperError (EvSubmit d sub TransportFailed) (EvSubmit d sub)) ?G"
  proof -
    have 1: "submit_ok e ps l d sub" if "?F l" for l
      using that faithful unfolding t submit_ok_def by blast
    have 2: "?G rep (l @ [EvSubmit d sub rep])" if "?F l" for l rep
    proof -
      have "dispatched e ps (l @ [EvSubmit d sub rep]) d p task sp dec"
        using that by (auto simp: dispatched_def reserved_in_def)
      moreover have "EvSubmit d sub rep \<in> set (l @ [EvSubmit d sub rep])" "su_task sub = bt_id task"
        "su_workspace sub = submit_workspace ws sp" "su_execution sub = meta_of p sp (chosen_route dec)"
        by (simp_all add: sub_def t)
      ultimately show ?thesis unfolding replied_def by blast
    qed
    show ?thesis
    proof (rule learns_call)
      show "effect_ok e ps l (EvSubmit d sub rep) \<and> ?G rep (l @ [EvSubmit d sub rep])" if "?F l" for l rep
        using 1 [OF that] 2 [OF that] by simp
      show "effect_ok e ps l (EvSubmit d sub TransportFailed)" if "?F l" for l
        using 1 [OF that] by simp
    qed simp_all
  qed
  have unknown: "runs e ps F (block_and_finish res t krun RvUnknown (receipt_result res OcUnknown))" for F
    by (intro runs_keeps keeps_intros) simp
  let ?meta = "meta_of p sp (chosen_route dec)" and ?ws = "submit_workspace ws sp"
  let ?reconcile = "\<lambda>rid run.
      bindP (attemptP (p_transition (rv_id res) RvSubmitted
               (no_fields\<lparr>rf_run := Some rid, rf_attempt := ru_attempt run\<rparr>) False)) (\<lambda>r. case r of
          Inl e \<Rightarrow> if is_store_error e then cancelled_receipt (rv_id res) t krun else throw e
        | Inr res' \<Rightarrow> handle_run_status p sp res' run t krun ?meta ?ws ephemeral)"
  have reconcile: "runs e ps (replied e ps d p task sp dec run ?ws ?meta)
      (?reconcile rid run)" for rid run
  proof (intro runs_attempt [OF knows_transition], goal_cases)
    case (4 r)
    show ?case
    proof (cases "rv_id r = d")
      case True
      then show ?thesis
        unfolding sum.case by (intro runs_pre [OF handle_run_status_runs [where dec = dec, OF True t]]) simp
    next
      case False
      then show ?thesis by (simp add: valid_def knows_def d)
    qed
  next
    case (5 x)
    show ?case by (auto intro!: keeps_intros)
  qed (auto intro!: lasting_intros free_move)
  have fold: "submit_and_handle p sp dec ws res t krun ephemeral =
      bindP (call en_submit WrapperError (EvSubmit d sub TransportFailed) (EvSubmit d sub)) (\<lambda>reply. case reply of
          TransportFailed \<Rightarrow> block_and_finish res t krun RvUnknown (receipt_result res OcUnknown)
        | HttpRefused status run \<Rightarrow>
            (case run of
               Some v \<Rightarrow> (case ru_run_id v of
                   Some (c # cs) \<Rightarrow> ?reconcile (c # cs) v
                 | _ \<Rightarrow> block_and_finish res t krun RvUnknown (receipt_result res OcUnknown))
             | None \<Rightarrow> block_and_finish res t krun RvUnknown (receipt_result res OcUnknown))
        | Accepted rid v \<Rightarrow> ?reconcile rid v)"
    unfolding submit_and_handle_def Let_def sub_def d chosen_route_def ..
  show ?thesis
    unfolding fold
  proof (rule runs_bind [OF send])
    fix rep
    show "runs e ps (?G rep) (case rep of
          TransportFailed \<Rightarrow> block_and_finish res t krun RvUnknown (receipt_result res OcUnknown)
        | HttpRefused status run \<Rightarrow>
            (case run of
               Some v \<Rightarrow> (case ru_run_id v of
                   Some (c # cs) \<Rightarrow> ?reconcile (c # cs) v
                 | _ \<Rightarrow> block_and_finish res t krun RvUnknown (receipt_result res OcUnknown))
             | None \<Rightarrow> block_and_finish res t krun RvUnknown (receipt_result res OcUnknown))
        | Accepted rid v \<Rightarrow> ?reconcile rid v)"
    proof (cases rep)
      case TransportFailed
      show ?thesis unfolding TransportFailed submit_reply.case by (rule unknown)
    next
      case (Accepted rid v)
      then show ?thesis by (simp, intro runs_pre [OF reconcile]) simp
    next
      case (HttpRefused st v)
      then show ?thesis
        by (auto split: option.split list.split intro: unknown keeps_block_and_finish runs_pre [OF reconcile])
    qed
  qed
qed

section \<open>The claim\<close>

text \<open>A receipt this tick reserved and has not claimed.\<close>

definition fresh ::
  "env \<Rightarrow> policy list \<Rightarrow> string \<Rightarrow> policy \<Rightarrow> board_task \<Rightarrow> task_spec \<Rightarrow> jev_decision \<Rightarrow> effect list \<Rightarrow> bool" where
  "fresh e ps d p task sp dec l \<longleftrightarrow> dispatched e ps l d p task sp dec
     \<and> latest_reserved d (exact_scope e p task sp dec) l \<and> \<not> claimed_in d l \<and> \<not> submitted_in d l"

lemma fresh_lasting [lasting_intros]: "lasting (fresh e ps d p task sp dec)"
  unfolding fresh_def by (intro lasting_intros)

lemma abort_runs:
  assumes "\<And>l. F l \<Longrightarrow> \<not> claimed_in d l" and "keeps e ps m" and "\<And>x. keeps e ps (h x)"
  shows "runs e ps F (bindP (attemptP (p_transition d RvAborted f False)) (\<lambda>r. case r of
      Inl x \<Rightarrow> h x | Inr _ \<Rightarrow> m))"
proof -
  have "learns e ps (\<lambda>l. \<not> claimed_in d l) (p_transition d RvAborted f False) (\<lambda>_ _. True)"
    by (rule learns_post [OF knows_transition]) (auto intro!: lasting_intros simp: move_ok_def)
  then have "learns e ps F (p_transition d RvAborted f False) (\<lambda>_ _. True)"
    by (rule valid_pre) (auto simp: knows_def assms(1))
  then show ?thesis
    by (rule runs_attempt) (auto intro: runs_keeps assms)
qed

definition holding ::
  "env \<Rightarrow> policy list \<Rightarrow> string \<Rightarrow> policy \<Rightarrow> board_task \<Rightarrow> task_spec \<Rightarrow> jev_decision \<Rightarrow> effect list \<Rightarrow> bool" where
  "holding e ps d p task sp dec l \<longleftrightarrow> dispatched e ps l d p task sp dec
     \<and> latest_reserved d (exact_scope e p task sp dec) l \<and> \<not> submitted_in d l
     \<and> claimed_in d l \<and> EvMaxRetries (bt_id task) \<in> set l
     \<and> (\<exists>run. EvClaim (bt_id task) d True run \<in> set l)"

lemma holding_lasting [lasting_intros]: "lasting (holding e ps d p task sp dec)"
  unfolding holding_def by (intro lasting_intros)

lemma claim_learns:
  "learns e ps (\<lambda>l. (fresh e ps d p task sp dec l \<and> EvMaxRetries (bt_id task) \<in> set l)
      \<and> EvClaim (bt_id task) d True krun \<in> set l)
    (p_transition d RvClaimed f False) (\<lambda>r l. holding e ps d p task sp dec l \<and> rv_id r = d)"
  unfolding p_transition_def
proof (rule knows_write)
  let ?F = "\<lambda>l. (fresh e ps d p task sp dec l \<and> EvMaxRetries (bt_id task) \<in> set l)
      \<and> EvClaim (bt_id task) d True krun \<in> set l"
  show "write_ok e ps l (OpTransition now d RvClaimed f False)" if "?F l" for l now
    using that by (auto simp: move_ok_def)
  fix l now s r
  assume l: "?F l" and r: "map_sum id fst (ds_transition now d RvClaimed f False s) = Inr r"
  let ?l = "l @ [EvStore (OpTransition now d RvClaimed f False) (ds_runs (OpTransition now d RvClaimed f False) s)]"
  have "dispatched e ps ?l d p task sp dec" "\<not> submitted_in d ?l"
    "latest_reserved d (exact_scope e p task sp dec) ?l"
    using l by (auto simp: fresh_def dispatched_def log_snoc submitted_in_snoc intro: latest_reserved_snoc)
  moreover have "claimed_in d ?l"
    unfolding claimed_in_snoc by (simp only: transition_result(2) [OF r]) blast
  ultimately show "holding e ps d p task sp dec ?l \<and> rv_id r = d"
    using l transition_result(1) [OF r] by (auto simp: holding_def)
qed

lemma worktree_learns:
  assumes F: "lasting F"
  shows "learns e ps F (case admitted of
      Some wt \<Rightarrow> ret wt
    | None \<Rightarrow> if \<not> full_commit (ts_base_revision sp) then throw WorktreeError
              else call en_worktree WorktreeError (EvWorktree d) (\<lambda>_. EvWorktree d)) (\<lambda>_. F)"
  by (cases admitted)
    (auto intro: learns_ret learns_throw learns_post [OF knows_call [OF F]])

lemma claim_and_submit_runs:
  assumes d: "rv_id res = d" and t: "t = bt_id task"
    and ws: "map_of (po_workspaces p) (ts_workspace_id sp) = Some ws"
    and cands: "map_of (po_routes p) (chosen_route dec) = Some cands" "\<not> preset_refused p dec cands"
  shows "runs e ps (fresh e ps d p task sp dec) (claim_and_submit p sp dec ws res t admitted)"
  unfolding claim_and_submit_def k_max_retries_def k_claim_def d t
proof (rule runs_bind [OF knows_call], goal_cases)
  case (4 u)
  let ?F = "\<lambda>l. fresh e ps d p task sp dec l \<and> EvMaxRetries (bt_id task) \<in> set l"
  show ?case
  proof (rule runs_bind [OF knows_call [where F = ?F]], goal_cases)
    case (4 x)
    obtain ok krun where x: "x = (ok, krun)" by force
    let ?F1 = "\<lambda>l. ?F l \<and> EvClaim (bt_id task) d ok krun \<in> set l"
    have F1: "lasting ?F1" by (intro lasting_intros)
    show ?case
      unfolding x prod.case
    proof (rule valid_if, goal_cases)
      case 1
      show ?case
        by (intro abort_runs) (auto simp: fresh_def intro!: keeps_intros)
    next
      case 2
      then have ok: "ok = True" by simp
      show ?case
      proof (intro runs_attempt [OF worktree_learns [OF F1]], goal_cases)
        case (1 wt)
        show ?case
          unfolding sum.case ok
        proof (intro runs_attempt [OF claim_learns], goal_cases)
          case (1 res1)
          show ?case
          proof (cases "rv_id res1 = d")
            case False
            then show ?thesis by (simp add: valid_def knows_def)
          next
            case True
            have F2: "lasting (\<lambda>l. holding e ps d p task sp dec l \<and> rv_id res1 = d)"
              by (intro lasting_intros)
            show ?thesis
              unfolding sum.case Let_def
            proof (intro runs_bind [OF learns_get [OF F2]], goal_cases)
              case (1 cur)
              let ?res2 = "case cur of None \<Rightarrow> res1 | Some c \<Rightarrow> c"
              show ?case
              proof (cases "rv_id ?res2 = d")
                case False
                then show ?thesis
                  using True by (cases cur) (auto simp: valid_def knows_def)
              next
                case r2: True
                show ?thesis
                  by (intro valid_if runs_keeps keeps_cancelled_path
                      runs_pre [OF submit_and_handle_runs [OF r2 t ws cands, unfolded t]])
                    (simp add: holding_def)
              qed
            qed
          qed
        next
          case (2 x)
          show ?case by (auto intro!: keeps_intros)
        qed
      next
        case (2 x)
        show ?case by (auto intro!: keeps_intros)
      qed
    qed
  qed (auto intro!: lasting_intros)
qed (auto intro!: lasting_intros)


section \<open>One card\<close>

text \<open>Programs that keep what is known.\<close>

definition inert :: "env \<Rightarrow> policy list \<Rightarrow> 'a prog \<Rightarrow> bool" where
  "inert e ps m \<longleftrightarrow> (\<forall>F. lasting F \<longrightarrow> learns e ps F m (\<lambda>_. F))"

lemma inertD: "inert e ps m \<Longrightarrow> lasting F \<Longrightarrow> learns e ps F m (\<lambda>_. F)"
  by (simp add: inert_def)

named_theorems inert_intros \<open>programs that keep what is known\<close>

lemma inert_ret [inert_intros]: "inert e ps (ret x)"
  unfolding inert_def by (auto intro: learns_ret)

lemma inert_throw [inert_intros]: "inert e ps (throw x)"
  unfolding inert_def by (auto intro: learns_throw)

lemma inert_bind [inert_intros]:
  assumes "inert e ps m" "\<And>x. inert e ps (f x)"
  shows "inert e ps (bindP m f)"
  unfolding inert_def
proof (intro allI impI)
  show "learns e ps F (bindP m f) (\<lambda>_. F)" if "lasting F" for F
    by (rule learns_bind [OF inertD [OF assms(1) that] inertD [OF assms(2) that]])
qed

lemma inert_call [inert_intros]:
  assumes "\<And>x. plain (ev x)" "plain failed"
  shows "inert e ps (call sel exc failed ev)"
proof -
  have "learns e ps F (call sel exc failed ev) (\<lambda>_. F)" if "lasting F" for F
  proof (rule learns_post)
    show "learns e ps F (call sel exc failed ev) (\<lambda>r l. F l \<and> ev r \<in> set l)"
      by (rule knows_call [OF that]) (rule assms)+
  qed simp
  then show ?thesis
    unfolding inert_def by blast
qed

lemma inert_env_value [inert_intros]: "inert e ps (env_value f)"
  by (simp add: inert_def valid_def env_value_def)

lemma inert_if [inert_intros]:
  "(b \<Longrightarrow> inert e ps m) \<Longrightarrow> (\<not> b \<Longrightarrow> inert e ps n) \<Longrightarrow> inert e ps (if b then m else n)"
  by simp

lemma inert_option [inert_intros]:
  "(x = None \<Longrightarrow> inert e ps m) \<Longrightarrow> (\<And>y. x = Some y \<Longrightarrow> inert e ps (f y)) \<Longrightarrow>
     inert e ps (case x of None \<Rightarrow> m | Some y \<Rightarrow> f y)"
  by (cases x) simp_all

lemma inert_parent_states [inert_intros]: "inert e ps (parent_states ts)"
  by (induction ts) (auto simp: k_get_task_def intro!: inert_intros)

lemma inert_admit [inert_intros]: "inert e ps (admit_workspace p sp dec ws cands)"
  unfolding admit_workspace_def Let_def by (intro inert_intros) simp_all

lemma execute_reserved_runs:
  assumes d: "rv_id res = d"
    and ws: "map_of (po_workspaces p) (ts_workspace_id sp) = Some ws"
    and cands: "map_of (po_routes p) (chosen_route dec) = Some cands"
  shows "runs e ps (fresh e ps d p task sp dec) (execute_reserved p task sp dec ws cands res)"
proof -
  have F: "lasting (fresh e ps d p task sp dec)" by (intro lasting_intros)
  have block: "keeps e ps (if x = WorktreeError then record_block res None else throw x)" for x
    by (intro keeps_intros)
  show ?thesis
    unfolding execute_reserved_def
  proof (rule runs_attempt [OF inertD [OF _ F]], goal_cases)
    case 1
    show ?case by (intro inert_intros) simp_all
  next
    case (2 u)
    show ?case
      unfolding sum.case
    proof (rule runs_bind [OF inertD [OF inert_parent_states F]], rule valid_if, goal_cases)
      case (1 deps)
      show ?case
        unfolding d by (intro abort_runs) (auto simp: fresh_def intro!: keeps_intros)
    next
      case (2 deps)
      show ?case
      proof (rule runs_bind [OF inertD [OF _ F]], goal_cases)
        case 1
        show ?case by (intro inert_intros) simp_all
      next
        case (2 anc)
        show ?case
        proof (rule valid_if, goal_cases)
          case 1
          show ?case by (intro runs_keeps keeps_intros)
        next
          case 2
          show ?case
          proof (rule runs_attempt [OF inertD [OF inert_admit F]], goal_cases)
            case (1 admitted)
            show ?case
              unfolding sum.case
              by (intro valid_if runs_keeps [OF keeps_record_block]
                  claim_and_submit_runs [OF d refl ws cands])
          next
            case (2 x)
            show ?case by (simp add: block)
          qed
        qed
      qed
    qed
  next
    case (3 x)
    show ?case by (simp add: block)
  qed
qed

text \<open>The reservation: no earlier receipt has its identity.\<close>

lemma reserve_learns:
  assumes p: "p \<in> set ps" and a: "authorises e p task sp dec g" and q: "q = exact_scope e p task sp dec"
  shows "learns e ps (\<lambda>_. True) (p_reserve q g) (\<lambda>r. fresh e ps (rv_id r) p task sp dec)"
  unfolding p_reserve_def
proof (rule knows_write)
  show "write_ok e ps l (OpReserve now (''d_'' @ tok) q g)" for l now tok
    using p a q by auto
  fix l now tok s r
  assume h: "history_ok l s" and r: "map_sum id fst (ds_reserve now (''d_'' @ tok) q g s) = Inr r"
  obtain s' where s': "ds_reserve now (''d_'' @ tok) q g s = Inr (r, s')"
    using r by (cases "ds_reserve now (''d_'' @ tok) q g s") auto
  have d: "rv_id r = ''d_'' @ tok"
    using ds_reserve_InrD(1) [OF s'] by (simp add: new_reservation_def)
  have runs: "ds_runs (OpReserve now (''d_'' @ tok) q g) s" using s' by simp
  have new: "\<not> has_row s (\<lambda>x. rv_id x = rv_id r)"
    using ds_reserve_InrD(3) [OF s'] by (auto simp: insert_conflicts_def)
  have "\<not> claimed_in (rv_id r) l" using history_okD(4) [OF h, of "rv_id r"] new by blast
  moreover have "\<not> submitted_in (rv_id r) l"
    using history_okD(3) [OF h, of "rv_id r"] new unfolding submitted_in_def sent_def by blast
  ultimately show "fresh e ps (rv_id r) p task sp dec
      (l @ [EvStore (OpReserve now (''d_'' @ tok) q g) (ds_runs (OpReserve now (''d_'' @ tok) q g) s)])"
    unfolding fresh_def dispatched_def
    using p a q d runs
    by (auto simp: claimed_in_snoc submitted_in_snoc reserved_in_snoc
        intro: latest_reserved_new)
qed

text \<open>A value of the environment is the one of the environment of the world.\<close>

lemma keeps_env_bind [keeps_intros]:
  "keeps e ps (m (f e)) \<Longrightarrow> keeps e ps (bindP (env_value f) m)"
  by (simp add: valid_def bindP_def env_value_def sound_def)

lemma keeps_execute:
  assumes p: "p \<in> set ps" and a: "authorises e p task sp dec g"
  shows "keeps e ps (execute p task sp dec g)"
  unfolding execute_def Let_def chosen_route_def [symmetric]
proof (rule keeps_option; (rule keeps_option)?; (rule keeps_sum)?; (rule keeps_fenced_block)?)
  fix cands ws m
  assume cands: "map_of (po_routes p) (chosen_route dec) = Some cands"
    and ws: "map_of (po_workspaces p) (ts_workspace_id sp) = Some ws"
  have step: "learns e ps (\<lambda>_. True)
      (p_reserve (scope_for task sp (en_spec_hash e sp) (en_policy_fp e p) (chosen_route dec)) g)
      (\<lambda>r. fresh e ps (rv_id r) p task sp dec)"
    by (rule reserve_learns [OF p a]) (simp add: exact_scope_def)
  show "keeps e ps (if effort_unpinned ws m then fenced_block (bt_id task)
     else bindP (env_value (\<lambda>e. en_spec_hash e sp)) (\<lambda>sh.
          bindP (env_value (\<lambda>e. en_policy_fp e p)) (\<lambda>fp.
          bindP (attemptP (p_reserve (scope_for task sp sh fp (chosen_route dec)) g)) (\<lambda>r. case r of
              Inl (StoreError (ReservationExists _ _)) \<Rightarrow> ret (card_result (bt_id task) OcSkipped)
            | Inl (StoreError (GrantMismatch _)) \<Rightarrow> ret (card_result (bt_id task) OcNeedsApproval)
            | Inl e \<Rightarrow> throw e
            | Inr res \<Rightarrow>
                catchP (execute_reserved p task sp dec ws cands res) (\<lambda>e.
                  if e = KernelError
                  then finish_with False res (bt_id task) None RvUnknown (receipt_result res OcUnknown)
                  else throw e)))))"
  proof (intro keeps_if keeps_fenced_block keeps_env_bind,
      rule runs_attempt [OF step, unfolded sound_knows], goal_cases)
    case (1 res)
    have "valid (knows e ps (fresh e ps (rv_id res) p task sp dec))
        (execute_reserved p task sp dec ws cands res) (\<lambda>_. sound e ps) (\<lambda>_. sound e ps)"
      by (rule execute_reserved_runs [OF refl ws cands])
    then show ?case
      unfolding sum.case by (rule valid_catch) (auto intro!: keeps_intros)
  next
    case (2 x)
    show ?case
      by (auto split: exn.split ds_error.split intro!: keeps_intros)
  qed
qed

lemma keeps_dispatch_card:
  assumes p: "p \<in> set ps"
  shows "keeps e ps (dispatch_card p task)"
  unfolding dispatch_card_def Let_def
proof (intro keeps_env_bind)
  let ?res = "resolve_spec (en_loads e) task (en_task_map e) (po_max_body p) (po_max_spec p)"
  let ?dec = "classify task ?res p"
  have run: "keeps e ps (execute p task sp ?dec g)"
    if "sr_spec ?res = Some sp"
      "jd_action ?dec = AcExecute \<and> g = None \<or> jd_action ?dec = AcNeedsApproval \<and> g \<noteq> None" for sp g
    by (rule keeps_execute [OF p]) (use that in \<open>simp add: authorises_def contract_of_def\<close>)
  show "keeps e ps (case jd_action ?dec of
         AcHold \<Rightarrow> ret (card_result (bt_id task) OcHold)
       | AcReplan \<Rightarrow> bindP (k_block (bt_id task) None (BrReplan (jd_reason ?dec))) (\<lambda>ok.
             ret (card_result (bt_id task) (if ok then OcReplan else OcHold)))
       | act \<Rightarrow>
           (case sr_spec ?res of
              None \<Rightarrow> throw Died
            | Some sp \<Rightarrow>
                if act = AcNeedsApproval
                then bindP (env_value (\<lambda>e. en_spec_hash e sp)) (\<lambda>sh.
                     bindP (env_value (\<lambda>e. en_policy_fp e p)) (\<lambda>fp.
                     bindP (p_find_grant (bt_id task) ''dispatch'' (jd_revision ?dec) sh fp) (\<lambda>g. case g of
                         Some a \<Rightarrow> execute p task sp ?dec (Some (ap_id a))
                       | None \<Rightarrow> gate_for_approval p task sp ?dec)))
                else execute p task sp ?dec None))"
    by (cases "jd_action ?dec"; cases "sr_spec ?res") (auto intro!: keeps_intros run)
qed

section \<open>A tick\<close>

lemma keeps_dispatch_cards: "p \<in> set ps \<Longrightarrow> keeps e ps (dispatch_cards p tasks n)"
  by (induction tasks arbitrary: n) (auto intro!: keeps_intros keeps_dispatch_card)

text \<open>The receipts a recovery starts from: a reserved one was not claimed.\<close>

definition unclaimed_reserved :: "reservation list \<Rightarrow> effect list \<Rightarrow> bool" where
  "unclaimed_reserved rs l \<longleftrightarrow> (\<forall>r\<in>set rs. rv_state r = RvReserved \<longrightarrow> \<not> claimed_in (rv_id r) l)"

lemma unclaimed_lasting [lasting_intros]: "lasting (unclaimed_reserved rs)"
  unfolding lasting_def unclaimed_reserved_def
  using lastingD [OF lasting_unclaimed] by blast

lemma unclaimed_now:
  assumes h: "history_ok l s"
  shows "unclaimed_reserved (list_live s) l"
  unfolding unclaimed_reserved_def
proof (intro ballI impI notI)
  fix r
  assume r: "r \<in> set (list_live s)" "rv_state r = RvReserved" "claimed_in (rv_id r) l"
  obtain r' where "r' \<in> set (ds_reservations s)" "rv_id r' = rv_id r" "rv_state r' \<noteq> RvReserved"
    using history_okD(4) [OF h r(3)] by blast
  moreover have "distinct (map rv_id (ds_reservations s))" "r \<in> set (ds_reservations s)"
    using history_okD(1) [OF h] r(1) by (auto simp: ledger_ok_def list_live_def)
  ultimately show False
    using r(2) by (metis distinct_map inj_on_contraD)
qed

lemma retried_transition:
  assumes F: "lasting F" and st: "st \<noteq> RvClaimed" and ok: "\<And>l. F l \<Longrightarrow> move_ok l d st nc"
  shows "learns e ps F (ignoring is_store_error (p_transition d st f nc)) (\<lambda>_. F)"
proof -
  have "valid (knows e ps F) (p_transition d st f nc) (\<lambda>_. knows e ps F)
      (\<lambda>x w. sound e ps w \<and> (is_store_error x \<longrightarrow> knows e ps F w))"
    unfolding p_transition_def
  proof (rule valid_ledger_write)
    fix w now tok
    assume w: "knows e ps F w"
    let ?op = "OpTransition now d st f nc"
    have "sound e ps (noted (ds_after ?op (foreignP w)) (EvStore ?op (ds_runs ?op (foreignP w))) w)"
      using w ok by (intro sound_write) (auto simp: knows_def)
    moreover have "F (w_log w @ [EvStore ?op (ds_runs ?op (foreignP w))])"
      using w st by (auto simp: knows_def intro: lastingD [OF F])
    ultimately have "knows e ps F (noted (ds_after ?op (foreignP w)) (EvStore ?op (ds_runs ?op (foreignP w))) w)"
      by (simp add: knows_def)
    then show "knows e ps F (noted (ds_after ?op (foreignP w)) (EvStore ?op (ds_runs ?op (foreignP w))) w)"
      and "sound e ps (noted (ds_after ?op (foreignP w)) (EvStore ?op (ds_runs ?op (foreignP w))) w)
        \<and> (is_store_error (StoreError x) \<longrightarrow>
            knows e ps F (noted (ds_after ?op (foreignP w)) (EvStore ?op (ds_runs ?op (foreignP w))) w))" for x
      by (simp_all add: knows_def)
  next
    fix w
    assume "knows e ps F w"
    then show "sound e ps (noted (foreignP w) EvRead w)
        \<and> (is_store_error Died \<longrightarrow> knows e ps F (noted (foreignP w) EvRead w))"
      by (simp add: knows_def sound_effect)
  qed
  then show ?thesis
    unfolding ignoring_def
    by (intro valid_catch [OF valid_bind])
      (auto intro!: valid_ret valid_if valid_throw)
qed

lemma recover_each_runs: "runs e ps (unclaimed_reserved rs) (recover_each rs)"
proof (induction rs)
  case Nil
  show ?case by (auto intro!: runs_keeps keeps_intros)
next
  case (Cons r rs)
  let ?F = "unclaimed_reserved (r # rs)"
  have F: "lasting ?F" by (intro lasting_intros)
  have block: "learns e ps ?F (k_block t run why) (\<lambda>_. ?F)" for t run why
    unfolding k_block_def by (rule learns_post [OF knows_call [OF F]]) auto
  have unknown: "learns e ps ?F (ignoring is_store_error (p_transition (rv_id r) RvUnknown no_fields False)) (\<lambda>_. ?F)"
    by (rule retried_transition [OF F]) (simp_all add: free_move)
  have abort: "learns e ps ?F (ignoring is_store_error (p_transition (rv_id r) RvAborted no_fields False)) (\<lambda>_. ?F)"
    if "rv_state r = RvReserved"
    by (rule retried_transition [OF F]) (use that in \<open>auto simp: move_ok_def unclaimed_reserved_def\<close>)
  show ?case
    unfolding recover_each.simps
  proof (rule runs_bind)
    show "learns e ps ?F
       (if rv_state r = RvUnknown then ret ()
        else if rv_state r = RvReserved
        then ignoring is_store_error (p_transition (rv_id r) RvAborted no_fields False)
        else bindP (ignoring is_store_error (p_transition (rv_id r) RvUnknown no_fields False)) (\<lambda>_.
             bindP (k_block (rv_task r) (rv_kernel_run r) (BrDispatch (rv_id r))) (\<lambda>_. ret ()))) (\<lambda>_. ?F)"
      by (intro valid_if learns_ret abort learns_bind [OF unknown] learns_bind [OF block])
    show "runs e ps ?F (recover_each rs)"
      by (rule runs_pre [OF Cons.IH]) (simp add: unclaimed_reserved_def)
  qed
qed

lemma keeps_recover_stale [keeps_intros]: "keeps e ps recover_stale"
proof -
  have "learns e ps (\<lambda>_. True) (ledger_read list_live) unclaimed_reserved"
    by (rule valid_conseq [OF knows_read [OF lasting_const [of True]]])
      (auto simp: knows_def unclaimed_now)
  then have "runs e ps (\<lambda>_. True) recover_stale"
    unfolding recover_stale_def by (rule runs_bind) (rule recover_each_runs)
  then show ?thesis by simp
qed

lemma keeps_dispatch_once: "p \<in> set ps \<Longrightarrow> keeps e ps (dispatch_once p)"
  unfolding dispatch_once_def by (auto intro!: keeps_intros keeps_dispatch_cards)

text \<open>Ticks one after another: each ends with a report, with an exception, or with the process.\<close>

fun ticks :: "policy list \<Rightarrow> world \<Rightarrow> world" where
  "ticks [] w = w"
| "ticks (p # ps) w = ticks ps (snd (dispatch_once p w))"

lemma ticks_sound: "set qs \<subseteq> set ps \<Longrightarrow> sound e ps w \<Longrightarrow> sound e ps (ticks qs w)"
proof (induction qs arbitrary: w)
  case Nil
  then show ?case by simp
next
  case (Cons p qs)
  have "keeps e ps (dispatch_once p)"
    using Cons.prems(1) by (intro keeps_dispatch_once) simp
  then have "sound e ps (snd (dispatch_once p w))"
    using Cons.prems(2) by (cases "dispatch_once p w"; cases "fst (dispatch_once p w)")
      (auto simp: valid_def)
  then show ?case using Cons by simp
qed

text \<open>Any ledger that keeps its indexes may be the first.\<close>

lemma sound_start: "ledger_ok (w_store w) \<Longrightarrow> w_log w = [] \<Longrightarrow> sound (w_env w) ps w"
  by (auto simp: sound_def history_ok_def effects_ok_def reserved_in_def sent_def claimed_in_def
      superseded_def)

lemma ticks_start:
  assumes "ledger_ok (w_store w)" "w_log w = []"
  shows "sound (w_env w) ps (ticks ps w)"
  using ticks_sound [OF subset_refl sound_start [OF assms]] .


end
