(* ===== verification/KanbanSample.thy ===== *)
theory KanbanSample
  imports KanbanDispatchRuns
begin

text \<open>A policy, a card and an environment on which the witnesses run whole ticks.\<close>

definition sample_revision :: string where
  "sample_revision = replicate 40 (CHR ''a'')"

definition sample_spec :: task_spec where
  "sample_spec = \<lparr>ts_task_id = ''t1'', ts_revision = ''1'', ts_role = Some RoWorker,
     ts_capability = Some ''code'', ts_tier = Some TiStandard, ts_work = None, ts_effort = HiAuto,
     ts_objective = ''o'', ts_inputs = [], ts_dependencies = [], ts_relevant_files = [],
     ts_allowed_scope = [''src/''], ts_artifacts = [],
     ts_verification = \<lparr>vs_argv = [''pytest''], vs_criteria = ''c''\<rparr>, ts_acceptance = [''a''],
     ts_prohibited = [], ts_base_revision = sample_revision, ts_workspace_id = ''w1'',
     ts_risk_flags = [], ts_replan_count = 0, ts_decomposition = None\<rparr>"

definition sample_task :: board_task where
  "sample_task = \<lparr>bt_id = ''t1'', bt_title = '''', bt_body = Some ''{}'', bt_assignee = Some ''jev'',
     bt_status = ''ready'', bt_priority = 0, bt_created_at = 0, bt_workspace_kind = ''scratch'',
     bt_workspace_path = None, bt_model_override = None, bt_provider_override = None,
     bt_reasoning_effort = None, bt_max_retries = None, bt_parents = []\<rparr>"

definition sample_backend :: backend where
  "sample_backend = \<lparr>bk_id = ''dev'', bk_kind = BkDevin, bk_transport = TrNative,
     bk_model = Some ''swe-2-max'', bk_preset = None, bk_driver = Some ''devin'', bk_enabled = True,
     bk_requires_canary = False, bk_capabilities = [(''code'', True)], bk_cost = CoLow,
     bk_effort_map = [], bk_disabled_reason = None\<rparr>"

definition sample_workspace :: workspace_entry where
  "sample_workspace = \<lparr>we_repo = ''/r'', we_worktree_root = None, we_wrapper_id = None,
     we_prepared = Some ''/r/w'', we_runner_config = Some ''/etc/r'', we_effort_pin = None,
     we_allow_ephemeral = False\<rparr>"

definition sample_policy :: policy where
  "sample_policy = \<lparr>po_version = ''1'', po_assignee = ''jev'', po_statuses = [''ready''],
     po_conf_body = 1, po_conf_map = 1, po_conf_none = 0, po_min_confidence = 1, po_max_cards = 5,
     po_max_body = 100, po_max_spec = 100, po_max_depth = 1, po_max_children = 1, po_replan_cap = 1,
     po_approval = \<lparr>ay_tiers = [], ay_risk_flags = [], ay_cost_tiers = [], ay_expiry = 60, ay_notify = None\<rparr>,
     po_dispatch = \<lparr>dc_claim_ttl = 60, dc_heartbeat = 10, dc_http_timeout = 10,
       dc_max_cards_per_tick = 1, dc_send_metadata = False\<rparr>,
     po_execution = Some \<lparr>et_mode = EmGateway, et_base_url = ''http://127.0.0.1:1/v1'', et_model = None,
       et_credential = None, et_control_url = None, et_control_credential = None,
       et_allow_installed = False\<rparr>,
     po_wrapper_base = None, po_node_prefix = ''jev'', po_assume_core_guard = True,
     po_target_names = [], po_operators = [''op''], po_operator_uids = None,
     po_verification = \<lparr>vy_executables = [(''pytest'', ''/bin/pytest'')], vy_commands = [[''pytest'']],
       vy_timeout = 1, vy_max_output = 10, vy_max_diff = 10\<rparr>,
     po_capabilities = [''code''], po_backends = [sample_backend],
     po_routes = [(''worker.code.standard'', [''dev''])],
     po_workspaces = [(''w1'', sample_workspace)]\<rparr>"

definition sample_run :: run_view where
  "sample_run = \<lparr>ru_run_id = Some ''r1'', ru_attempt = None, ru_status = Some ''completed'',
     ru_outcome = Some ''succeeded'', ru_task = Some ''t1'', ru_workspace = Some ''w1'',
     ru_execution = None, ru_preset = None, ru_synthetic = False\<rparr>"

text \<open>\<open>others\<close> are the control writes of other processes; everything else succeeds.\<close>

definition sample_env :: "(effect list \<Rightarrow> control_write list) \<Rightarrow> env" where
  "sample_env others = \<lparr>en_others = others, en_clock = (\<lambda>l. of_nat (length l)), en_token = (\<lambda>l. replicate (length l) (CHR ''x'')),
     en_spec_hash = (\<lambda>_. ''h''), en_policy_fp = (\<lambda>_. ''fp''),
     en_loads = (\<lambda>_. SpecObject (Some ''t1'') (Inr sample_spec)), en_task_map = (\<lambda>_. None),
     en_canon = (\<lambda>x. x), en_kill = (\<lambda>_. False), en_lock = (\<lambda>_. Ans True),
     en_scope = (\<lambda>_. Ans [sample_task]), en_get_task = (\<lambda>_. Ans None), en_block = (\<lambda>_. Ans True),
     en_unit = (\<lambda>_. Ans ()), en_claim = (\<lambda>_. Ans (True, Some 1)), en_review = (\<lambda>_. Ans True),
     en_reopen = (\<lambda>_. Ans True), en_submit = (\<lambda>_. Ans (Accepted ''r1'' sample_run)),
     en_repo = (\<lambda>_. Ans ''/r''), en_ancestors = (\<lambda>_. Ans (\<lambda>_. True)),
     en_prepared = (\<lambda>_. Ans \<lparr>wt_path = ''/r/w'', wt_branch = None\<rparr>),
     en_binding = (\<lambda>_. Ans \<lparr>rb_root = ''/r/w'', rb_presets = None, rb_models = None\<rparr>),
     en_worktree = (\<lambda>_. Ans \<lparr>wt_path = ''/r/w'', wt_branch = None\<rparr>),
     en_run = (\<lambda>_. Ans \<lparr>vr_ok = True, vr_exit = Some 0, vr_output = '''', vr_truncated = False,
       vr_timed_out = False\<rparr>),
     en_artifacts = (\<lambda>_. Ans ([], [])), en_changed = (\<lambda>_. Ans [''src/a'']),
     en_diff = (\<lambda>_. Ans ('''', '''', 0)), en_hashes = (\<lambda>_. Ans ([], False))\<rparr>"

definition sample_world :: "(effect list \<Rightarrow> control_write list) \<Rightarrow> world" where
  "sample_world others = \<lparr>w_env = sample_env others, w_store = empty_dstore, w_log = []\<rparr>"

end
