(* ===== verification/KanbanSampleRun.thy ===== *)
theory KanbanSampleRun
  imports KanbanSample
begin

text \<open>Two ticks of the sample: the card is dispatched, reviewed and dispatched again.\<close>

definition sample_end :: world where
  "sample_end = ticks [sample_policy, sample_policy] (sample_world (\<lambda>_. []))"

definition sample_sub :: chat_submission where
  "sample_sub = \<lparr>su_model = ''jev.worker.code.standard'', su_task = ''t1'', su_workspace = ''w1'',
     su_prompt = prompt_text sample_spec, su_execution = None\<rparr>"

definition sample_check :: "world \<Rightarrow> bool" where
  "sample_check w \<longleftrightarrow> length (w_log w) = 50
     \<and> w_log w ! 13 = EvSubmit ''d_xxxx'' sample_sub (Accepted ''r1'' sample_run)
     \<and> (case w_log w ! 38 of EvSubmit d sub rep \<Rightarrow> d \<noteq> ''d_xxxx'' \<and> su_task sub = ''t1'' | _ \<Rightarrow> False)
     \<and> w_log w ! 23 = EvReview ''t1'' ''d_xxxx'' (Some 1) True
     \<and> (case ds_reservations (w_store w) of r # rs \<Rightarrow> rv_id r = ''d_xxxx'' | _ \<Rightarrow> False)"

lemma sample_checked: "sample_check sample_end"
  by code_simp

lemma sample_report:
  "case dispatch_once sample_policy (sample_world (\<lambda>_. [])) of (Inr (Some outs), w) \<Rightarrow> True | _ \<Rightarrow> False"
  by code_simp

lemma sample_ledger_ok [simp]: "ledger_ok (w_store (sample_world others))" "w_log (sample_world others) = []"
  by (simp_all add: sample_world_def)

end
