(* ===== verification/KanbanClaims.thy ===== *)
theory KanbanClaims
  imports KanbanSampleRun
begin

text \<open>
  The properties of the Kanban dispatcher: what a decision to execute needs, what a submission and
  a review handoff need, that no attempt is replayed, and the bounds of a tick. They hold of every
  environment: whatever the wrapper, the board kernel and git reply, whatever the control commands
  write meanwhile, and wherever a tick dies.
\<close>

section \<open>Decisions\<close>

lemma gate_execute_iff:
  "fst (gate p t ti av conf) = AcExecute \<longleftrightarrow> ts_replan_count t \<le> po_replan_cap p
     \<and> ts_risk_flags t = [] \<and> ti \<notin> gated_tiers (po_approval p) \<and> av \<noteq> []
     \<and> (\<forall>b\<in>set av. bk_cost b \<notin> gated_cost_tiers (po_approval p)) \<and> po_min_confidence p \<le> conf"
proof -
  have "set (ts_risk_flags t) \<inter> gated_risk_flags (po_approval p) = {} \<longleftrightarrow> ts_risk_flags t = []"
  proof -
    have "set all_risks = UNIV" by auto
    then show ?thesis by (simp add: gated_risk_flags_def)
  qed
  then show ?thesis
    by (auto simp: gate_def Let_def filter_empty_conv)
qed

lemma contract_problem_None:
  "contract_problem p task t cap = None \<longleftrightarrow> cap \<in> set (po_capabilities p)
     \<and> map_of (po_workspaces p) (ts_workspace_id t) \<noteq> None
     \<and> set (ts_dependencies t) = set (bt_parents task)
     \<and> (\<forall>depth children. ts_decomposition t = Some (depth, children) \<longrightarrow>
          depth \<le> po_max_depth p \<and> children \<le> po_max_children p)"
  by (auto simp: contract_problem_def split: option.splits prod.splits)


section \<open>Routed effort\<close>

text \<open>
  C16. The effort a route resolves to is one its candidates accept: under a policy that passed
  validation every pair is an enabled candidate of the route with the capability, an API candidate
  gets one of the three wire values the wrapper knows, a Devin candidate gets none, and every
  available candidate has a pair.
\<close>

theorem routed_effort_is_verified:
  assumes ok: "policy_ok is_profile p" and m: "route_effort p cands cap h = Inr m"
  shows "(\<forall>(i, w)\<in>set m. \<exists>b\<in>set (po_backends p). bk_id b = i \<and> i \<in> set cands \<and> bk_enabled b
        \<and> map_of (bk_capabilities b) cap = Some True
        \<and> (bk_transport b = TrApi \<longrightarrow> w \<in> Some ` {''low'', ''high'', ''max''})
        \<and> (bk_kind b = BkDevin \<longrightarrow> w = None))
    \<and> map fst m = map bk_id (available_candidates p cands cap)"
proof (intro conjI ballI)
  show "map fst m = map bk_id (available_candidates p cands cap)"
    by (rule route_effort_InrD(1) [OF m])
  fix x
  assume "x \<in> set m"
  obtain i w where iw: "x = (i, w)" by force
  have x: "x = (i, w)" "(i, w) \<in> set m" using \<open>x \<in> set m\<close> iw by simp_all
  obtain b where b: "b \<in> set (available_candidates p cands cap)" "bk_id b = i" "effort_of h b = Some w"
    using route_effort_InrD(2) [OF m x(2)] by blast
  have av: "b \<in> set (po_backends p)" "bk_id b \<in> set cands" "available cap b"
    using available_candidateD [OF b(1)] by auto
  have "backend_ok b"
    using ok av(1) by (auto simp: policy_ok_def list_all_iff)
  then have wire: "\<forall>(h, w)\<in>set (bk_effort_map b). effort_wire_ok b w" and tr: "bk_transport b = kind_transport (bk_kind b)"
    by (auto simp: backend_ok_def effort_map_verified_def transport_matches_def)
  have w: "w = None \<and> bk_kind b = BkDevin \<or> effort_wire_ok b w"
    using b(3) wire by (auto simp: effort_of_def dest!: map_of_SomeD split: if_splits)
  show "case x of (i, w) \<Rightarrow> \<exists>b\<in>set (po_backends p). bk_id b = i \<and> i \<in> set cands \<and> bk_enabled b
      \<and> map_of (bk_capabilities b) cap = Some True
      \<and> (bk_transport b = TrApi \<longrightarrow> w \<in> Some ` {''low'', ''high'', ''max''})
      \<and> (bk_kind b = BkDevin \<longrightarrow> w = None)"
    using av b(2) w tr
    by (auto simp: x available_def effort_wire_ok_def api_effort_values_def split: if_splits
        intro!: bexI [of _ b])
qed

lemma sample_policy_ok: "policy_ok (\<lambda>_. False) sample_policy"
  by code_simp

theorem routed_effort_is_verified_witness:
  "map fst [(''dev'', None :: string option)]
     = map bk_id (available_candidates sample_policy [''dev''] ''code'')"
proof -
  have "route_effort sample_policy [''dev''] ''code'' HiAuto = Inr [(''dev'', None)]" by code_simp
  from routed_effort_is_verified [OF sample_policy_ok this] show ?thesis by blast
qed

section \<open>Combos and bindings\<close>

lemma members_of_ok_iff:
  "isOk (members_of prefix cap bs seen) \<longleftrightarrow>
     (\<forall>b\<in>set bs. member_eligibility b cap = None \<longrightarrow> isOk (member_model b))"
proof (induction prefix cap bs seen rule: members_of.induct)
  case (1 prefix cap seen)
  then show ?case by simp
next
  case (2 prefix cap b bs seen)
  show ?case
  proof (cases "member_eligibility b cap")
    case (Some r)
    then show ?thesis using 2(1) by simp
  next
    case None
    show ?thesis
    proof (cases "member_model b")
      case (Inl e)
      then show ?thesis using None by simp
    next
      case (Inr m)
      show ?thesis
      proof (cases "prefix @ ''/'' @ m \<in> set seen")
        case True
        then show ?thesis using 2(2) [of m] None Inr by (simp add: Let_def)
      next
        case False
        then show ?thesis using 2(3) [of m] None Inr
          by (cases "members_of prefix cap bs ((prefix @ ''/'' @ m) # seen)") (simp_all add: Let_def)
      qed
    qed
  qed
qed

lemma bindings_of_ok_iff:
  "bindings_of cap bs \<noteq> None \<longleftrightarrow>
     (\<forall>b\<in>set bs. member_eligibility b cap = None \<longrightarrow> isOk (member_model b) \<and> descriptor_for b \<noteq> None)"
  by (induction bs) (auto split: sum.split option.split)

lemma bindings_of_complete:
  "bindings_of cap bs = Some m \<Longrightarrow> b \<in> set bs \<Longrightarrow> member_eligibility b cap = None \<Longrightarrow>
     member_model b = Inr x \<Longrightarrow> x \<in> fst ` set m"
proof (induction bs arbitrary: m)
  case Nil
  then show ?case by simp
next
  case (Cons c bs)
  then show ?case
    by (force split: if_splits sum.splits option.splits)
qed

lemma contract_cases:
  "contract_for b = Some con \<Longrightarrow> (\<exists>pins kp. con = PinnedPresets [BkBai, BkCommandCode] pins kp)
     \<or> (\<exists>ms. con = PinnedModels [BkDevin] ms)"
  by (cases "bk_driver b") (auto simp: contract_for_def driver_contracts_def split: if_splits)

lemma descriptor_of_member:
  assumes b: "backend_ok b" and m: "member_model b = Inr m"
  shows "descriptor_for b \<noteq> None"
proof -
  obtain con where con: "contract_for b = Some con" and kind: "bk_kind b \<in> set (contract_kinds con)"
    using m by (auto simp: member_model_def split: option.splits if_splits)
  from contract_cases [OF con] show ?thesis
  proof
    assume "\<exists>pins kp. con = PinnedPresets [BkBai, BkCommandCode] pins kp"
    then obtain pins kp where c: "con = PinnedPresets [BkBai, BkCommandCode] pins kp" by blast
    then have "bk_transport b = TrApi"
      using kind b by (auto simp: backend_ok_def transport_matches_def)
    then obtain ch cs where "bk_preset b = Some (ch # cs)"
      using b by (auto simp: backend_ok_def api_wired_def neq_Nil_conv)
    then show ?thesis
      using m con c
      by (auto simp: member_model_def descriptor_for_def or_else_def split: option.splits if_splits)
  next
    assume "\<exists>ms. con = PinnedModels [BkDevin] ms"
    then show ?thesis
      using m con
      by (auto simp: member_model_def descriptor_for_def split: option.splits if_splits)
  qed
qed

text \<open>
  C15. The compiler and the dispatcher agree on what serves a route: under a policy that passed
  validation, the combo of a route compiles exactly when the dispatcher can bind the candidates of
  that route, and the members of the combo are then the models the dispatcher requires of the
  Runner's binding, each once, under the prefix of the node.
\<close>

theorem combos_match_bindings:
  assumes ok: "policy_ok is_profile p"
  shows "case (compile_route p (k, cands), candidate_bindings p cands (route_capability k)) of
      (Inr cb, Some bs) \<Rightarrow> distinct (cb_models cb)
        \<and> set (cb_models cb) = (\<lambda>(m, d). po_node_prefix p @ ''/'' @ m) ` set bs
        \<and> (cb_held cb \<longleftrightarrow> bs = [])
    | (Inl e, None) \<Rightarrow> True
    | _ \<Rightarrow> False"
proof -
  let ?cap = "route_capability k" and ?bs = "List.map_filter (backend_map p) cands"
  let ?ms = "members_of (po_node_prefix p) ?cap ?bs []" and ?bd = "bindings_of ?cap ?bs"
  have bok: "backend_ok b" if "b \<in> set ?bs" for b
    using that ok
    by (auto simp: policy_ok_def list_all_iff map_filter_def backend_map_def
        dest: dict_by_SomeD split: option.splits)
  have agree: "isOk ?ms \<longleftrightarrow> ?bd \<noteq> None"
    unfolding members_of_ok_iff bindings_of_ok_iff
    using bok descriptor_of_member by (metis isOk_iff)
  show ?thesis
  proof (cases ?ms)
    case (Inl e)
    then have "?bd = None" using agree by simp
    then show ?thesis
      using Inl by (simp add: compile_route_def candidate_bindings_def Let_def)
  next
    case (Inr ms)
    then obtain bs where bs: "?bd = Some bs" using agree by auto
    have "set ms = (\<lambda>(m, d). po_node_prefix p @ ''/'' @ m) ` set bs"
    proof (intro subset_antisym subsetI)
      fix x
      assume "x \<in> set ms"
      then obtain b m where "b \<in> set ?bs" "member_eligibility b ?cap = None" "member_model b = Inr m"
        "x = po_node_prefix p @ ''/'' @ m"
        using members_of_InrD(3) [OF Inr] by blast
      then show "x \<in> (\<lambda>(m, d). po_node_prefix p @ ''/'' @ m) ` set bs"
        using bindings_of_complete [OF bs, of b m] by force
    next
      fix x
      assume "x \<in> (\<lambda>(m, d). po_node_prefix p @ ''/'' @ m) ` set bs"
      then obtain m d where md: "(m, d) \<in> set bs" "x = po_node_prefix p @ ''/'' @ m" by auto
      obtain b where "b \<in> set ?bs" "member_eligibility b ?cap = None" "member_model b = Inr m"
        using bindings_of_SomeD [OF bs md(1)] by blast
      then show "x \<in> set ms"
        using members_of_InrD(4) [OF Inr, of b] md(2) by auto
    qed
    then show ?thesis
      using Inr bs members_of_InrD(1) [OF Inr]
      by (auto simp: compile_route_def candidate_bindings_def Let_def)
  qed
qed

theorem combos_match_bindings_witness:
  "case (compile_route sample_policy (''worker.code.standard'', [''dev'']),
      candidate_bindings sample_policy [''dev''] (route_capability ''worker.code.standard'')) of
      (Inr cb, Some bs) \<Rightarrow> distinct (cb_models cb)
        \<and> set (cb_models cb) = (\<lambda>(m, d). po_node_prefix sample_policy @ ''/'' @ m) ` set bs
        \<and> (cb_held cb \<longleftrightarrow> bs = [])
    | (Inl e, None) \<Rightarrow> True
    | _ \<Rightarrow> False"
  by (rule combos_match_bindings [OF sample_policy_ok])

section \<open>Submissions\<close>

text \<open>
  C5. Every request to the wrapper is a sanctioned dispatch, and the only one of its receipt: in
  any sequence of ticks from a ledger that keeps its indexes, each submission comes after a
  reservation of its receipt for the exact scope the classifier resolved, without approval only
  where it decided to execute and otherwise by burning a grant, after the retry cap, the kernel's
  claim and the receipt's own claim were recorded, and with the card, prompt, model, workspace and
  metadata of that contract. No second submission of the receipt occurs, before or after.
\<close>

theorem submissions_are_sanctioned:
  assumes start: "ledger_ok (w_store w)" "w_log w = []"
    and i: "i < length (w_log (ticks ps w))" "w_log (ticks ps w) ! i = EvSubmit d sub rep"
  shows "(\<exists>p\<in>set ps. \<exists>task sp dec g now run. authorises (w_env w) p task sp dec g
        \<and> EvStore (OpReserve now d (exact_scope (w_env w) p task sp dec) g) True
            \<in> set (take i (w_log (ticks ps w)))
        \<and> EvMaxRetries (bt_id task) \<in> set (take i (w_log (ticks ps w)))
        \<and> EvClaim (bt_id task) d True run \<in> set (take i (w_log (ticks ps w)))
        \<and> faithful_submission p task sp dec sub)
    \<and> claimed_in d (take i (w_log (ticks ps w)))
    \<and> (\<forall>j<length (w_log (ticks ps w)). \<forall>sub' rep'.
         w_log (ticks ps w) ! j = EvSubmit d sub' rep' \<longrightarrow> j = i)"
proof -
  let ?l = "w_log (ticks ps w)"
  have "effects_ok (w_env w) ps ?l"
    using ticks_start [OF start] by (simp add: sound_def)
  then have ok: "submit_ok (w_env w) ps (take k ?l) d sub'"
    if "k < length ?l" "?l ! k = EvSubmit d sub' rep'" for k sub' rep'
    using that by (auto simp: effects_ok_def dest!: spec [of _ k])
  have once: False
    if "k < n" "n < length ?l" "?l ! k = EvSubmit d s1 r1" "?l ! n = EvSubmit d s2 r2" for k n s1 s2 r1 r2
  proof -
    have "submitted_in d (take n ?l)"
      using that by (auto simp: submitted_in_def in_set_conv_nth intro!: exI [of _ s1] exI [of _ r1] exI [of _ k])
    then show False using ok [OF that(2,4)] by (simp add: submit_ok_def)
  qed
  have "\<exists>p\<in>set ps. \<exists>task sp dec g now run. authorises (w_env w) p task sp dec g
      \<and> EvStore (OpReserve now d (exact_scope (w_env w) p task sp dec) g) True \<in> set (take i ?l)
      \<and> EvMaxRetries (bt_id task) \<in> set (take i ?l)
      \<and> EvClaim (bt_id task) d True run \<in> set (take i ?l)
      \<and> faithful_submission p task sp dec sub"
    using ok [OF i] unfolding submit_ok_def dispatched_def reserved_in_def by blast
  moreover have "claimed_in d (take i ?l)"
    using ok [OF i] by (simp add: submit_ok_def)
  ultimately show ?thesis
    using once i by (metis linorder_neqE_nat)
qed

lemma sample_submitted:
  "13 < length (w_log sample_end)"
  "w_log sample_end ! 13 = EvSubmit ''d_xxxx'' sample_sub (Accepted ''r1'' sample_run)"
  using sample_checked by (simp_all add: sample_check_def)

theorem submissions_are_sanctioned_witness:
  "claimed_in ''d_xxxx'' (take 13 (w_log sample_end))"
  using submissions_are_sanctioned [of "sample_world (\<lambda>_. [])" 13 "[sample_policy, sample_policy]",
      folded sample_end_def, OF sample_ledger_ok sample_submitted] by blast

section \<open>Review\<close>

text \<open>
  C7. A card reaches review only with verified work: when the kernel accepts a handoff, or the
  ledger the state \<^verbatim>\<open>review\<close> from the dispatcher, the receipt was submitted for this card under a
  decision of the classifier, the reply showed a completed and succeeded run of the same card,
  workspace and revision, no cancel had been requested when the receipt entered \<^verbatim>\<open>completing\<close>, the
  verification command is on the operator's allowlist and passed, no declared artifact is missing,
  every changed file is inside the declared scope, the artifacts were hashed and the evidence was
  recorded.
\<close>

theorem review_needs_verified_work:
  assumes start: "ledger_ok (w_store w)" "w_log w = []"
    and i: "i < length (w_log (ticks ps w))"
      "w_log (ticks ps w) ! i = EvReview t d run True
       \<or> w_log (ticks ps w) ! i = EvStore (OpTransition now d RvReview f nc) ok"
  shows "\<exists>t k p task sp dec. k \<le> i \<and> dispatched (w_env w) ps (take k (w_log (ticks ps w))) d p task sp dec
    \<and> t = bt_id task \<and> succeeded_run (take k (w_log (ticks ps w))) d t
    \<and> completing_in d (take k (w_log (ticks ps w)))
    \<and> verified_work p sp (take k (w_log (ticks ps w))) d"
proof -
  let ?l = "w_log (ticks ps w)"
  have all: "effect_ok (w_env w) ps (take k ?l) (?l ! k)" if "k < length ?l" for k
    using ticks_start [OF start] that by (auto simp: sound_def effects_ok_def)
  have handoff: "\<exists>p task sp dec. dispatched (w_env w) ps (take k ?l) d p task sp dec
      \<and> t' = bt_id task \<and> succeeded_run (take k ?l) d t' \<and> completing_in d (take k ?l)
      \<and> verified_work p sp (take k ?l) d"
    if "k < length ?l" "?l ! k = EvReview t' d run' True" for k t' run'
    using all [OF that(1)] that(2) by (auto simp: review_ok_def)
  from i(2) show ?thesis
  proof
    assume "?l ! i = EvReview t d run True"
    then show ?thesis using handoff [OF i(1)] by blast
  next
    assume "?l ! i = EvStore (OpTransition now d RvReview f nc) ok"
    then obtain t' run' where "EvReview t' d run' True \<in> set (take i ?l)"
      using all [OF i(1)] by (auto simp: move_ok_def)
    then obtain k where "k < i" "k < length ?l" "?l ! k = EvReview t' d run' True"
      by (auto simp: in_set_conv_nth)
    then show ?thesis using handoff [of k t' run'] less_imp_le by blast
  qed
qed

theorem review_needs_verified_work_witness:
  "\<exists>k p sp. k \<le> 23 \<and> verified_work p sp (take k (w_log sample_end)) ''d_xxxx''"
proof -
  have "23 < length (w_log sample_end)" "w_log sample_end ! 23 = EvReview ''t1'' ''d_xxxx'' (Some 1) True"
    using sample_checked by (simp_all add: sample_check_def)
  then show ?thesis
    using review_needs_verified_work [of "sample_world (\<lambda>_. [])" 23 "[sample_policy, sample_policy]"
        "''t1''" "''d_xxxx''" "Some 1", folded sample_end_def, OF sample_ledger_ok] by blast
qed

section \<open>No replay\<close>

definition reserves :: "effect \<Rightarrow> bool" where
  "reserves ev \<longleftrightarrow> (\<exists>now d q g. ev = EvStore (OpReserve now d q g) True)"

lemma latest_reservedD:
  assumes "latest_reserved d q (take i l)"
  obtains k now g where "k < i" "k < length l" "l ! k = EvStore (OpReserve now d q g) True"
    "\<And>n. k < n \<Longrightarrow> n < i \<Longrightarrow> n < length l \<Longrightarrow> \<not> reserves (l ! n)"
proof -
  obtain a b now g where l: "take i l = a @ EvStore (OpReserve now d q g) True # b"
    and last: "\<And>d q g. \<not> reserved_in d q g b"
    using assms by (auto simp: latest_reserved_def)
  have len: "length a < length (take i l)" unfolding l by simp
  have k: "l ! length a = take i l ! length a" using len by simp
  have "l ! length a = EvStore (OpReserve now d q g) True" unfolding k l by simp
  moreover have "\<not> reserves (l ! n)" if n: "length a < n" "n < i" "n < length l" for n
  proof -
    have "l ! n = take i l ! n" using n by simp
    also have "\<dots> = b ! (n - Suc (length a))"
      unfolding l using n(1) by (simp add: nth_append nth_Cons')
    finally have "l ! n = b ! (n - Suc (length a))" .
    moreover have "n - Suc (length a) < length b"
      using arg_cong [OF l, of length] n by auto
    ultimately have "l ! n \<in> set b" by simp
    then show ?thesis using last by (auto simp: reserves_def reserved_in_def)
  qed
  ultimately show thesis using that len by auto
qed

lemma latest_in_order:
  assumes "latest_reserved d q (take i l)" "latest_reserved d' q' (take j l)" "i < j" "d \<noteq> d'"
  shows "\<exists>k. i \<le> k \<and> k < j \<and> k < length l \<and> (\<exists>now g. l ! k = EvStore (OpReserve now d' q' g) True)"
proof -
  obtain k0 now0 g0 where k0: "k0 < i" "k0 < length l" "l ! k0 = EvStore (OpReserve now0 d q g0) True"
    and last0: "\<And>n. k0 < n \<Longrightarrow> n < i \<Longrightarrow> n < length l \<Longrightarrow> \<not> reserves (l ! n)"
    using latest_reservedD [OF assms(1)] by metis
  obtain k now g where k: "k < j" "k < length l" "l ! k = EvStore (OpReserve now d' q' g) True"
    and last: "\<And>n. k < n \<Longrightarrow> n < j \<Longrightarrow> n < length l \<Longrightarrow> \<not> reserves (l ! n)"
    using latest_reservedD [OF assms(2)] by metis
  have "reserves (l ! k)" "reserves (l ! k0)" using k k0 by (auto simp: reserves_def)
  moreover have "k \<noteq> k0" using k k0 assms(4) by auto
  ultimately have "i \<le> k"
    using last0 [of k] last [of k0] k(2) k0(1,2) assms(3) by (metis less_trans linorder_neqE_nat not_le)
  then show ?thesis using k by blast
qed

text \<open>
  C6. No attempt is replayed, whatever is lost. A receipt in the state \<^verbatim>\<open>aborted\<close>, the only one that
  releases a card without an end of its run, was never submitted, so recovery after a crash frees
  only what was certainly not sent. And when two submissions are of the same card, the receipt of
  the first was closed before the second was reserved: it is in review, blocked, cancelled or
  failed, and never live, unknown or aborted.
\<close>

theorem no_replay:
  assumes start: "ledger_ok (w_store w)" "w_log w = []"
    and r: "r \<in> set (ds_reservations (w_store (ticks ps w)))"
    and i: "i < length (w_log (ticks ps w))" "w_log (ticks ps w) ! i = EvSubmit (rv_id r) sub rep"
  shows "rv_state r \<noteq> RvAborted \<and> rv_state r \<noteq> RvReserved \<and> rv_task r = su_task sub
    \<and> (\<forall>j d' sub' rep'. i < j \<and> j < length (w_log (ticks ps w))
          \<and> w_log (ticks ps w) ! j = EvSubmit d' sub' rep' \<and> su_task sub' = su_task sub \<longrightarrow>
        d' \<noteq> rv_id r \<and> rv_state r \<in> {RvReview, RvBlocked, RvCancelled, RvFailed})"
proof -
  let ?l = "w_log (ticks ps w)" and ?s = "w_store (ticks ps w)" and ?d = "rv_id r"
  have h: "history_ok ?l ?s" and "effects_ok (w_env w) ps ?l"
    using ticks_start [OF start] by (simp_all add: sound_def)
  then have ok: "submit_ok (w_env w) ps (take k ?l) d sub'"
    if "k < length ?l" "?l ! k = EvSubmit d sub' rep'" for k d sub' rep'
    using that by (auto simp: effects_ok_def dest!: spec [of _ k])
  have only: "x = r" if "x \<in> set (ds_reservations ?s)" "rv_id x = ?d" for x
    using that r history_okD(1) [OF h] by (auto simp: ledger_ok_def distinct_map dest: inj_onD)
  have "claimed_in ?d ?l"
    using ok [OF i] set_take_subset [of i ?l] by (auto simp: submit_ok_def claimed_in_def)
  then have 1: "rv_state r \<noteq> RvAborted \<and> rv_state r \<noteq> RvReserved"
    using history_okD(4) [OF h] only by blast
  have mem: "EvSubmit ?d sub rep \<in> set ?l" using i nth_mem by metis
  then have "sent ?d (su_task sub) ?l" unfolding sent_def by blast
  then have 2: "rv_task r = su_task sub"
    using history_okD(3) [OF h] only by blast
  have "d' \<noteq> ?d \<and> rv_state r \<in> {RvReview, RvBlocked, RvCancelled, RvFailed}"
    if j: "i < j" "j < length ?l" "?l ! j = EvSubmit d' sub' rep'" "su_task sub' = su_task sub" for j d' sub' rep'
  proof -
    have "?l ! i \<in> set (take j ?l)" using j(1) i(1) by (auto simp: in_set_conv_nth)
    then have ne: "d' \<noteq> ?d"
      using ok [OF j(2,3)] i(2) by (auto simp: submit_ok_def submitted_in_def)
    obtain q where q: "latest_reserved ?d q (take i ?l)"
      using ok [OF i] unfolding submit_ok_def by blast
    obtain q' where q': "latest_reserved d' q' (take j ?l)" "sc_task q' = su_task sub"
      using ok [OF j(2,3)] j(4)
      by (auto simp: submit_ok_def faithful_submission_def exact_scope_def scope_for_def)
    obtain k now g where k: "i \<le> k" "k < length ?l" "?l ! k = EvStore (OpReserve now d' q' g) True"
      using latest_in_order [OF q q'(1) j(1)] ne by blast
    have "i \<noteq> k" using k i by auto
    have "?l = take k ?l @ drop k ?l" by simp
    moreover have "?l ! i \<in> set (take k ?l)"
      using k(1) \<open>i \<noteq> k\<close> i(1) by (auto simp: in_set_conv_nth)
    then have "sent ?d (su_task sub) (take k ?l)" using i(2) unfolding sent_def by metis
    moreover have "?l ! k \<in> set (drop k ?l)"
      using k(2) by (metis Cons_nth_drop_Suc list.set_intros(1))
    then have "reserved_in d' q' g (drop k ?l)" using k(3) by (auto simp: reserved_in_def)
    ultimately have "superseded ?d (su_task sub) ?l"
      using q'(2) unfolding superseded_def by blast
    then have "\<not> rv_blocks r"
      using history_okD(5) [OF h] only by blast
    then show ?thesis
      using 1 ne by (cases "rv_state r") (simp_all add: rv_state_sets)
  qed
  then show ?thesis using 1 2 by blast
qed

theorem no_replay_witness:
  "\<exists>r\<in>set (ds_reservations (w_store sample_end)). rv_id r = ''d_xxxx''
     \<and> rv_state r \<in> {RvReview, RvBlocked, RvCancelled, RvFailed}"
proof -
  obtain r where r: "r \<in> set (ds_reservations (w_store sample_end))" "rv_id r = ''d_xxxx''"
    using sample_checked by (auto simp: sample_check_def split: list.splits)
  obtain d sub rep where j: "w_log sample_end ! 38 = EvSubmit d sub rep" "su_task sub = ''t1''"
    using sample_checked by (auto simp: sample_check_def split: effect.splits)
  have len: "38 < length (w_log sample_end)" using sample_checked by (simp add: sample_check_def)
  have t: "su_task sub = su_task sample_sub" using j(2) by (simp add: sample_sub_def)
  have first: "w_log sample_end ! 13 = EvSubmit (rv_id r) sample_sub (Accepted ''r1'' sample_run)"
    using sample_submitted(2) r(2) by simp
  have "rv_state r \<in> {RvReview, RvBlocked, RvCancelled, RvFailed}"
    using no_replay [of "sample_world (\<lambda>_. [])" r "[sample_policy, sample_policy]" 13 sample_sub,
        folded sample_end_def, OF sample_ledger_ok r(1) sample_submitted(1) first,
        THEN conjunct2, THEN conjunct2, THEN conjunct2, rule_format, of 38 d sub rep] len j(1) t by simp
  then show ?thesis using r by blast
qed

section \<open>Bounds of a tick\<close>

lemma dispatch_cards_bound:
  "dispatch_cards p tasks n w = (Inr outs, w') \<Longrightarrow>
     length outs \<le> length tasks
     \<and> (n \<le> dc_max_cards_per_tick (po_dispatch p) \<longrightarrow>
          n + length (filter co_dispatched outs) \<le> dc_max_cards_per_tick (po_dispatch p))"
proof (induction tasks arbitrary: n w outs)
  case Nil
  then show ?case by (simp add: ret_def)
next
  case (Cons task rest)
  show ?case
  proof (cases "dc_max_cards_per_tick (po_dispatch p) \<le> n")
    case True
    then show ?thesis using Cons.prems by (auto simp: ret_def)
  next
    case False
    then obtain out outs' w1 where o: "outs = out # outs'"
      "dispatch_cards p rest (if co_dispatched out then Suc n else n) w1 = (Inr outs', w')"
      using Cons.prems by (auto simp: bindP_def ret_def split: sum.splits prod.splits)
    then show ?thesis
      using Cons.IH [OF o(2)] False by (auto split: if_splits)
  qed
qed



end
