(* ===== verification/Spec2Isabelle.thy ===== *)
theory Spec2Isabelle
  imports CatalogClaims ControllerClaims ControllerOutcomes LogClaims RunnerClaims
    KanbanLedgerClaims KanbanClaims
begin

text \<open>
  A verification development of the CLI provider API: an HTTP service that runs prompts on
  command-line agents. Requests name a public model alias; the service resolves it against the
  operator's configuration and the catalogs the Runner processes report, reserves an attempt of a
  logical task in a durable store, dispatches it to a Runner over a socket and records the events
  and the result. Its central promise is that a logical task is never executed twice: once an
  execution may have had an effect, no retry is admitted. Beside the API a Kanban dispatcher sends
  the ready cards of a board through the same wrapper, one verified worktree per card.

  \<^bold>\<open>Parts and theories.\<close>
  \<^item> \<^verbatim>\<open>Prelude\<close>, \<^verbatim>\<open>Ledger\<close>: results as sums, dictionaries, searches, counting; the contracts of a
    ledger with a partial unique index and of an invariant under a step relation, as locales.
  \<^item> \<^verbatim>\<open>PyText\<close>, \<^verbatim>\<open>Sdk\<close> (\<^verbatim>\<open>cli_provider_sdk/models.py\<close>, \<^verbatim>\<open>core/ids.py\<close>): name grammars, descriptors,
    events and results with their validators, effort resolution.
  \<^item> \<^verbatim>\<open>OpConfig\<close> (\<^verbatim>\<open>core/config.py\<close>): the operator's configuration and its cross references.
  \<^item> \<^verbatim>\<open>CoreStore\<close>, \<^verbatim>\<open>StoreProps\<close> (\<^verbatim>\<open>core/store.py\<close>, \<^verbatim>\<open>core/models.py\<close>): the SQLite tables as lists in
    rowid order, every statement as a function, and the invariant \<open>store_ok\<close> they all keep.
  \<^item> \<^verbatim>\<open>Errors\<close> (\<^verbatim>\<open>core/errors.py\<close>): the public error taxonomy.
  \<^item> \<^verbatim>\<open>Registry\<close>, \<^verbatim>\<open>RegistryProps\<close> (\<^verbatim>\<open>core/registry.py\<close>): verification passes over what the Runners
    reply, freshness and scoping; \<open>registry_ok\<close> ties every health record to its evidence.
  \<^item> \<^verbatim>\<open>Catalog\<close>, \<^verbatim>\<open>CatalogProps\<close>, \<^verbatim>\<open>CatalogClaims\<close> (\<^verbatim>\<open>core/catalog.py\<close>): grants, alias and effort
    resolution, refresh scopes, listings.
  \<^item> \<^verbatim>\<open>Controller\<close> (\<^verbatim>\<open>core/controller.py\<close>, \<^verbatim>\<open>core/hashing.py\<close>): every coroutine cut at its awaits; a
    definition is what runs between two of them, and \<open>ctl_step\<close> in \<^verbatim>\<open>ControllerSteps\<close> lets the
    segments of all runs, cancels and restarts interleave. \<^verbatim>\<open>ControllerInv\<close> has the invariant
    \<open>core_ok\<close> between the in-process state and the store, \<^verbatim>\<open>ControllerHistory\<close> how one segment may
    change an attempt, \<^verbatim>\<open>ControllerLoad\<close> the counters and slots, \<^verbatim>\<open>ControllerLog\<close> the event log.
    \<^verbatim>\<open>ControllerClaims\<close>, \<^verbatim>\<open>ControllerOutcomes\<close> and \<^verbatim>\<open>LogClaims\<close> hold the properties.
  \<^item> \<^verbatim>\<open>Ndjson\<close> (\<^verbatim>\<open>cli_provider_transports/ndjson.py\<close>): frames as bytes, the incremental reader over
    the chunks of a stream, its bounds, and the round trip of a stream of messages.
  \<^item> \<^verbatim>\<open>ExecConfig\<close> (\<^verbatim>\<open>apps/runner execution_config.py\<close>): workspace bindings, path confinement, the
    checks of the trusted file.
  \<^item> \<^verbatim>\<open>RunnerServer\<close> (\<^verbatim>\<open>apps/runner registry.py, protocol.py, server.py\<close>): the process that hosts a
    driver, cut at its awaits like the controller. \<open>server_step\<close> in \<^verbatim>\<open>RunnerServerInv\<close> interleaves the
    requests, the driver and the shutdown; \<open>slot_ok\<close> there ties the semaphore, its line and the
    queue counter to the runs. \<^verbatim>\<open>RunnerServerWire\<close> has, for every request id, the invariant between
    the frames written and the run behind them.
  \<^item> \<^verbatim>\<open>RunnerSession\<close> (\<^verbatim>\<open>core/runner.py\<close>, \<^verbatim>\<open>client.py\<close>): what the core makes of the frames it receives.
    \<^verbatim>\<open>RunnerClaims\<close> holds the properties of the process and of the process and the session together.
  \<^item> \<^verbatim>\<open>KanbanStore\<close>, \<^verbatim>\<open>KanbanStoreProps\<close>, \<^verbatim>\<open>KanbanLedgerClaims\<close> (\<^verbatim>\<open>kanban/store.py\<close>): the receipt
    ledger and the approvals, what any sequence of operations of any process can do to a row, and
    the properties of the ledger.
  \<^item> \<^verbatim>\<open>KanbanPolicy\<close>, \<^verbatim>\<open>KanbanClassifier\<close>, \<^verbatim>\<open>KanbanCompiler\<close>, \<^verbatim>\<open>KanbanChecks\<close> (\<^verbatim>\<open>kanban/models.py,
    policy.py, spec.py, classifier.py, compiler.py, worktree.py\<close>): the card contract, the routing
    policy with its validators, the decision, the combos of a route, and the checks of scope,
    verification command, dependencies and workspace binding.
  \<^item> \<^verbatim>\<open>KanbanEffects\<close>, \<^verbatim>\<open>KanbanDispatch\<close> (\<^verbatim>\<open>kanban/dispatch.py\<close>): the dispatcher as programs over the
    ledger, with exceptions, against an environment that answers every call and writes to the
    ledger in between; the log of the actions is part of the world. \<^verbatim>\<open>KanbanDispatchInv\<close> states what
    each action presupposes and the invariant between log and ledger, \<^verbatim>\<open>KanbanDispatchRuns\<close> proves
    them for every function, \<^verbatim>\<open>KanbanClaims\<close> has the properties.
  \<^item> \<^verbatim>\<open>Samples\<close>, \<^verbatim>\<open>Schedules\<close>, \<^verbatim>\<open>KanbanSample\<close>, \<^verbatim>\<open>KanbanSampleRun\<close>: one deployment and concrete runs on which the hypotheses of the
    properties are shown to hold.

  \<^bold>\<open>How the model corresponds to the code.\<close> A dataclass or pydantic model is a record, an enum a
  datatype, an exception the left value of a sum. Clock readings, fresh identifiers, the replies
  of a Runner and the digest of the canonical request are arguments. Python strings are character
  lists; the character type has the code points below 256. A segment that raises keeps the changes
  made before the exception, as the code does. The session of a Runner is a parameter whose one
  assumption is \<open>session_contract\<close>: a refusal is marked pre-execution only while no event of the
  run has been delivered; \<open>session_run_refusal\<close> in \<^verbatim>\<open>RunnerSession\<close> shows it of the session of the
  code. The driver behind the Runner process is a parameter too: its events, which are
  schema-valid because the SDK's models check themselves, how its stream ends, and the outcome of
  its cancel call.

  \<^bold>\<open>What is shown.\<close> Retry safety, quarantine after unknown executions, forward-only attempts,
  bounded load, the append-only bounded log, truthful cancels, settled restarts, ownership, and for
  resolution: authority of every resolved model, no effort hop without a grant, listings that
  agree with resolution, no discovery without a grant. Of the Runner process: one run at a time,
  only bound workspaces, well-formed streams; with the session: every stream is accepted, and a
  refusal the core counts as without effect means that the driver was never called. Of the Kanban
  dispatcher, over any number of ticks, crashes and concurrent control commands: one live receipt
  per card and workspace, an approval that pays once, submissions that are sanctioned and unique,
  no replay, review only of verified work, bounds of a tick; of the classifier: exactly when a card
  may execute, verified efforts, and a compiler that agrees with the dispatcher. Four
  properties exhibit reachable states in which the code does not do what it means to: a
  quarantine lost to a second unknown run, execution slots lost when a task is cancelled before
  dispatch, a queued run started by the shutdown, and a driver abandoned when its cancel fails.

  The environment of the dispatcher answers each call from the log of the actions so far, so a
  property of every environment covers every order of replies, failures and foreign writes; the
  foreign writes are those of the control commands, since the kernel's lock keeps a second
  dispatcher out.

  \<^bold>\<open>Not modelled.\<close> The HTTP layer, process spawning and the drivers; of the Kanban package git and
  the supervised processes, shadow mode, the bridge to the board kernel and the HTTP client;
  opening and migrating the database file, sockets and their permissions; asyncio's timers, whose
  firing is a nondeterministic step; a driver that raises \<^verbatim>\<open>CancelledError\<close> of its own.
\<close>

end
